(* ===== verification/Prelude.thy ===== *)
theory Prelude
  imports Complex_Main "HOL-Library.List_Lexorder" "HOL-Library.Char_ord" "HOL-Library.Sublist"
begin

text \<open>
  The shared ground of the development: the collections the component proofs use, the
  exception values of the Python services, and the generic lemmas on sums, lists and
  lexicographic order that several components need.

  Python values are modelled as follows everywhere. A byte string is a \<^typ>\<open>string\<close>
  (a \<^typ>\<open>char\<close> is exactly one of 256 values), a Python \<open>str\<close> is a list of code
  points (\<open>pystr\<close>), an \<open>int\<close> is \<^typ>\<open>int\<close>, a raised exception is the
  left summand of a sum, and the world a service calls into (the ledger, another service, the
  clock) is a state of a type variable that every call receives and returns.
\<close>

section \<open>Collections\<close>

named_theorems text_simps "evaluation of the text and byte codecs"
named_theorems step_defs "definitions unfolded by the step-by-step proofs of the routes"
named_theorems frame_intros "steps of the world that keep the ledger's history"

section \<open>Types\<close>

type_synonym bytes = string
type_synonym pystr = "nat list"

text \<open>A literal of the source, as the code points of its characters.\<close>

definition lit :: "string \<Rightarrow> pystr" where
  "lit s = map of_char s"

lemma lit_inj: "lit a = lit b \<longleftrightarrow> a = b"
proof
  assume "lit a = lit b"
  then have "map char_of (lit a) = (map char_of (lit b) :: string)" by simp
  then show "a = b" by (simp add: lit_def comp_def)
qed simp

lemma lit_Nil_iff: "lit s = [] \<longleftrightarrow> s = []"
  by (simp add: lit_def)

text \<open>
  The exceptions the services raise or receive. \<open>Foreign\<close> is one raised by code that
  is not in the repository (a client library, the operating system), with its class name and
  its text; the others are raised by the repository's own code and carry the values their
  messages interpolate, not the message text.
\<close>

datatype exn =
    ErrCorruptedData string
  | BadSignatureError string
  | RpcError string
  | Foreign string string
  | ValueError
  | UnicodeError
  | IndexError
  | KeyError pystr
  | TypeError
  | RuntimeError string
  | UnverifiedNoKey
  | UnverifiedBadSignature int
  | UnverifiedBackwards int int
  | ReserveNotInteger pystr
  | ReserveNotPositive int
  | ReserveTooLarge int
  | ReserveMismatch int int
  | PositionExhausted int
  | RecordKeyExists bytes
  | SequenceBudgetExhausted nat
  | NotAFaultRecord
  | FaultKeyTooLong nat
  | WriterKeyUnset
  | WriterKeyMissing string
  | BoundedReadFault bytes
  | OrderingFault pystr "rat \<times> int" "rat \<times> int"
  | HTTPStatusError int
  | SystemExit exn

text \<open>An \<open>HTTPException\<close> a route answers with, as its status.\<close>

datatype http_error = HTTPException nat

text \<open>The text the source tests with \<open>in str(exc)\<close>; only foreign texts are tested.\<close>

fun exn_str :: "exn \<Rightarrow> string" where
  "exn_str (ErrCorruptedData s) = s"
| "exn_str (BadSignatureError s) = s"
| "exn_str (RpcError s) = s"
| "exn_str (Foreign _ s) = s"
| "exn_str _ = ''''"

section \<open>Sequencing of results\<close>

definition bind_sum :: "('e + 'a) \<Rightarrow> ('a \<Rightarrow> 'e + 'b) \<Rightarrow> 'e + 'b" where
  "bind_sum m f = (case m of Inl e \<Rightarrow> Inl e | Inr x \<Rightarrow> f x)"

lemma bind_sum_simps [simp]:
  "bind_sum (Inl e) f = Inl e"
  "bind_sum (Inr x) f = f x"
  by (simp_all add: bind_sum_def)

lemma bind_sum_Inr_iff: "bind_sum m f = Inr y \<longleftrightarrow> (\<exists>x. m = Inr x \<and> f x = Inr y)"
  by (cases m) auto

definition of_option :: "'e \<Rightarrow> 'a option \<Rightarrow> 'e + 'a" where
  "of_option e m = (case m of None \<Rightarrow> Inl e | Some x \<Rightarrow> Inr x)"

lemma of_option_simps [simp]:
  "of_option e None = Inl e"
  "of_option e (Some x) = Inr x"
  by (simp_all add: of_option_def)

fun those_list :: "'a option list \<Rightarrow> 'a list option" where
  "those_list [] = Some []"
| "those_list (None # _) = None"
| "those_list (Some x # xs) = map_option (Cons x) (those_list xs)"

lemma those_list_map_Some [simp]: "those_list (map Some xs) = Some xs"
  by (induction xs) auto

lemma those_list_Some_iff: "those_list ms = Some xs \<longleftrightarrow> ms = map Some xs"
  by (induction ms arbitrary: xs rule: those_list.induct) (auto simp: map_eq_Cons_conv)

section \<open>Substrings and prefixes\<close>

text \<open>\<open>needle in haystack\<close> and \<open>s.startswith(p)\<close>.\<close>

fun starts_with :: "'a list \<Rightarrow> 'a list \<Rightarrow> bool" where
  "starts_with _ [] = True"
| "starts_with [] (_ # _) = False"
| "starts_with (x # xs) (p # ps) = (x = p \<and> starts_with xs ps)"

fun contains :: "'a list \<Rightarrow> 'a list \<Rightarrow> bool" where
  "contains needle [] = (needle = [])"
| "contains needle (x # xs) = (starts_with (x # xs) needle \<or> contains needle xs)"

lemma starts_with_iff: "starts_with s p \<longleftrightarrow> prefix p s"
  by (induction s p rule: starts_with.induct) auto

lemma starts_with_append [simp]: "starts_with (p @ s) p"
  by (simp add: starts_with_iff)

lemma contains_iff: "contains needle s \<longleftrightarrow> sublist needle s"
  by (induction s) (auto simp: sublist_Cons_right starts_with_iff)

section \<open>Lexicographic order of equal-length prefixes\<close>

lemma list_less_append_same:
  fixes xs :: "'a::linorder list"
  shows "xs @ ys < xs @ zs \<longleftrightarrow> ys < zs"
  by (induction xs) auto

lemma list_less_append_left:
  fixes xs :: "'a::linorder list"
  assumes "xs < ys" "length xs = length ys"
  shows "xs @ us < ys @ vs"
  using assms by (induction xs ys rule: list_induct2') auto

lemma list_le_append_same:
  fixes xs :: "'a::linorder list"
  shows "xs @ ys \<le> xs @ zs \<longleftrightarrow> ys \<le> zs"
  by (induction xs) auto

lemma list_le_append_self:
  fixes xs :: "'a::linorder list"
  shows "xs \<le> xs @ ys"
  by (induction xs) auto

section \<open>Generic list facts\<close>

lemma map_of_filter_fst:
  "k \<noteq> k' \<Longrightarrow> map_of (filter (\<lambda>p. fst p \<noteq> k') xs) k = map_of xs k"
  by (induction xs) auto

lemma last_in_range: "xs \<noteq> [] \<Longrightarrow> last xs \<in> set xs"
  by simp

end
