(* ===== verification/PyText.thy ===== *)
theory PyText
  imports Prelude
begin

text \<open>
  The parts of the Python standard library the services use on text and bytes: UTF-8
  (\<open>str.encode\<close>, \<open>bytes.decode\<close>, strict and with \<open>'replace'\<close>), decimal
  integers (\<open>str(n)\<close>, \<open>int(s)\<close>, the zero-padded format), hexadecimal digests and
  base64, each with its round trip. Characters above U+00FF that Unicode counts as digits or
  white space are not digits or white space here; nothing the services write contains one.
\<close>

section \<open>UTF-8\<close>

definition is_surrogate :: "nat \<Rightarrow> bool" where
  "is_surrogate c \<longleftrightarrow> 0xD800 \<le> c \<and> c \<le> 0xDFFF"

definition is_scalar :: "nat \<Rightarrow> bool" where
  "is_scalar c \<longleftrightarrow> c < 0x110000 \<and> \<not> is_surrogate c"

definition utf8_point :: "nat \<Rightarrow> nat list" where
  "utf8_point c =
     (if c < 0x80 then [c]
      else if c < 0x800 then [0xC0 + c div 64, 0x80 + c mod 64]
      else if c < 0x10000
        then [0xE0 + c div 4096, 0x80 + (c div 64) mod 64, 0x80 + c mod 64]
      else [0xF0 + c div 262144, 0x80 + (c div 4096) mod 64, 0x80 + (c div 64) mod 64,
            0x80 + c mod 64])"

text \<open>\<open>s.encode()\<close>: None is the UnicodeEncodeError of a surrogate.\<close>

definition utf8_encode :: "pystr \<Rightarrow> bytes option" where
  "utf8_encode s =
     (if list_all is_scalar s then Some (map char_of (concat (map utf8_point s))) else None)"

text \<open>\<open>s.encode('utf-8', 'replace')\<close>: a surrogate becomes a question mark.\<close>

definition utf8_encode_replace :: "pystr \<Rightarrow> bytes" where
  "utf8_encode_replace s =
     map char_of (concat (map (\<lambda>c. if is_scalar c then utf8_point c else [63]) s))"

definition is_cont :: "nat \<Rightarrow> bool" where
  "is_cont b \<longleftrightarrow> 0x80 \<le> b \<and> b \<le> 0xBF"

text \<open>
  The decoder reads one lead byte and what follows it: the code point, or None with the number
  of following bytes that belong to the same ill-formed sequence.
\<close>

definition second_ok :: "nat \<Rightarrow> nat \<Rightarrow> bool" where
  "second_ok b b1 \<longleftrightarrow>
     (if b = 0xE0 then 0xA0 \<le> b1 \<and> b1 \<le> 0xBF
      else if b = 0xED then 0x80 \<le> b1 \<and> b1 \<le> 0x9F
      else if b = 0xF0 then 0x90 \<le> b1 \<and> b1 \<le> 0xBF
      else if b = 0xF4 then 0x80 \<le> b1 \<and> b1 \<le> 0x8F
      else is_cont b1)"

definition utf8_next :: "nat \<Rightarrow> nat list \<Rightarrow> nat option \<times> nat" where
  "utf8_next b bs =
     (if b < 0x80 then (Some b, 0)
      else if b < 0xC2 \<or> 0xF5 \<le> b then (None, 0)
      else case bs of [] \<Rightarrow> (None, 0) | b1 # bs1 \<Rightarrow>
        if \<not> second_ok b b1 then (None, 0)
        else if b < 0xE0 then (Some ((b - 0xC0) * 64 + (b1 - 0x80)), 1)
        else case bs1 of [] \<Rightarrow> (None, 1) | b2 # bs2 \<Rightarrow>
          if \<not> is_cont b2 then (None, 1)
          else if b < 0xF0
            then (Some ((b - 0xE0) * 4096 + (b1 - 0x80) * 64 + (b2 - 0x80)), 2)
          else case bs2 of [] \<Rightarrow> (None, 2) | b3 # bs3 \<Rightarrow>
            if \<not> is_cont b3 then (None, 2)
            else (Some ((b - 0xF0) * 262144 + (b1 - 0x80) * 4096 + (b2 - 0x80) * 64
                        + (b3 - 0x80)), 3))"

fun utf8_points :: "nat list \<Rightarrow> nat option list" where
  "utf8_points [] = []"
| "utf8_points (b # bs) =
     (case utf8_next b bs of (r, n) \<Rightarrow> r # utf8_points (drop n bs))"

definition utf8_decode :: "bytes \<Rightarrow> pystr option" where
  "utf8_decode b = those_list (utf8_points (map of_char b))"

definition utf8_decode_replace :: "bytes \<Rightarrow> pystr" where
  "utf8_decode_replace b =
     map (\<lambda>r. case r of None \<Rightarrow> 0xFFFD | Some c \<Rightarrow> c) (utf8_points (map of_char b))"

lemma split_base64_3:
  fixes c :: nat
  shows "c = c div 4096 * 4096 + (c div 64) mod 64 * 64 + c mod 64"
proof -
  have "c div 4096 = c div 64 div 64"
    using div_mult2_eq [of c 64 64] by simp
  moreover have "c = c div 64 * 64 + c mod 64" "c div 64 = c div 64 div 64 * 64 + (c div 64) mod 64"
    by simp_all
  ultimately show ?thesis by linarith
qed

lemma split_base64_4:
  fixes c :: nat
  shows "c = c div 262144 * 262144 + (c div 4096) mod 64 * 4096 + (c div 64) mod 64 * 64 + c mod 64"
proof -
  have "c div 262144 = c div 4096 div 64"
    using div_mult2_eq [of c 4096 64] by simp
  moreover have "c div 4096 = c div 4096 div 64 * 64 + (c div 4096) mod 64"
    by simp
  ultimately show ?thesis
    using split_base64_3 [of c] by linarith
qed

lemma utf8_points_point:
  assumes "is_scalar c"
  shows "utf8_points (utf8_point c @ bs) = Some c # utf8_points bs"
proof -
  have c: "c < 0x110000" "\<not> (0xD800 \<le> c \<and> c \<le> 0xDFFF)"
    using assms by (auto simp: is_scalar_def is_surrogate_def)
  consider "c < 0x80" | "0x80 \<le> c" "c < 0x800" | "0x800 \<le> c" "c < 0x10000"
    | "0x10000 \<le> c" by linarith
  then show ?thesis
  proof cases
    case 1
    then show ?thesis by (simp add: utf8_point_def utf8_next_def)
  next
    case 2
    then have "c div 64 < 32" "2 \<le> c div 64" by (simp_all add: less_mult_imp_div_less div_le_mono[of 128 c 64, simplified])
    with 2 show ?thesis
      by (simp add: utf8_point_def utf8_next_def second_ok_def is_cont_def)
  next
    case 3
    define a d e where "a = c div 4096" and "d = (c div 64) mod 64" and "e = c mod 64"
    have ceq: "c = a * 4096 + d * 64 + e"
      unfolding a_def d_def e_def by (rule split_base64_3)
    have de: "d < 64" "e < 64"
      unfolding d_def e_def by simp_all
    have a: "a < 16" "a = 0 \<Longrightarrow> 32 \<le> d" "a = 13 \<Longrightarrow> d < 32"
      using 3 c(2) ceq de by linarith+
    have "utf8_point c = [224 + a, 128 + d, 128 + e]"
      using 3 by (simp add: utf8_point_def a_def d_def e_def)
    moreover have "second_ok (224 + a) (128 + d)"
      using a de by (auto simp: second_ok_def is_cont_def)
    then have "utf8_next (224 + a) ((128 + d) # (128 + e) # bs) = (Some c, 2)"
      using a(1) de by (simp add: utf8_next_def is_cont_def ceq)
    ultimately show ?thesis by simp
  next
    case 4
    define a d e f where "a = c div 262144" and "d = (c div 4096) mod 64"
      and "e = (c div 64) mod 64" and "f = c mod 64"
    have ceq: "c = a * 262144 + d * 4096 + e * 64 + f"
      unfolding a_def d_def e_def f_def by (rule split_base64_4)
    have def: "d < 64" "e < 64" "f < 64"
      unfolding d_def e_def f_def by simp_all
    have a: "a < 5" "a = 0 \<Longrightarrow> 16 \<le> d" "a = 4 \<Longrightarrow> d < 16"
      using 4 c(1) ceq def by linarith+
    have "utf8_point c = [240 + a, 128 + d, 128 + e, 128 + f]"
      using 4 by (simp add: utf8_point_def a_def d_def e_def f_def)
    moreover have "second_ok (240 + a) (128 + d)"
      using a def by (auto simp: second_ok_def is_cont_def)
    then have "utf8_next (240 + a) ((128 + d) # (128 + e) # (128 + f) # bs) = (Some c, 3)"
      using a(1) def by (simp add: utf8_next_def is_cont_def ceq)
    ultimately show ?thesis by simp
  qed
qed

lemma utf8_points_encode:
  "list_all is_scalar s \<Longrightarrow> utf8_points (concat (map utf8_point s)) = map Some s"
  by (induction s) (auto simp: utf8_points_point)

lemma utf8_point_byte: "is_scalar c \<Longrightarrow> b \<in> set (utf8_point c) \<Longrightarrow> b < 256"
  by (auto simp: utf8_point_def is_scalar_def less_mult_imp_div_less split: if_splits)

lemma map_of_char_of: "\<forall>b \<in> set bs. b < 256 \<Longrightarrow> map of_char (map char_of bs :: string) = (bs :: nat list)"
  by (induction bs) auto

lemma of_char_utf8:
  "list_all is_scalar s \<Longrightarrow>
   map of_char (map char_of (concat (map utf8_point s)) :: string) = concat (map utf8_point s)"
  by (rule map_of_char_of) (auto simp: list_all_iff intro: utf8_point_byte)

lemma utf8_roundtrip: "utf8_encode s = Some b \<Longrightarrow> utf8_decode b = Some s"
  unfolding utf8_encode_def utf8_decode_def
  by (auto simp: of_char_utf8 utf8_points_encode simp del: map_map split: if_splits)


section \<open>Decimal integers\<close>

text \<open>The decimal digits of a number, most significant first.\<close>

fun digits :: "nat \<Rightarrow> nat list" where
  "digits n = (if n < 10 then [n] else digits (n div 10) @ [n mod 10])"

declare digits.simps [simp del]

text \<open>\<open>str(i)\<close>, and the format \<open>{i:0wd}\<close>.\<close>

definition show_nat :: "nat \<Rightarrow> pystr" where
  "show_nat n = map ((+) 48) (digits n)"

definition show_int :: "int \<Rightarrow> pystr" where
  "show_int i = (if i < 0 then 45 # show_nat (nat (- i)) else show_nat (nat i))"

definition zero_pad :: "nat \<Rightarrow> int \<Rightarrow> pystr" where
  "zero_pad w i =
     (if i < 0
      then 45 # replicate (w - 1 - length (show_nat (nat (- i)))) 48 @ show_nat (nat (- i))
      else replicate (w - length (show_nat (nat i))) 48 @ show_nat (nat i))"

text \<open>\<open>str.strip()\<close> and \<open>int(str)\<close>; None is the ValueError.\<close>

definition is_space :: "nat \<Rightarrow> bool" where
  "is_space c \<longleftrightarrow> (9 \<le> c \<and> c \<le> 13) \<or> (28 \<le> c \<and> c \<le> 32) \<or> c = 0x85 \<or> c = 0xA0"

definition strip :: "pystr \<Rightarrow> pystr" where
  "strip s = rev (dropWhile is_space (rev (dropWhile is_space s)))"

definition is_digit :: "nat \<Rightarrow> bool" where
  "is_digit c \<longleftrightarrow> 48 \<le> c \<and> c \<le> 57"

fun parse_digits :: "nat \<Rightarrow> bool \<Rightarrow> pystr \<Rightarrow> nat option" where
  "parse_digits acc us [] = (if us then None else Some acc)"
| "parse_digits acc us (c # cs) =
     (if is_digit c then parse_digits (acc * 10 + (c - 48)) False cs
      else if c = 95 \<and> \<not> us then parse_digits acc True cs
      else None)"

fun parse_nat :: "pystr \<Rightarrow> nat option" where
  "parse_nat [] = None"
| "parse_nat (c # cs) = (if is_digit c then parse_digits (c - 48) False cs else None)"

definition py_int :: "pystr \<Rightarrow> int option" where
  "py_int s =
     (case strip s of
        [] \<Rightarrow> None
      | c # cs \<Rightarrow>
          if c = 45 then map_option (\<lambda>n. - int n) (parse_nat cs)
          else if c = 43 then map_option int (parse_nat cs)
          else map_option int (parse_nat (c # cs)))"

lemma digits_nonempty [simp]: "digits n \<noteq> []"
  by (subst digits.simps) simp

lemma digits_less: "d \<in> set (digits n) \<Longrightarrow> d < 10"
proof (induction n rule: digits.induct)
  case (1 n)
  then show ?case
    by (cases "n < 10") (auto simp: digits.simps [of n])
qed

definition value_of :: "nat list \<Rightarrow> nat" where
  "value_of ds = foldl (\<lambda>a d. a * 10 + d) 0 ds"

lemma value_of_snoc [simp]: "value_of (ds @ [d]) = value_of ds * 10 + d"
  by (simp add: value_of_def)

lemma value_of_Nil [simp]: "value_of [] = 0"
  by (simp add: value_of_def)

lemma value_of_digits [simp]: "value_of (digits n) = n"
proof (induction n rule: digits.induct)
  case (1 n)
  then show ?case
    by (cases "n < 10") (auto simp: digits.simps [of n] value_of_def)
qed

lemma parse_digits_value:
  "\<forall>d \<in> set ds. d < 10 \<Longrightarrow>
   parse_digits acc False (map ((+) 48) ds) = Some (foldl (\<lambda>a d. a * 10 + d) acc ds)"
  by (induction ds arbitrary: acc) (auto simp: is_digit_def)

lemma parse_nat_value:
  assumes "\<forall>d \<in> set ds. d < 10" "ds \<noteq> []"
  shows "parse_nat (map ((+) 48) ds) = Some (value_of ds)"
  using assms by (cases ds) (auto simp: is_digit_def parse_digits_value value_of_def)

lemma parse_nat_show [simp]: "parse_nat (show_nat n) = Some n"
  unfolding show_nat_def by (subst parse_nat_value) (auto dest: digits_less)

lemma show_nat_Cons: obtains c cs where "show_nat n = c # cs" "48 \<le> c" "c \<le> 57"
proof -
  obtain d ds where "digits n = d # ds" by (meson digits_nonempty neq_Nil_conv)
  moreover from this have "d < 10" using digits_less [of d n] by simp
  ultimately show ?thesis using that by (simp add: show_nat_def)
qed

lemma show_nat_no_space: "c \<in> set (show_nat n) \<Longrightarrow> \<not> is_space c"
  by (auto simp: show_nat_def is_space_def dest: digits_less)

lemma show_nat_bounds: "c \<in> set (show_nat n) \<Longrightarrow> 48 \<le> c \<and> c \<le> 57"
  by (auto simp: show_nat_def dest: digits_less)

lemma strip_id:
  assumes "\<And>c. c \<in> set s \<Longrightarrow> \<not> is_space c"
  shows "strip s = s"
proof -
  have drop: "dropWhile is_space t = t" if "\<forall>c \<in> set t. \<not> is_space c" for t
    using that by (cases t) auto
  show ?thesis using assms by (simp add: strip_def drop)
qed

lemma show_int_no_space: "c \<in> set (show_int i) \<Longrightarrow> \<not> is_space c"
  by (auto simp: show_int_def show_nat_no_space is_space_def split: if_splits dest: show_nat_bounds)

lemma py_int_show [simp]: "py_int (show_int i) = Some i"
proof (cases "i < 0")
  case True
  then show ?thesis
    by (simp add: py_int_def strip_id show_int_no_space) (simp add: show_int_def)
next
  case False
  obtain c cs where c: "show_nat (nat i) = c # cs" "48 \<le> c" "c \<le> 57"
    by (rule show_nat_Cons)
  have "parse_nat (c # cs) = Some (nat i)"
    using parse_nat_show [of "nat i"] c(1) by simp
  with False c show ?thesis
    by (simp add: py_int_def strip_id show_int_no_space del: parse_nat.simps)
       (simp add: show_int_def del: parse_nat.simps)
qed

lemma show_int_inj: "show_int i = show_int j \<Longrightarrow> i = j"
  by (metis option.inject py_int_show)

lemma show_int_ascii: "c \<in> set (show_int i) \<Longrightarrow> c < 128"
  by (auto simp: show_int_def split: if_splits dest: show_nat_bounds)

text \<open>The digits of a fixed width, and their order.\<close>

fun fixed :: "nat \<Rightarrow> nat \<Rightarrow> nat list" where
  "fixed 0 n = []"
| "fixed (Suc w) n = fixed w (n div 10) @ [n mod 10]"

lemma length_fixed [simp]: "length (fixed w n) = w"
  by (induction w arbitrary: n) auto

lemma fixed_less10: "d \<in> set (fixed w n) \<Longrightarrow> d < 10"
  by (induction w arbitrary: n) auto

lemma value_of_fixed: "n < 10 ^ w \<Longrightarrow> value_of (fixed w n) = n"
proof (induction w arbitrary: n)
  case (Suc w)
  then have "n div 10 < 10 ^ w" by (simp add: less_mult_imp_div_less mult.commute)
  with Suc.IH show ?case by simp
qed simp

lemma fixed_zero: "fixed w 0 = replicate w 0"
  by (induction w) (auto simp flip: replicate_append_same)

lemma length_digits_le: "n < 10 ^ w \<Longrightarrow> 0 < w \<Longrightarrow> length (digits n) \<le> w"
proof (induction w arbitrary: n)
  case (Suc w)
  show ?case
  proof (cases "n < 10")
    case False
    then have "w \<noteq> 0" using Suc.prems(1) by (intro notI) simp
    moreover have "n div 10 < 10 ^ w"
      using Suc.prems(1) by (simp add: less_mult_imp_div_less mult.commute)
    ultimately show ?thesis
      using Suc.IH [of "n div 10"] False by (simp add: digits.simps [of n])
  qed (simp add: digits.simps [of n])
qed simp

lemma fixed_digits:
  "n < 10 ^ w \<Longrightarrow> 0 < w \<Longrightarrow> fixed w n = replicate (w - length (digits n)) 0 @ digits n"
proof (induction w arbitrary: n)
  case (Suc w)
  show ?case
  proof (cases "n < 10")
    case True
    then show ?thesis by (simp add: digits.simps [of n] fixed_zero)
  next
    case False
    then have "w \<noteq> 0" using Suc.prems(1) by (intro notI) simp
    moreover have "n div 10 < 10 ^ w"
      using Suc.prems(1) by (simp add: less_mult_imp_div_less mult.commute)
    ultimately show ?thesis
      using Suc.IH [of "n div 10"] False by (simp add: digits.simps [of n])
  qed
qed simp

lemma zero_pad_fixed:
  assumes "0 \<le> i" "nat i < 10 ^ w" "0 < w"
  shows "zero_pad w i = map ((+) 48) (fixed w (nat i))"
  using assms by (simp add: zero_pad_def show_nat_def fixed_digits)

lemma fixed_mono:
  "m < n \<Longrightarrow> n < 10 ^ w \<Longrightarrow> fixed w m < fixed w n"
proof (induction w arbitrary: m n)
  case (Suc w)
  have n: "n div 10 < 10 ^ w"
    using Suc.prems(2) by (simp add: less_mult_imp_div_less mult.commute)
  show ?case
  proof (cases "m div 10 < n div 10")
    case True
    then show ?thesis using Suc.IH [OF True n] by (auto intro!: list_less_append_left)
  next
    case False
    have d: "m div 10 = n div 10" using False div_le_mono [of m n 10] Suc.prems(1) by simp
    moreover have "m mod 10 < n mod 10"
      using Suc.prems(1) d div_mult_mod_eq [of m 10] div_mult_mod_eq [of n 10] by linarith
    ultimately show ?thesis by (simp add: list_less_append_same)
  qed
qed simp

lemma map_less:
  fixes xs ys :: "nat list"
  shows "xs < ys \<Longrightarrow> map ((+) 48) xs < map ((+) 48) ys"
  by (induction xs ys rule: list_induct2') auto

lemma zero_pad_mono:
  assumes "0 \<le> i" "i < j" "nat j < 10 ^ w" "0 < w"
  shows "zero_pad w i < zero_pad w j"
proof -
  have "nat i < nat j" using assms(1,2) by simp
  moreover from this have "nat i < 10 ^ w" using assms(3) by (rule less_trans)
  ultimately show ?thesis
    using assms by (simp add: zero_pad_fixed map_less fixed_mono)
qed

lemma length_zero_pad:
  "0 \<le> i \<Longrightarrow> nat i < 10 ^ w \<Longrightarrow> 0 < w \<Longrightarrow> length (zero_pad w i) = w"
  by (simp add: zero_pad_fixed)

lemma zero_pad_digit:
  "0 \<le> i \<Longrightarrow> c \<in> set (zero_pad w i) \<Longrightarrow> 48 \<le> c \<and> c \<le> 57"
  by (auto simp: zero_pad_def dest: show_nat_bounds split: if_splits)

lemma py_int_zero_pad:
  assumes "0 \<le> i" "nat i < 10 ^ w" "0 < w"
  shows "py_int (zero_pad w i) = Some i"
proof -
  have "strip (zero_pad w i) = zero_pad w i"
    using assms by (intro strip_id) (auto simp: is_space_def dest!: zero_pad_digit)
  moreover have "parse_nat (zero_pad w i) = Some (nat i)"
    using assms by (simp add: zero_pad_fixed, subst parse_nat_value)
      (auto simp: value_of_fixed dest: fixed_less10 simp flip: length_0_conv)
  moreover obtain c cs where "zero_pad w i = c # cs" "48 \<le> c"
    using assms zero_pad_digit [of i _ w] length_zero_pad [of i w]
    by (cases "zero_pad w i") auto
  ultimately show ?thesis
    using assms(1) by (auto simp: py_int_def)
qed


section \<open>Hexadecimal digests\<close>

definition hex_digit :: "nat \<Rightarrow> nat" where
  "hex_digit d = (if d < 10 then 48 + d else 87 + d)"

definition hexdigest :: "bytes \<Rightarrow> pystr" where
  "hexdigest b = concat (map (\<lambda>c. [hex_digit (of_char c div 16), hex_digit (of_char c mod 16)]) b)"

lemma length_hexdigest [simp]: "length (hexdigest b) = 2 * length b"
  by (induction b) (auto simp: hexdigest_def)

lemma hexdigest_ascii: "c \<in> set (hexdigest b) \<Longrightarrow> 48 \<le> c \<and> c \<le> 102"
proof -
  have "48 \<le> hex_digit d \<and> hex_digit d \<le> 102" if "d < 16" for d
    using that by (auto simp: hex_digit_def)
  moreover have "of_char (x::char) div 16 < (16::nat)" for x
    using nat_of_char_less_256 [of x] by (simp add: less_mult_imp_div_less)
  ultimately show "c \<in> set (hexdigest b) \<Longrightarrow> 48 \<le> c \<and> c \<le> 102"
    by (force simp: hexdigest_def)
qed

section \<open>Base64\<close>

definition b64_char :: "nat \<Rightarrow> nat" where
  "b64_char v =
     (if v < 26 then 65 + v else if v < 52 then 71 + v else if v < 62 then v - 4
      else if v = 62 then 43 else 47)"

definition b64_value :: "nat \<Rightarrow> nat option" where
  "b64_value c =
     (if 65 \<le> c \<and> c \<le> 90 then Some (c - 65)
      else if 97 \<le> c \<and> c \<le> 122 then Some (c - 71)
      else if 48 \<le> c \<and> c \<le> 57 then Some (c + 4)
      else if c = 43 then Some 62
      else if c = 47 then Some 63
      else None)"

fun b64_groups :: "nat list \<Rightarrow> nat list" where
  "b64_groups [] = []"
| "b64_groups [a] = [b64_char (a div 4), b64_char (a mod 4 * 16), 61, 61]"
| "b64_groups [a, b] =
     [b64_char (a div 4), b64_char (a mod 4 * 16 + b div 16), b64_char (b mod 16 * 4), 61]"
| "b64_groups (a # b # c # r) =
     b64_char (a div 4) # b64_char (a mod 4 * 16 + b div 16) # b64_char (b mod 16 * 4 + c div 64)
     # b64_char (c mod 64) # b64_groups r"

text \<open>\<open>base64.b64encode(b).decode()\<close>\<close>

definition b64encode :: "bytes \<Rightarrow> pystr" where
  "b64encode b = b64_groups (map of_char b)"

text \<open>
  \<open>binascii.a2b_base64\<close>: the position in the group of four, the bits left over and the
  padding seen so far. Outside strict mode a character that is not in the alphabet is skipped;
  a complete pad sequence ends the input.
\<close>

fun a2b :: "bool \<Rightarrow> nat \<Rightarrow> nat \<Rightarrow> nat \<Rightarrow> bool \<Rightarrow> nat list \<Rightarrow> nat list option" where
  "a2b strict quad left pads padded [] = (if quad = 0 then Some [] else None)"
| "a2b strict quad left pads padded (c # cs) =
     (if c = 61 then
        (if 2 \<le> quad \<and> 4 \<le> quad + Suc pads then (if strict \<and> cs \<noteq> [] then None else Some [])
         else a2b strict quad left (if 2 \<le> quad then Suc pads else pads) True cs)
      else case b64_value c of
        None \<Rightarrow> if strict then None else a2b strict quad left pads padded cs
      | Some v \<Rightarrow>
          if strict \<and> padded then None
          else if quad = 0 then a2b strict 1 v 0 padded cs
          else if quad = 1
            then map_option (Cons (left * 4 + v div 16)) (a2b strict 2 (v mod 16) 0 padded cs)
          else if quad = 2
            then map_option (Cons (left * 16 + v div 4)) (a2b strict 3 (v mod 4) 0 padded cs)
          else map_option (Cons (left * 64 + v)) (a2b strict 0 0 0 padded cs))"

text \<open>
  \<open>base64.b64decode(s)\<close> and \<open>base64.b64decode(s, validate=True)\<close> on a \<open>str\<close>: None is
  \<open>binascii.Error\<close>, or the ValueError of a string that is not ASCII.
\<close>

definition b64decode :: "pystr \<Rightarrow> bytes option" where
  "b64decode s =
     (if list_all (\<lambda>c. c < 128) s
      then map_option (map char_of) (a2b False 0 0 0 False s) else None)"

definition b64decode_validate :: "pystr \<Rightarrow> bytes option" where
  "b64decode_validate s =
     (if list_all (\<lambda>c. c < 128) s \<and> (s = [] \<or> hd s \<noteq> 61)
      then map_option (map char_of) (a2b True 0 0 0 False s) else None)"

lemma b64_char_ascii [simp]: "b64_char v < 128" "b64_char v \<noteq> 61"
  by (auto simp: b64_char_def)

lemma b64_value_char: "v < 64 \<Longrightarrow> b64_value (b64_char v) = Some v"
  by (auto simp: b64_char_def b64_value_def)

lemma a2b_char:
  assumes "v < 64"
  shows "a2b strict quad left pads False (b64_char v # cs) =
         (if quad = 0 then a2b strict 1 v 0 False cs
          else if quad = 1
            then map_option (Cons (left * 4 + v div 16)) (a2b strict 2 (v mod 16) 0 False cs)
          else if quad = 2
            then map_option (Cons (left * 16 + v div 4)) (a2b strict 3 (v mod 4) 0 False cs)
          else map_option (Cons (left * 64 + v)) (a2b strict 0 0 0 False cs))"
  using b64_value_char [OF assms] by simp

lemma join_split:
  fixes x y n :: nat
  assumes "y < n"
  shows "(x * n + y) div n = x" "(x * n + y) mod n = y"
  using assms by simp_all

lemma less_join:
  fixes x y n m :: nat
  assumes "x < m" "y < n"
  shows "x * n + y < m * n"
proof -
  have "Suc x * n \<le> m * n" using assms(1) by (intro mult_le_mono1) simp
  with assms(2) show ?thesis by simp
qed

lemma a2b_group3:
  assumes "a < 256" "b < 256" "c < 256"
  shows "a2b strict 0 0 0 False
           (b64_char (a div 4) # b64_char (a mod 4 * 16 + b div 16)
            # b64_char (b mod 16 * 4 + c div 64) # b64_char (c mod 64) # cs)
         = map_option (\<lambda>r. a # b # c # r) (a2b strict 0 0 0 False cs)"
proof -
  have h: "b div 16 < 16" "c div 64 < 4" using assms by (simp_all add: less_mult_imp_div_less)
  have v: "a div 4 < 64" "a mod 4 * 16 + b div 16 < 64" "b mod 16 * 4 + c div 64 < 64"
    "c mod 64 < 64"
    using assms(1) less_join [of "a mod 4" 4 "b div 16" 16] less_join [of "b mod 16" 16 "c div 64" 4] h
    by (simp_all add: less_mult_imp_div_less)
  have e: "a div 4 * 4 + (a mod 4 * 16 + b div 16) div 16 = a"
    "(a mod 4 * 16 + b div 16) mod 16 * 16 + (b mod 16 * 4 + c div 64) div 4 = b"
    "(b mod 16 * 4 + c div 64) mod 4 * 64 + c mod 64 = c"
    by (simp_all only: join_split [OF h(1)] join_split [OF h(2)] div_mult_mod_eq)
  show ?thesis
    by (simp only: a2b_char v e) (simp add: option.map_comp comp_def del: a2b.simps)
qed

lemma a2b_groups:
  "\<forall>b \<in> set bs. b < 256 \<Longrightarrow> a2b strict 0 0 0 False (b64_groups bs) = Some bs"
proof (induction bs rule: b64_groups.induct)
  case (2 a)
  then have "a div 4 < 64" "a mod 4 * 16 < 64" by (simp_all add: less_mult_imp_div_less)
  then show ?case by (simp add: a2b_char del: a2b.simps) simp
next
  case (3 a b)
  then have h: "a div 4 < 64" "b div 16 < 16" by (simp_all add: less_mult_imp_div_less)
  have v: "a mod 4 * 16 + b div 16 < 64" "b mod 16 * 4 < 64"
    using less_join [of "a mod 4" 4 "b div 16" 16] h by simp_all
  have e: "a div 4 * 4 + (a mod 4 * 16 + b div 16) div 16 = a"
    "(a mod 4 * 16 + b div 16) mod 16 * 16 + b mod 16 * 4 div 4 = b"
    by (simp_all only: join_split [OF h(2)] div_mult_mod_eq) simp
  show ?case by (simp add: a2b_char h v e del: a2b.simps) simp
next
  case (4 a b c r)
  then show ?case by (simp add: a2b_group3 del: a2b.simps)
qed simp

lemma b64_groups_ascii: "c \<in> set (b64_groups bs) \<Longrightarrow> c < 128"
  by (induction bs rule: b64_groups.induct) auto

lemma b64_groups_hd: "bs \<noteq> [] \<Longrightarrow> hd (b64_groups bs) \<noteq> 61"
  by (cases bs rule: b64_groups.cases) auto

lemma b64encode_ascii: "list_all (\<lambda>c. c < 128) (b64encode b)"
  by (auto simp: b64encode_def list_all_iff dest: b64_groups_ascii)

lemma b64encode_hd: "b64encode b = [] \<or> hd (b64encode b) \<noteq> 61"
  using b64_groups_hd [of "map of_char b"] by (cases "b = []") (auto simp: b64encode_def)

lemma a2b_b64encode: "a2b strict 0 0 0 False (b64encode b) = Some (map of_char b)"
  unfolding b64encode_def by (rule a2b_groups) (auto intro: nat_of_char_less_256)

lemma b64_roundtrip [simp]: "b64decode (b64encode b) = Some b"
  by (simp add: b64decode_def b64encode_ascii a2b_b64encode comp_def)

lemma b64_roundtrip_validate [simp]: "b64decode_validate (b64encode b) = Some b"
  using b64encode_hd [of b]
  by (simp add: b64decode_validate_def b64encode_ascii a2b_b64encode comp_def)

lemma b64encode_inj: "b64encode a = b64encode b \<Longrightarrow> a = b"
  by (metis b64_roundtrip option.inject)

end
