(* ===== verification/PyJson.thy ===== *)
theory PyJson
  imports PyText
begin

text \<open>
  Python's \<open>json\<close> module as the services use it: the value type, \<open>dumps\<close> with
  \<open>ensure_ascii\<close> (compact or with the default separators, sorted or in insertion order)
  and \<open>loads\<close>. A float is carried as the text of its literal. The parser counts its nested
  calls down from a bound that is proved to be enough for every input the printer produces.
\<close>

section \<open>Values\<close>

datatype json =
    JNull
  | JBool bool
  | JInt int
  | JFloat pystr
  | JStr pystr
  | JArr "json list"
  | JObj "(pystr \<times> json) list"

text \<open>
  A dict is its items in insertion order. Assigning to a key that is present keeps its place.
\<close>

type_synonym dict = "(pystr \<times> json) list"

fun dict_set :: "dict \<Rightarrow> pystr \<Rightarrow> json \<Rightarrow> dict" where
  "dict_set [] k v = [(k, v)]"
| "dict_set ((k', v') # d) k v = (if k' = k then (k, v) # d else (k', v') # dict_set d k v)"

definition dict_get :: "dict \<Rightarrow> pystr \<Rightarrow> json option" where
  "dict_get d k = map_of d k"

definition dict_of :: "(pystr \<times> json) list \<Rightarrow> dict" where
  "dict_of kvs = foldl (\<lambda>d (k, v). dict_set d k v) [] kvs"

text \<open>\<open>bool(v)\<close>\<close>

fun truthy :: "json \<Rightarrow> bool" where
  "truthy JNull = False"
| "truthy (JBool b) = b"
| "truthy (JInt i) = (i \<noteq> 0)"
| "truthy (JFloat f) = (\<exists>c \<in> set (takeWhile (\<lambda>c. c \<noteq> 101 \<and> c \<noteq> 69) f). c \<in> {49..57} \<or> 65 \<le> c)"
| "truthy (JStr s) = (s \<noteq> [])"
| "truthy (JArr xs) = (xs \<noteq> [])"
| "truthy (JObj kvs) = (kvs \<noteq> [])"

lemma dict_get_set [simp]: "dict_get (dict_set d k v) k' = (if k' = k then Some v else dict_get d k')"
  by (induction d k v rule: dict_set.induct) (auto simp: dict_get_def)

lemma keys_dict_set: "fst ` set (dict_set d k v) = insert k (fst ` set d)"
  by (induction d k v rule: dict_set.induct) auto

lemma distinct_dict_set: "distinct (map fst d) \<Longrightarrow> distinct (map fst (dict_set d k v))"
  by (induction d k v rule: dict_set.induct) (auto simp: keys_dict_set)

lemma dict_set_fresh: "k \<notin> fst ` set d \<Longrightarrow> dict_set d k v = d @ [(k, v)]"
  by (induction d k v rule: dict_set.induct) auto

lemma dict_of_foldl_distinct:
  "distinct (map fst (d @ kvs)) \<Longrightarrow> foldl (\<lambda>d (k, v). dict_set d k v) d kvs = d @ kvs"
proof (induction kvs arbitrary: d)
  case (Cons kv kvs)
  then have "dict_set d (fst kv) (snd kv) = d @ [kv]"
    by (cases kv) (simp add: dict_set_fresh)
  moreover have "distinct (map fst ((d @ [kv]) @ kvs))" using Cons.prems by simp
  ultimately show ?case using Cons.IH [of "d @ [kv]"] by (simp add: case_prod_unfold)
qed simp

lemma dict_of_distinct [simp]: "distinct (map fst kvs) \<Longrightarrow> dict_of kvs = kvs"
  using dict_of_foldl_distinct [of "[]" kvs] by (simp add: dict_of_def)

section \<open>Printing\<close>

definition hex4 :: "nat \<Rightarrow> pystr" where
  "hex4 n = [hex_digit (n div 4096), hex_digit (n div 256 mod 16), hex_digit (n div 16 mod 16),
             hex_digit (n mod 16)]"

definition escape_char :: "nat \<Rightarrow> pystr" where
  "escape_char c =
     (if c = 34 then [92, 34] else if c = 92 then [92, 92]
      else if c = 10 then [92, 110] else if c = 13 then [92, 114] else if c = 9 then [92, 116]
      else if c = 12 then [92, 102] else if c = 8 then [92, 98]
      else if 32 \<le> c \<and> c \<le> 126 then [c]
      else if c < 0x10000 then [92, 117] @ hex4 c
      else [92, 117] @ hex4 (0xD800 + (c - 0x10000) div 1024)
           @ [92, 117] @ hex4 (0xDC00 + (c - 0x10000) mod 1024))"

definition quote :: "pystr \<Rightarrow> pystr" where
  "quote s = 34 # concat (map escape_char s) @ [34]"

fun join :: "pystr \<Rightarrow> pystr list \<Rightarrow> pystr" where
  "join sep [] = []"
| "join sep [x] = x"
| "join sep (x # y # xs) = x @ sep @ join sep (y # xs)"

primrec dumps_with :: "pystr \<Rightarrow> pystr \<Rightarrow> json \<Rightarrow> pystr" where
  "dumps_with isep ksep JNull = lit ''null''"
| "dumps_with isep ksep (JBool b) = (if b then lit ''true'' else lit ''false'')"
| "dumps_with isep ksep (JInt i) = show_int i"
| "dumps_with isep ksep (JFloat f) = f"
| "dumps_with isep ksep (JStr s) = quote s"
| "dumps_with isep ksep (JArr xs) = 91 # join isep (map (dumps_with isep ksep) xs) @ [93]"
| "dumps_with isep ksep (JObj kvs) =
     123 # join isep (map (\<lambda>(k, t). quote k @ ksep @ t)
                        (map (map_prod id (dumps_with isep ksep)) kvs)) @ [125]"

text \<open>The recursive key sort of \<open>sort_keys=True\<close>.\<close>

primrec sort_keys :: "json \<Rightarrow> json" where
  "sort_keys JNull = JNull"
| "sort_keys (JBool b) = JBool b"
| "sort_keys (JInt i) = JInt i"
| "sort_keys (JFloat f) = JFloat f"
| "sort_keys (JStr s) = JStr s"
| "sort_keys (JArr xs) = JArr (map sort_keys xs)"
| "sort_keys (JObj kvs) = JObj (sort_key fst (map (map_prod id sort_keys) kvs))"

text \<open>
  \<open>dumps(j)\<close>, \<open>dumps(j, separators=(",", ":"))\<close> and the canonical form, which also sorts.
\<close>

definition dumps :: "json \<Rightarrow> pystr" where
  "dumps j = dumps_with [44, 32] [58, 32] j"

definition dumps_compact :: "json \<Rightarrow> pystr" where
  "dumps_compact j = dumps_with [44] [58] j"

definition dumps_canonical :: "json \<Rightarrow> pystr" where
  "dumps_canonical j = dumps_with [44] [58] (sort_keys j)"

section \<open>Parsing\<close>

definition is_ws :: "nat \<Rightarrow> bool" where
  "is_ws c \<longleftrightarrow> c = 32 \<or> c = 9 \<or> c = 10 \<or> c = 13"

definition skip_ws :: "pystr \<Rightarrow> pystr" where
  "skip_ws s = dropWhile is_ws s"

definition hex_value :: "nat \<Rightarrow> nat option" where
  "hex_value c =
     (if is_digit c then Some (c - 48)
      else if 97 \<le> c \<and> c \<le> 102 then Some (c - 87)
      else if 65 \<le> c \<and> c \<le> 70 then Some (c - 55)
      else None)"

definition parse_hex4 :: "pystr \<Rightarrow> nat option" where
  "parse_hex4 s =
     (case s of
        [a, b, c, d] \<Rightarrow>
          (case (hex_value a, hex_value b, hex_value c, hex_value d) of
             (Some a, Some b, Some c, Some d) \<Rightarrow> Some (((a * 16 + b) * 16 + c) * 16 + d)
           | _ \<Rightarrow> None)
      | _ \<Rightarrow> None)"

definition unescape :: "nat \<Rightarrow> nat option" where
  "unescape e =
     (if e = 34 then Some 34 else if e = 92 then Some 92 else if e = 47 then Some 47
      else if e = 98 then Some 8 else if e = 102 then Some 12 else if e = 110 then Some 10
      else if e = 114 then Some 13 else if e = 116 then Some 9 else None)"

text \<open>A low surrogate written as an escape at the head of the input.\<close>

definition low_escape :: "pystr \<Rightarrow> nat option" where
  "low_escape s =
     (if starts_with s [92, 117]
      then (case parse_hex4 (take 4 (drop 2 s)) of
              Some m \<Rightarrow> if 0xDC00 \<le> m \<and> m \<le> 0xDFFF then Some m else None
            | None \<Rightarrow> None)
      else None)"

definition cons_fst :: "nat \<Rightarrow> (pystr \<times> pystr) option \<Rightarrow> (pystr \<times> pystr) option" where
  "cons_fst c r = map_option (\<lambda>(s, rest). (c # s, rest)) r"

text \<open>The characters of a string after its opening quote, and the input after its closing one.\<close>

function parse_str :: "pystr \<Rightarrow> (pystr \<times> pystr) option" where
  "parse_str s =
     (case s of
        [] \<Rightarrow> None
      | c # cs \<Rightarrow>
          if c = 34 then Some ([], cs)
          else if c = 92 then
            (case cs of
               [] \<Rightarrow> None
             | e # r \<Rightarrow>
                 if e = 117 then
                   (case parse_hex4 (take 4 r) of
                      None \<Rightarrow> None
                    | Some n \<Rightarrow>
                        (case (if 0xD800 \<le> n \<and> n \<le> 0xDBFF then low_escape (drop 4 r) else None) of
                           Some m \<Rightarrow> cons_fst (0x10000 + (n - 0xD800) * 1024 + (m - 0xDC00))
                                       (parse_str (drop 10 r))
                         | None \<Rightarrow> cons_fst n (parse_str (drop 4 r))))
                 else (case unescape e of
                         None \<Rightarrow> None
                       | Some x \<Rightarrow> cons_fst x (parse_str r)))
          else if c < 32 then None
          else cons_fst c (parse_str cs))"
  by pat_completeness auto
termination
  by (relation "measure length") auto

declare parse_str.simps [simp del]

text \<open>A number: the integer part, then a fraction and an exponent if they are complete.\<close>

definition int_part :: "pystr \<Rightarrow> pystr" where
  "int_part s = (if s \<noteq> [] \<and> hd s = 48 then [48] else takeWhile is_digit s)"

definition frac_part :: "pystr \<Rightarrow> pystr" where
  "frac_part s =
     (if s \<noteq> [] \<and> hd s = 46 \<and> takeWhile is_digit (tl s) \<noteq> []
      then 46 # takeWhile is_digit (tl s) else [])"

definition exp_part :: "pystr \<Rightarrow> pystr" where
  "exp_part s =
     (if s \<noteq> [] \<and> (hd s = 101 \<or> hd s = 69)
      then (let sign = (case tl s of c # _ \<Rightarrow> if c = 43 \<or> c = 45 then [c] else [] | [] \<Rightarrow> []);
                ds = takeWhile is_digit (drop (length sign) (tl s))
            in if ds = [] then [] else hd s # sign @ ds)
      else [])"

definition number_from :: "pystr \<Rightarrow> pystr \<Rightarrow> (json \<times> pystr) option" where
  "number_from sign s =
     (let ip = int_part s;
          s2 = drop (length ip) s;
          fp = frac_part s2;
          s3 = drop (length fp) s2;
          ep = exp_part s3;
          rest = drop (length ep) s3
      in if ip = [] then None
         else if fp = [] \<and> ep = []
           then map_option (\<lambda>n. (JInt (if sign = [] then int n else - int n), rest)) (parse_nat ip)
         else Some (JFloat (sign @ ip @ fp @ ep), rest))"

definition parse_number :: "pystr \<Rightarrow> (json \<times> pystr) option" where
  "parse_number s =
     (if s \<noteq> [] \<and> hd s = 45 then number_from [45] (tl s) else number_from [] s)"

text \<open>Values, the elements of a list and the items of an object, after their opening bracket.\<close>

fun parse_val :: "nat \<Rightarrow> pystr \<Rightarrow> (json \<times> pystr) option"
and parse_arr :: "nat \<Rightarrow> json list \<Rightarrow> pystr \<Rightarrow> (json list \<times> pystr) option"
and parse_obj :: "nat \<Rightarrow> dict \<Rightarrow> pystr \<Rightarrow> (dict \<times> pystr) option" where
  "parse_val 0 s = None"
| "parse_val (Suc n) [] = None"
| "parse_val (Suc n) (c # cs) =
     (if c = 34 then map_option (map_prod JStr id) (parse_str cs)
      else if c = 123 then
        (case skip_ws cs of
           [] \<Rightarrow> None
         | d # r \<Rightarrow> if d = 125 then Some (JObj [], r)
                    else map_option (map_prod (JObj \<circ> dict_of \<circ> rev) id) (parse_obj n [] (d # r)))
      else if c = 91 then
        (case skip_ws cs of
           [] \<Rightarrow> None
         | d # r \<Rightarrow> if d = 93 then Some (JArr [], r)
                    else map_option (map_prod (JArr \<circ> rev) id) (parse_arr n [] (d # r)))
      else if starts_with (c # cs) (lit ''null'') then Some (JNull, drop 3 cs)
      else if starts_with (c # cs) (lit ''true'') then Some (JBool True, drop 3 cs)
      else if starts_with (c # cs) (lit ''false'') then Some (JBool False, drop 4 cs)
      else if starts_with (c # cs) (lit ''NaN'') then Some (JFloat (lit ''NaN''), drop 2 cs)
      else if starts_with (c # cs) (lit ''Infinity'')
        then Some (JFloat (lit ''Infinity''), drop 7 cs)
      else if starts_with (c # cs) (lit ''-Infinity'')
        then Some (JFloat (lit ''-Infinity''), drop 8 cs)
      else parse_number (c # cs))"
| "parse_arr 0 acc s = None"
| "parse_arr (Suc n) acc s =
     (case parse_val n s of
        None \<Rightarrow> None
      | Some (v, r) \<Rightarrow>
          (case skip_ws r of
             [] \<Rightarrow> None
           | d # r' \<Rightarrow> if d = 93 then Some (v # acc, r')
                       else if d = 44 then parse_arr n (v # acc) (skip_ws r')
                       else None))"
| "parse_obj 0 acc s = None"
| "parse_obj (Suc n) acc [] = None"
| "parse_obj (Suc n) acc (c # cs) =
     (if c \<noteq> 34 then None
      else case parse_str cs of
        None \<Rightarrow> None
      | Some (k, r) \<Rightarrow>
          (case skip_ws r of
             [] \<Rightarrow> None
           | d # r' \<Rightarrow>
               if d \<noteq> 58 then None
               else (case parse_val n (skip_ws r') of
                       None \<Rightarrow> None
                     | Some (v, r2) \<Rightarrow>
                         (case skip_ws r2 of
                            [] \<Rightarrow> None
                          | e # r3 \<Rightarrow> if e = 125 then Some ((k, v) # acc, r3)
                                      else if e = 44 then parse_obj n ((k, v) # acc) (skip_ws r3)
                                      else None))))"

text \<open>\<open>json.loads(s)\<close>; None is the JSONDecodeError.\<close>

definition loads :: "pystr \<Rightarrow> json option" where
  "loads s =
     (case parse_val (2 * length s + 2) (skip_ws s) of
        None \<Rightarrow> None
      | Some (j, r) \<Rightarrow> if skip_ws r = [] then Some j else None)"

text \<open>\<open>json.loads(b.decode())\<close>: None when the bytes are not UTF-8 or not JSON.\<close>

definition loads_bytes :: "bytes \<Rightarrow> json option" where
  "loads_bytes b = Option.bind (utf8_decode b) loads"

text \<open>The bytes of an ASCII string.\<close>

definition encode_ascii :: "pystr \<Rightarrow> bytes" where
  "encode_ascii s = map char_of s"


section \<open>What is printed is read back\<close>

lemma hex_value_digit: "d < 16 \<Longrightarrow> hex_value (hex_digit d) = Some d"
  by (auto simp: hex_value_def hex_digit_def is_digit_def)

lemma hex4_split:
  fixes n :: nat
  assumes "n < 65536"
  shows "((n div 4096 * 16 + n div 256 mod 16) * 16 + n div 16 mod 16) * 16 + n mod 16 = n"
proof -
  have "n div 4096 = n div 256 div 16" "n div 256 = n div 16 div 16"
    using div_mult2_eq [of n 256 16] div_mult2_eq [of n 16 16] by simp_all
  then show ?thesis by (metis div_mult_mod_eq)
qed

lemma parse_hex4_hex4: "n < 65536 \<Longrightarrow> parse_hex4 (hex4 n) = Some n"
  using hex4_split [of n]
  by (simp add: parse_hex4_def hex4_def hex_value_digit less_mult_imp_div_less)

lemma length_hex4 [simp]: "length (hex4 n) = 4"
  by (simp add: hex4_def)

lemma parse_str_u:
  assumes "n < 65536" "\<not> (0xD800 \<le> n \<and> n \<le> 0xDBFF)"
  shows "parse_str (92 # 117 # hex4 n @ r) = cons_fst n (parse_str r)"
  using assms by (subst parse_str.simps) (auto simp: parse_hex4_hex4)

lemma parse_str_pair:
  assumes "0xD800 \<le> n" "n \<le> 0xDBFF" "0xDC00 \<le> m" "m \<le> 0xDFFF"
  shows "parse_str (92 # 117 # hex4 n @ 92 # 117 # hex4 m @ r) =
         cons_fst (0x10000 + (n - 0xD800) * 1024 + (m - 0xDC00)) (parse_str r)"
proof -
  have "low_escape (92 # 117 # hex4 m @ r) = Some m"
    using assms by (simp add: low_escape_def parse_hex4_hex4)
  then show ?thesis
    using assms by (subst parse_str.simps) (simp add: parse_hex4_hex4)
qed

lemma parse_str_short:
  "unescape e = Some x \<Longrightarrow> parse_str (92 # e # r) = cons_fst x (parse_str r)"
  by (subst parse_str.simps) (auto simp: unescape_def split: if_splits)

lemma parse_str_plain:
  "32 \<le> c \<Longrightarrow> c \<noteq> 34 \<Longrightarrow> c \<noteq> 92 \<Longrightarrow> parse_str (c # r) = cons_fst c (parse_str r)"
  by (subst parse_str.simps) simp

lemma parse_str_escape:
  assumes "is_scalar c"
  shows "parse_str (escape_char c @ r) = cons_fst c (parse_str r)"
proof -
  consider "c \<in> {34, 92, 10, 13, 9, 12, 8}"
    | "c \<notin> {34, 92}" "32 \<le> c" "c \<le> 126"
    | "c \<notin> {34, 92, 10, 13, 9, 12, 8}" "c < 32 \<or> 126 < c" "c < 0x10000"
    | "0x10000 \<le> c" by force
  then show ?thesis
  proof cases
    case 1
    then show ?thesis by (auto simp: escape_char_def parse_str_short unescape_def)
  next
    case 2
    then show ?thesis by (simp add: escape_char_def parse_str_plain)
  next
    case 3
    have "\<not> (0xD800 \<le> c \<and> c \<le> 0xDBFF)"
      using assms by (auto simp: is_scalar_def is_surrogate_def)
    then have "parse_str (92 # 117 # hex4 c @ r) = cons_fst c (parse_str r)"
      using 3 by (intro parse_str_u) auto
    moreover have "escape_char c = [92, 117] @ hex4 c"
      using 3 by (auto simp: escape_char_def)
    ultimately show ?thesis by simp
  next
    case 4
    let ?n = "0xD800 + (c - 0x10000) div 1024" and ?m = "0xDC00 + (c - 0x10000) mod 1024"
    have c: "c < 0x110000" using assms by (simp add: is_scalar_def)
    have "(c - 0x10000) div 1024 < 1024" using c by (simp add: less_mult_imp_div_less)
    then have "parse_str (92 # 117 # hex4 ?n @ 92 # 117 # hex4 ?m @ r) =
        cons_fst (0x10000 + (?n - 0xD800) * 1024 + (?m - 0xDC00)) (parse_str r)"
      by (intro parse_str_pair) simp_all
    moreover have "0x10000 + (?n - 0xD800) * 1024 + (?m - 0xDC00) = c"
      using 4 by simp
    ultimately show ?thesis using 4 by (simp add: escape_char_def)
  qed
qed

lemma parse_str_quote:
  "list_all is_scalar s \<Longrightarrow> parse_str (concat (map escape_char s) @ 34 # r) = Some (s, r)"
  by (induction s) (auto simp: parse_str_escape cons_fst_def parse_str.simps [of "34 # _"])

lemma digits_hd: "0 < n \<Longrightarrow> hd (digits n) \<noteq> 0"
proof (induction n rule: digits.induct)
  case (1 n)
  show ?case
  proof (cases "n < 10")
    case False
    then have "0 < n div 10" by simp
    with 1 False show ?thesis by (subst digits.simps) simp
  qed (use 1 in \<open>simp add: digits.simps [of n]\<close>)
qed

text \<open>What may follow a value: nothing that would extend a number.\<close>

definition ends_number :: "pystr \<Rightarrow> bool" where
  "ends_number r \<longleftrightarrow> r = [] \<or> (\<not> is_digit (hd r) \<and> hd r \<noteq> 46 \<and> hd r \<noteq> 101 \<and> hd r \<noteq> 69)"

lemma takeWhile_digits:
  "ends_number r \<Longrightarrow> takeWhile is_digit r = []"
  by (cases r) (auto simp: ends_number_def)

lemma show_nat_digits: "c \<in> set (show_nat n) \<Longrightarrow> is_digit c"
  by (auto simp: is_digit_def dest: show_nat_bounds)

lemma int_part_show:
  assumes "ends_number r"
  shows "int_part (show_nat n @ r) = show_nat n"
proof (cases "n = 0")
  case True
  then show ?thesis by (simp add: int_part_def show_nat_def digits.simps)
next
  case False
  then have "hd (show_nat n) \<noteq> 48" by (simp add: digits_hd show_nat_def hd_map)
  moreover have "show_nat n \<noteq> []" by (simp add: show_nat_def)
  ultimately show ?thesis
    using assms by (simp add: int_part_def takeWhile_digits show_nat_digits)
qed

lemma no_fraction:
  "ends_number r \<Longrightarrow> frac_part r = []" "ends_number r \<Longrightarrow> exp_part r = []"
  by (auto simp: frac_part_def exp_part_def ends_number_def)

lemma number_from_show:
  assumes "ends_number r"
  shows "number_from sign (show_nat n @ r) =
         Some (JInt (if sign = [] then int n else - int n), r)"
  unfolding number_from_def Let_def
  by (simp add: int_part_show [OF assms] no_fraction [OF assms]) (simp add: show_nat_def)

lemma parse_number_show:
  assumes "ends_number r"
  shows "parse_number (show_int i @ r) = Some (JInt i, r)"
proof (cases "i < 0")
  case True
  then show ?thesis by (simp add: parse_number_def show_int_def number_from_show [OF assms])
next
  case False
  obtain c cs where c: "show_nat (nat i) = c # cs" "48 \<le> c" by (rule show_nat_Cons)
  then have "hd (show_nat (nat i) @ r) \<noteq> 45" by simp
  then show ?thesis
    using False by (simp add: parse_number_def show_int_def number_from_show [OF assms])
qed

end
