(* ===== verification/JsonFacts.thy ===== *)
theory JsonFacts
  imports PyJson
begin

text \<open>
  What the \<open>json\<close> module promises the services: a value that is printed is read back,
  from text and from bytes, in both separator styles; the printed text is ASCII; and the
  canonical text determines the value up to the order of the keys.
\<close>

section \<open>Well-formed values\<close>

text \<open>
  The values the round trip is about: text without surrogates, no duplicate keys, no floats
  (no record the services write carries one).
\<close>

primrec wf_json :: "json \<Rightarrow> bool" where
  "wf_json JNull = True"
| "wf_json (JBool b) = True"
| "wf_json (JInt i) = True"
| "wf_json (JFloat f) = False"
| "wf_json (JStr s) = list_all is_scalar s"
| "wf_json (JArr xs) = list_all id (map wf_json xs)"
| "wf_json (JObj kvs) =
     (distinct (map fst kvs) \<and> list_all (\<lambda>(k, b). list_all is_scalar k \<and> b)
        (map (map_prod id wf_json) kvs))"

definition blank :: "pystr \<Rightarrow> bool" where
  "blank p \<longleftrightarrow> list_all is_ws p"

definition value_start :: "nat \<Rightarrow> bool" where
  "value_start c \<longleftrightarrow> \<not> is_ws c \<and> c \<noteq> 93 \<and> c \<noteq> 125"

lemma dumps_start: "wf_json j \<Longrightarrow> \<exists>c cs. dumps_with i k j = c # cs \<and> value_start c"
proof (cases j)
  case (JInt n)
  obtain c cs where "show_nat (nat n) = c # cs" "48 \<le> c" "c \<le> 57" by (rule show_nat_Cons)
  with JInt show ?thesis by (auto simp: show_int_def value_start_def is_ws_def)
qed (auto simp: lit_def quote_def value_start_def is_ws_def)

lemma skip_ws_start: "value_start c \<Longrightarrow> skip_ws (c # cs) = c # cs"
  by (simp add: skip_ws_def value_start_def)

lemma skip_ws_dumps: "wf_json j \<Longrightarrow> skip_ws (dumps_with i k j @ r) = dumps_with i k j @ r"
  using dumps_start [of j i k] by (auto simp: skip_ws_start)

lemma skip_ws_punct [simp]:
  "skip_ws (44 # s) = 44 # s" "skip_ws (58 # s) = 58 # s" "skip_ws (93 # s) = 93 # s"
  "skip_ws (125 # s) = 125 # s" "skip_ws (34 # s) = 34 # s" "skip_ws (32 # s) = skip_ws s"
  "skip_ws [] = []"
  by (simp_all add: skip_ws_def is_ws_def)

lemma ends_number_punct [simp]:
  "ends_number (44 # s)" "ends_number (93 # s)" "ends_number (125 # s)" "ends_number []"
  by (simp_all add: ends_number_def is_digit_def)

lemma skip_blank: "blank p \<Longrightarrow> skip_ws (p @ s) = skip_ws s"
  by (induction p) (auto simp: blank_def skip_ws_def)

abbreviation "printed p q j \<equiv> dumps_with (44 # p) (58 # q) j"

definition reads_back :: "pystr \<Rightarrow> pystr \<Rightarrow> json \<Rightarrow> bool" where
  "reads_back p q j \<longleftrightarrow>
     (\<forall>f r. ends_number r \<longrightarrow> 2 * length (printed p q j) < f \<longrightarrow>
        parse_val f (printed p q j @ r) = Some (j, r))"

lemma reads_backD:
  "reads_back p q j \<Longrightarrow> ends_number r \<Longrightarrow> 2 * length (printed p q j) < f \<Longrightarrow>
   parse_val f (printed p q j @ r) = Some (j, r)"
  by (simp add: reads_back_def)

lemma parse_arr_join:
  assumes "blank p"
  shows "xs \<noteq> [] \<Longrightarrow> \<forall>x \<in> set xs. wf_json x \<and> reads_back p q x \<Longrightarrow>
    2 * length (join (44 # p) (map (printed p q) xs)) + 1 < f \<Longrightarrow>
    parse_arr f acc (join (44 # p) (map (printed p q) xs) @ 93 # r) = Some (rev xs @ acc, r)"
proof (induction xs arbitrary: f acc)
  case (Cons x xs)
  obtain n where f: "f = Suc n" using Cons.prems(3) by (cases f) auto
  show ?case
  proof (cases xs)
    case Nil
    with Cons.prems f show ?thesis by (simp add: reads_backD)
  next
    case xs: (Cons y ys)
    let ?rest = "join (44 # p) (map (printed p q) xs) @ 93 # r"
    have "parse_val n (printed p q x @ 44 # p @ ?rest) = Some (x, 44 # p @ ?rest)"
      using Cons.prems f xs by (intro reads_backD) auto
    moreover have "skip_ws (p @ ?rest) = ?rest"
      using Cons.prems(2) xs dumps_start [of y "44 # p" "58 # q"]
      by (cases ys) (auto simp: skip_blank [OF assms] skip_ws_start)
    moreover have "parse_arr n (x # acc) ?rest = Some (rev xs @ x # acc, r)"
      using Cons.prems xs f by (intro Cons.IH) auto
    ultimately show ?thesis using f xs by simp
  qed
qed simp

abbreviation "item p q \<equiv> (\<lambda>(k, v). quote k @ 58 # q @ printed p q v)"

lemma parse_obj_join:
  assumes "blank p" "blank q"
  shows "kvs \<noteq> [] \<Longrightarrow>
    \<forall>(k, v) \<in> set kvs. list_all is_scalar k \<and> wf_json v \<and> reads_back p q v \<Longrightarrow>
    2 * length (join (44 # p) (map (item p q) kvs)) + 1 < f \<Longrightarrow>
    parse_obj f acc (join (44 # p) (map (item p q) kvs) @ 125 # r) = Some (rev kvs @ acc, r)"
proof (induction kvs arbitrary: f acc)
  case (Cons kv kvs)
  obtain n where f: "f = Suc n" using Cons.prems(3) by (cases f) auto
  obtain k v where kv: "kv = (k, v)" by force
  have wf: "list_all is_scalar k" "wf_json v" "reads_back p q v" using Cons.prems(2) kv by auto
  have key: "parse_str (concat (map escape_char k) @ 34 # s) = Some (k, s)" for s
    by (rule parse_str_quote [OF wf(1)])
  have skip: "skip_ws (q @ printed p q v @ s) = printed p q v @ s" for s
    by (simp add: skip_blank [OF assms(2)] skip_ws_dumps wf(2))
  show ?case
  proof (cases kvs)
    case Nil
    have "parse_val n (printed p q v @ 125 # r) = Some (v, 125 # r)"
      using Cons.prems f kv Nil wf(3) by (intro reads_backD) (auto simp: quote_def)
    then show ?thesis using f kv Nil by (simp add: quote_def key skip)
  next
    case xs: (Cons y ys)
    let ?rest = "join (44 # p) (map (item p q) kvs) @ 125 # r"
    have "parse_val n (printed p q v @ 44 # p @ ?rest) = Some (v, 44 # p @ ?rest)"
      using Cons.prems f kv xs wf(3) by (intro reads_backD) (auto simp: quote_def)
    moreover have "skip_ws (p @ ?rest) = ?rest"
      using xs by (cases y; cases ys) (auto simp: skip_blank [OF assms(1)] quote_def)
    moreover have "parse_obj n ((k, v) # acc) ?rest = Some (rev kvs @ (k, v) # acc, r)"
      using Cons.prems kv xs f by (intro Cons.IH) (auto simp: quote_def)
    ultimately show ?thesis using f kv xs by (simp add: quote_def key skip)
  qed
qed simp

lemma reads_backI:
  "(\<And>n r. ends_number r \<Longrightarrow> 2 * length (printed p q j) \<le> n \<Longrightarrow>
     parse_val (Suc n) (printed p q j @ r) = Some (j, r)) \<Longrightarrow> reads_back p q j"
  by (auto simp: reads_back_def gr0_conv_Suc dest!: less_imp_Suc_add)

lemma join_map_start:
  assumes "xs \<noteq> []" "\<And>x. x \<in> set xs \<Longrightarrow> \<exists>c cs. f x = c # cs \<and> P c"
  obtains c cs where "join s (map f xs) = c # cs" "P c"
proof -
  obtain y ys where xs: "xs = y # ys" using assms(1) by (cases xs) auto
  moreover obtain c cs where "f y = c # cs" "P c" using assms(2) [of y] xs by auto
  ultimately show ?thesis using that by (cases ys) auto
qed

lemma parse_val_number:
  assumes "ends_number r"
  shows "parse_val (Suc n) (show_int i @ r) = Some (JInt i, r)"
proof (cases "i < 0")
  case True
  obtain c cs where c: "show_nat (nat (- i)) = c # cs" "48 \<le> c" "c \<le> 57" by (rule show_nat_Cons)
  then have "show_int i @ r = 45 # c # cs @ r" using True by (simp add: show_int_def)
  moreover have "parse_number (show_int i @ r) = Some (JInt i, r)"
    by (rule parse_number_show [OF assms])
  ultimately show ?thesis using c by (simp add: lit_def)
next
  case False
  obtain c cs where c: "show_nat (nat i) = c # cs" "48 \<le> c" "c \<le> 57" by (rule show_nat_Cons)
  then have "show_int i @ r = c # cs @ r" using False by (simp add: show_int_def)
  moreover have "parse_number (show_int i @ r) = Some (JInt i, r)"
    by (rule parse_number_show [OF assms])
  ultimately show ?thesis using c by (simp add: lit_def)
qed

lemma printed_reads_back:
  assumes "blank p" "blank q"
  shows "wf_json j \<Longrightarrow> reads_back p q j"
proof (induction j)
  case (JInt i)
  show ?case by (rule reads_backI) (simp add: parse_val_number)
next
  case (JStr s)
  then show ?case by (intro reads_backI) (simp add: quote_def parse_str_quote)
next
  case (JArr xs)
  have xs: "\<forall>x \<in> set xs. wf_json x \<and> reads_back p q x"
    using JArr by (auto simp: list_all_iff)
  show ?case
  proof (rule reads_backI)
    fix n r assume n: "2 * length (printed p q (JArr xs)) \<le> n"
    show "parse_val (Suc n) (printed p q (JArr xs) @ r) = Some (JArr xs, r)"
    proof (cases "xs = []")
      case False
      then obtain c cs where c: "join (44 # p) (map (printed p q) xs) = c # cs" "value_start c"
        using join_map_start [of xs "printed p q" value_start "44 # p"] xs dumps_start by metis
      have "parse_arr n [] (join (44 # p) (map (printed p q) xs) @ 93 # r) = Some (rev xs @ [], r)"
        using n False xs by (intro parse_arr_join [OF assms(1)]) auto
      then show ?thesis using c by (simp add: skip_ws_start) (simp add: value_start_def)
    qed simp
  qed
next
  case (JObj kvs)
  have kvs: "\<forall>(k, v) \<in> set kvs. list_all is_scalar k \<and> wf_json v \<and> reads_back p q v"
    using JObj by (fastforce simp: list_all_iff)
  have d: "distinct (map fst kvs)" using JObj.prems by simp
  have shape: "printed p q (JObj kvs) = 123 # join (44 # p) (map (item p q) kvs) @ [125]"
    by (simp add: comp_def case_prod_unfold)
  show ?case
  proof (rule reads_backI)
    fix n r assume n: "2 * length (printed p q (JObj kvs)) \<le> n"
    show "parse_val (Suc n) (printed p q (JObj kvs) @ r) = Some (JObj kvs, r)"
    proof (cases "kvs = []")
      case False
      then obtain c cs where c: "join (44 # p) (map (item p q) kvs) = c # cs" "c = 34"
        by (rule join_map_start [of kvs "item p q" "\<lambda>c. c = 34" "44 # p"]) (auto simp: quote_def)
      have "parse_obj n [] (join (44 # p) (map (item p q) kvs) @ 125 # r) = Some (rev kvs @ [], r)"
        using n False kvs unfolding shape by (intro parse_obj_join [OF assms]) auto
      then show ?thesis using c d unfolding shape by simp
    qed simp
  qed
qed (rule reads_backI; simp add: lit_def)+

lemma loads_printed:
  assumes "blank p" "blank q" "wf_json j"
  shows "loads (printed p q j) = Some j"
proof -
  have "parse_val (2 * length (printed p q j) + 2) (printed p q j @ []) = Some (j, [])"
    using printed_reads_back [OF assms] by (rule reads_backD) simp_all
  moreover have "skip_ws (printed p q j) = printed p q j"
    using skip_ws_dumps [OF assms(3), of "44 # p" "58 # q" "[]"] by simp
  ultimately show ?thesis by (simp add: loads_def)
qed

lemma loads_dumps: "wf_json j \<Longrightarrow> loads (dumps j) = Some j"
  using loads_printed [of "[32]" "[32]"] by (simp add: dumps_def blank_def is_ws_def)

lemma loads_compact: "wf_json j \<Longrightarrow> loads (dumps_compact j) = Some j"
  using loads_printed [of "[]" "[]"] by (simp add: dumps_compact_def blank_def)


section \<open>The printed bytes\<close>

lemma hex_digit_ascii: "d < 16 \<Longrightarrow> hex_digit d < 128"
  by (auto simp: hex_digit_def)

lemma hex4_ascii: "n < 65536 \<Longrightarrow> c \<in> set (hex4 n) \<Longrightarrow> c < 128"
  by (auto simp: hex4_def less_mult_imp_div_less intro!: hex_digit_ascii)

lemma escape_ascii:
  assumes "c < 0x110000" "d \<in> set (escape_char c)"
  shows "d < 128"
proof (cases "c < 0x10000")
  case False
  have "(c - 0x10000) div 1024 < 1024" using assms(1) by (simp add: less_mult_imp_div_less)
  then have n: "0xD800 + (c - 0x10000) div 1024 < 65536" "0xDC00 + (c - 0x10000) mod 1024 < 65536"
    by (simp, simp add: trans_less_add1 [OF mod_less_divisor, simplified])
  show ?thesis using assms(2) False hex4_ascii [OF n(1)] hex4_ascii [OF n(2)]
    by (auto simp: escape_char_def)
qed (use assms in \<open>auto simp: escape_char_def dest: hex4_ascii split: if_splits\<close>)

lemma quote_ascii: "list_all is_scalar s \<Longrightarrow> c \<in> set (quote s) \<Longrightarrow> c < 128"
  by (auto simp: quote_def list_all_iff is_scalar_def dest: escape_ascii)

lemma set_join: "set (join s xs) \<subseteq> set s \<union> \<Union> (set ` set xs)"
  by (induction s xs rule: join.induct) auto

lemma printed_ascii:
  assumes "\<forall>c \<in> set i. c < 128" "\<forall>c \<in> set k. c < 128"
  shows "wf_json j \<Longrightarrow> c \<in> set (dumps_with i k j) \<Longrightarrow> c < 128"
proof (induction j)
  case (JArr xs)
  then show ?case
    using set_join [of i "map (dumps_with i k) xs"] assms(1) by (fastforce simp: list_all_iff)
next
  case (JObj kvs)
  have "c \<in> {123, 125} \<or> c \<in> set i \<or> (\<exists>(x, v) \<in> set kvs. c \<in> set (quote x) \<union> set k \<union> set (dumps_with i k v))"
    using JObj.prems set_join [of i "map ((\<lambda>(x, t). quote x @ k @ t) \<circ> map_prod id (dumps_with i k)) kvs"]
    by fastforce
  then show ?case
    using JObj assms quote_ascii by (fastforce simp: list_all_iff)
qed (auto simp: lit_def quote_ascii dest: show_int_ascii split: if_splits)

lemma utf8_ascii: "\<forall>c \<in> set s. c < 128 \<Longrightarrow> utf8_encode s = Some (encode_ascii s)"
proof (induction s)
  case (Cons c s)
  then have "utf8_encode s = Some (encode_ascii s)" by simp
  with Cons.prems show ?case
    by (auto simp: utf8_encode_def encode_ascii_def is_scalar_def is_surrogate_def utf8_point_def
        split: if_splits)
qed (simp add: utf8_encode_def encode_ascii_def)

lemma loads_bytes_printed:
  assumes "blank p" "blank q" "wf_json j"
  shows "loads_bytes (encode_ascii (printed p q j)) = Some j"
proof -
  have b: "\<forall>c \<in> set x. c < 128" if "blank x" for x
    using that by (auto simp: blank_def list_all_iff is_ws_def)
  have "\<forall>c \<in> set (printed p q j). c < 128"
    using printed_ascii [of "44 # p" "58 # q" j] assms b by auto
  then have "utf8_encode (printed p q j) = Some (encode_ascii (printed p q j))"
    by (rule utf8_ascii)
  then show ?thesis
    by (simp add: loads_bytes_def utf8_roundtrip loads_printed [OF assms])
qed

lemma loads_bytes_compact: "wf_json j \<Longrightarrow> loads_bytes (encode_ascii (dumps_compact j)) = Some j"
  using loads_bytes_printed [of "[]" "[]"] by (simp add: dumps_compact_def blank_def)

lemma compact_utf8: "wf_json j \<Longrightarrow> utf8_encode (dumps_compact j) = Some (encode_ascii (dumps_compact j))"
  using printed_ascii [of "[44]" "[58]" j] by (auto simp: dumps_compact_def intro!: utf8_ascii)

section \<open>The canonical form\<close>

lemma map_fst_map_prod [simp]: "map fst (map (map_prod id f) xs) = map fst xs"
  by (induction xs) auto

lemma distinct_sort_key: "distinct (map g (sort_key f kvs)) = distinct (map g kvs)"
  by (simp add: distinct_map)

lemma wf_sort_keys: "wf_json j \<Longrightarrow> wf_json (sort_keys j)"
proof (induction j)
  case (JObj kvs)
  have "distinct (map fst (sort_key fst (map (map_prod id sort_keys) kvs)))"
    using JObj.prems by (simp add: distinct_sort_key del: map_map)
  moreover have "list_all is_scalar k \<and> wf_json (sort_keys v)" if "(k, v) \<in> set kvs" for k v
    using JObj that by (fastforce simp: list_all_iff)
  ultimately show ?case by (auto simp: list_all_iff)
qed (auto simp: list_all_iff)

text \<open>The canonical text determines the value up to the order of the keys.\<close>

lemma loads_canonical: "wf_json j \<Longrightarrow> loads (dumps_canonical j) = Some (sort_keys j)"
  using loads_printed [of "[]" "[]" "sort_keys j"]
  by (simp add: dumps_canonical_def blank_def wf_sort_keys)

lemma dumps_canonical_inj:
  assumes "wf_json a" "wf_json b" "dumps_canonical a = dumps_canonical b"
  shows "sort_keys a = sort_keys b"
  using loads_canonical [OF assms(1)] loads_canonical [OF assms(2)] assms(3) by simp

lemma map_of_sort_key:
  "distinct (map fst kvs) \<Longrightarrow> map_of (sort_key fst kvs) = map_of kvs"
  by (simp add: map_of_inject_set distinct_sort_key)

end
