(* ===== verification/Provenance.thy ===== *)
theory Provenance
  imports JsonFacts
begin

text \<open>
  \<open>provenance/\<close>: the canonical bytes of a record and of an anchored ledger state, the
  writer's signature over them and its check. The ECDSA library and the SHA-256 function are
  parameters (a \<open>crypto\<close> record); what the code relies on in them is \<open>crypto_ok\<close>.
  The locale \<open>canonical_form\<close> is the contract the signer and every checker share:
  \<open>provenance/record_signature.py\<close> and the offline checker's own copy of the rule are
  its two interpretations.
\<close>

section \<open>The cryptographic library\<close>

record ('sk, 'vk) crypto =
  sign_deterministic :: "'sk \<Rightarrow> bytes \<Rightarrow> bytes"
  ec_verify :: "'vk \<Rightarrow> bytes \<Rightarrow> bytes \<Rightarrow> bool"
  verifying_key_of :: "'sk \<Rightarrow> 'vk"
  to_der :: "'vk \<Rightarrow> bytes"
  sha256 :: "bytes \<Rightarrow> bytes"

text \<open>
  Documented behaviour: a signature made by a key verifies under its public half and is not
  empty, and a SHA-256 digest has 32 bytes.
\<close>

definition crypto_ok :: "('sk, 'vk) crypto \<Rightarrow> bool" where
  "crypto_ok C \<longleftrightarrow>
     (\<forall>sk m. ec_verify C (verifying_key_of C sk) (sign_deterministic C sk m) m
            \<and> sign_deterministic C sk m \<noteq> []) \<and>
     (\<forall>m. length (sha256 C m) = 32)"

section \<open>Signed records\<close>

definition RECORD_SIGNATURE_FORMAT :: pystr where
  "RECORD_SIGNATURE_FORMAT = lit ''ail-record-signature/1''"

definition SIGNATURE_FIELD :: pystr where
  "SIGNATURE_FIELD = lit ''writer_signature''"

definition FINGERPRINT_FIELD :: pystr where
  "FINGERPRINT_FIELD = lit ''writer_key_fingerprint''"

definition FORMAT_FIELD :: pystr where
  "FORMAT_FIELD = lit ''writer_signature_format''"

definition key_fingerprint :: "('sk, 'vk) crypto \<Rightarrow> 'vk \<Rightarrow> pystr" where
  "key_fingerprint C vk = lit ''sha256:'' @ hexdigest (sha256 C (to_der C vk))"

definition canonical_record_bytes :: "dict \<Rightarrow> bytes" where
  "canonical_record_bytes record =
     encode_ascii (dumps_canonical (JObj (filter (\<lambda>(k, v). k \<noteq> SIGNATURE_FIELD) record)))"

definition sign_record :: "('sk, 'vk) crypto \<Rightarrow> dict \<Rightarrow> 'sk \<Rightarrow> 'vk \<Rightarrow> dict" where
  "sign_record C record sk vk =
     (let signed = record;
          signed = dict_set signed FORMAT_FIELD (JStr RECORD_SIGNATURE_FORMAT);
          signed = dict_set signed FINGERPRINT_FIELD (JStr (key_fingerprint C vk));
          signature = sign_deterministic C sk (canonical_record_bytes signed)
      in dict_set signed SIGNATURE_FIELD (JStr (b64encode signature)))"

definition verify_record :: "('sk, 'vk) crypto \<Rightarrow> dict \<Rightarrow> 'vk \<Rightarrow> bool" where
  "verify_record C record vk =
     (case dict_get record SIGNATURE_FIELD of
        Some (JStr signature_b64) \<Rightarrow>
          if signature_b64 = [] then False
          else if dict_get record FORMAT_FIELD \<noteq> Some (JStr RECORD_SIGNATURE_FORMAT) then False
          else if dict_get record FINGERPRINT_FIELD \<noteq> Some (JStr (key_fingerprint C vk)) then False
          else (case b64decode signature_b64 of
                  None \<Rightarrow> False
                | Some signature \<Rightarrow> ec_verify C vk signature (canonical_record_bytes record))
      | _ \<Rightarrow> False)"

section \<open>The canonical form as an interface\<close>

text \<open>
  What a signer and a checker rely on: the signature field does not count, the order of the
  fields does not count, and everything else does.
\<close>

locale canonical_form =
  fixes canon :: "dict \<Rightarrow> bytes"
  assumes skips_signature:
      "distinct (map fst d) \<Longrightarrow> canon (dict_set d SIGNATURE_FIELD v) = canon d"
    and order_free:
      "distinct (map fst a) \<Longrightarrow> distinct (map fst b) \<Longrightarrow> (\<And>k. dict_get a k = dict_get b k)
       \<Longrightarrow> canon a = canon b"
    and covers_fields:
      "wf_json (JObj a) \<Longrightarrow> wf_json (JObj b) \<Longrightarrow> canon a = canon b \<Longrightarrow> k \<noteq> SIGNATURE_FIELD \<Longrightarrow>
       map_option sort_keys (dict_get a k) = map_option sort_keys (dict_get b k)"
begin

text \<open>
  A checker that accepts a signature over a record that differs from the signed one in any
  field has accepted one signature for two different messages.
\<close>

lemma altered_field_is_a_forgery:
  assumes "wf_json (JObj a)" "wf_json (JObj b)" "k \<noteq> SIGNATURE_FIELD"
    and "map_option sort_keys (dict_get a k) \<noteq> map_option sort_keys (dict_get b k)"
  shows "canon a \<noteq> canon b"
  using covers_fields [OF assms(1,2) _ assms(3)] assms(4) by auto

lemma resign_same:
  assumes "distinct (map fst d)"
  shows "canon (dict_set (dict_set d SIGNATURE_FIELD v) SIGNATURE_FIELD w) = canon d"
  using assms by (simp add: skips_signature distinct_dict_set)

end

subsection \<open>The rule of both copies satisfies it\<close>

lemma map_of_filter_key: "map_of (filter (\<lambda>(k, v). k \<noteq> x) d) k = (if k = x then None else map_of d k)"
  by (induction d) auto

lemma filter_dict_set: "filter (\<lambda>(k, v). k \<noteq> x) (dict_set d x v) = filter (\<lambda>(k, v). k \<noteq> x) d"
  by (induction d x v rule: dict_set.induct) auto

lemma wf_filter: "wf_json (JObj d) \<Longrightarrow> wf_json (JObj (filter P d))"
  by (auto simp: list_all_iff distinct_map_filter)

lemma encode_ascii_inj:
  assumes "\<forall>c \<in> set s. c < 256" "\<forall>c \<in> set t. c < 256" "encode_ascii s = encode_ascii t"
  shows "s = t"
  using assms by (metis encode_ascii_def map_of_char_of)

lemma canonical_ascii: "wf_json j \<Longrightarrow> \<forall>c \<in> set (dumps_canonical j). c < 256"
  using printed_ascii [of "[44]" "[58]" "sort_keys j"] wf_sort_keys [of j]
  by (fastforce simp: dumps_canonical_def)

lemma map_of_map_prod: "map_of (map (map_prod id f) d) k = map_option f (map_of d k)"
  by (induction d) auto

lemma map_of_sorted_object:
  "distinct (map fst d) \<Longrightarrow>
   map_of (sort_key fst (map (map_prod id sort_keys) d)) k = map_option sort_keys (map_of d k)"
  by (simp only: map_of_sort_key map_fst_map_prod map_of_map_prod)

lemma map_the_map_of:
  assumes "distinct (map fst xs)"
  shows "map (\<lambda>k. (k, the (map_of xs k))) (map fst xs) = xs"
proof -
  have "(fst p, the (map_of xs (fst p))) = p" if "p \<in> set xs" for p
    using map_of_is_SomeI [OF assms, of "fst p" "snd p"] that by simp
  then have "map (\<lambda>p. (fst p, the (map_of xs (fst p)))) xs = xs" by (rule map_idI)
  then show ?thesis by (simp add: comp_def)
qed

lemma sorted_object_items:
  assumes "distinct (map fst a)" "distinct (map fst b)" "sort_keys (JObj a) = sort_keys (JObj b)"
  shows "map_option sort_keys (map_of a k) = map_option sort_keys (map_of b k)"
proof -
  have "sort_key fst (map (map_prod id sort_keys) a) = sort_key fst (map (map_prod id sort_keys) b)"
    using assms(3) by (simp only: sort_keys.simps json.inject)
  then show ?thesis
    using map_of_sorted_object [OF assms(1), of k] map_of_sorted_object [OF assms(2), of k] by simp
qed

lemma sorted_items_unique:
  fixes xs ys :: "('k::linorder \<times> 'v) list"
  assumes "sorted (map fst xs)" "sorted (map fst ys)" "distinct (map fst xs)" "distinct (map fst ys)"
    and "map_of xs = map_of ys"
  shows "xs = ys"
proof -
  have "set (map fst xs) = set (map fst ys)"
    using assms(5) by (metis dom_map_of_conv_image_fst list.set_map)
  then have "map fst xs = map fst ys"
    using assms sorted_distinct_set_unique by blast
  then show ?thesis
    using map_the_map_of [OF assms(3)] map_the_map_of [OF assms(4)] assms(5) by metis
qed

lemma sorted_object_cong:
  assumes "distinct (map fst a)" "distinct (map fst b)" "map_of a = map_of b"
  shows "sort_keys (JObj a) = sort_keys (JObj b)"
proof -
  let ?s = "\<lambda>d. sort_key fst (map (map_prod id sort_keys) d)"
  have "?s a = ?s b"
    using assms by (intro sorted_items_unique)
      (simp_all add: distinct_sort_key map_of_sorted_object fun_eq_iff del: map_map)
  then show ?thesis by simp
qed

interpretation writer: canonical_form canonical_record_bytes
proof unfold_locales
  fix d :: dict and v
  assume "distinct (map fst d)"
  show "canonical_record_bytes (dict_set d SIGNATURE_FIELD v) = canonical_record_bytes d"
    by (simp add: canonical_record_bytes_def filter_dict_set)
next
  fix a b :: dict
  assume "distinct (map fst a)" "distinct (map fst b)" "\<And>k. dict_get a k = dict_get b k"
  then have "sort_keys (JObj (filter (\<lambda>(k, v). k \<noteq> SIGNATURE_FIELD) a)) =
             sort_keys (JObj (filter (\<lambda>(k, v). k \<noteq> SIGNATURE_FIELD) b))"
    by (intro sorted_object_cong) (auto simp: distinct_map_filter dict_get_def map_of_filter_key)
  then show "canonical_record_bytes a = canonical_record_bytes b"
    by (simp only: canonical_record_bytes_def dumps_canonical_def)
next
  fix a b :: dict and k
  let ?f = "\<lambda>d. JObj (filter (\<lambda>(k, v). k \<noteq> SIGNATURE_FIELD) d)"
  assume wf: "wf_json (JObj a)" "wf_json (JObj b)"
    and eq: "canonical_record_bytes a = canonical_record_bytes b" and k: "k \<noteq> SIGNATURE_FIELD"
  have w: "wf_json (?f a)" "wf_json (?f b)" using wf by (simp_all only: wf_filter)
  have "dumps_canonical (?f a) = dumps_canonical (?f b)"
    using eq unfolding canonical_record_bytes_def
    by (rule encode_ascii_inj [OF canonical_ascii [OF w(1)] canonical_ascii [OF w(2)]])
  then have "sort_keys (?f a) = sort_keys (?f b)" by (rule dumps_canonical_inj [OF w])
  moreover have "distinct (map fst (filter (\<lambda>(k, v). k \<noteq> SIGNATURE_FIELD) a))"
    "distinct (map fst (filter (\<lambda>(k, v). k \<noteq> SIGNATURE_FIELD) b))"
    using wf by (simp_all add: distinct_map_filter)
  ultimately have "map_option sort_keys (map_of (filter (\<lambda>(k, v). k \<noteq> SIGNATURE_FIELD) a) k) =
      map_option sort_keys (map_of (filter (\<lambda>(k, v). k \<noteq> SIGNATURE_FIELD) b) k)"
    by (intro sorted_object_items)
  then show "map_option sort_keys (dict_get a k) = map_option sort_keys (dict_get b k)"
    using k by (simp add: map_of_filter_key dict_get_def)
qed

section \<open>Signing and checking\<close>

lemma signature_fields_distinct [simp]:
  "FORMAT_FIELD \<noteq> FINGERPRINT_FIELD" "FORMAT_FIELD \<noteq> SIGNATURE_FIELD"
  "FINGERPRINT_FIELD \<noteq> SIGNATURE_FIELD" "FINGERPRINT_FIELD \<noteq> FORMAT_FIELD"
  "SIGNATURE_FIELD \<noteq> FORMAT_FIELD" "SIGNATURE_FIELD \<noteq> FINGERPRINT_FIELD"
  by (simp_all add: FORMAT_FIELD_def FINGERPRINT_FIELD_def SIGNATURE_FIELD_def lit_def)

lemma b64encode_nonempty: "b \<noteq> [] \<Longrightarrow> b64encode b \<noteq> []"
  by (cases "map of_char b :: nat list" rule: b64_groups.cases) (auto simp: b64encode_def)

text \<open>The fields of a signed record: the three the signature owns, and the record's own.\<close>

lemma sign_record_fields:
  "dict_get (sign_record C record sk vk) FORMAT_FIELD = Some (JStr RECORD_SIGNATURE_FORMAT)"
  "dict_get (sign_record C record sk vk) FINGERPRINT_FIELD = Some (JStr (key_fingerprint C vk))"
  "k \<notin> {FORMAT_FIELD, FINGERPRINT_FIELD, SIGNATURE_FIELD} \<Longrightarrow>
   dict_get (sign_record C record sk vk) k = dict_get record k"
  by (simp_all add: sign_record_def Let_def)

lemma sign_record_canon:
  assumes "distinct (map fst record)"
  shows "dict_get (sign_record C record sk vk) SIGNATURE_FIELD =
         Some (JStr (b64encode (sign_deterministic C sk (canonical_record_bytes (sign_record C record sk vk)))))"
  using assms by (simp add: sign_record_def Let_def writer.skips_signature distinct_dict_set)

lemma distinct_sign_record:
  "distinct (map fst record) \<Longrightarrow> distinct (map fst (sign_record C record sk vk))"
  by (simp add: sign_record_def Let_def distinct_dict_set)

lemma ascii_scalar: "list_all (\<lambda>c. c < 128) s \<Longrightarrow> list_all is_scalar s"
  by (auto simp: list_all_iff is_scalar_def is_surrogate_def)

lemma wf_dict_set:
  "wf_json (JObj d) \<Longrightarrow> list_all is_scalar k \<Longrightarrow> wf_json v \<Longrightarrow> wf_json (JObj (dict_set d k v))"
  by (induction d k v rule: dict_set.induct) (auto simp: keys_dict_set)

lemma key_fingerprint_ascii: "list_all (\<lambda>c. c < 128) (key_fingerprint C vk)"
  using hexdigest_ascii [of _ "sha256 C (to_der C vk)"]
  by (fastforce simp: key_fingerprint_def list_all_iff lit_def)

text \<open>A signed record is still a JSON object of Unicode text.\<close>

lemma sign_record_wf:
  assumes "wf_json (JObj record)"
  shows "wf_json (JObj (sign_record C record sk vk))"
proof -
  have "list_all is_scalar k" if "k \<in> {FORMAT_FIELD, FINGERPRINT_FIELD, SIGNATURE_FIELD}" for k
    using that by (auto simp: FORMAT_FIELD_def FINGERPRINT_FIELD_def SIGNATURE_FIELD_def lit_def
        is_scalar_def is_surrogate_def)
  moreover have "wf_json (JStr RECORD_SIGNATURE_FORMAT)"
    by (simp add: RECORD_SIGNATURE_FORMAT_def lit_def is_scalar_def is_surrogate_def)
  moreover have "wf_json (JStr (key_fingerprint C vk))" "wf_json (JStr (b64encode b))" for b
    using ascii_scalar [OF key_fingerprint_ascii] ascii_scalar [OF b64encode_ascii] by simp_all
  ultimately show ?thesis
    unfolding sign_record_def Let_def by (intro wf_dict_set assms) auto
qed

text \<open>What an accepted record establishes.\<close>

lemma verify_recordD:
  assumes "verify_record C record vk"
  obtains s sig where "dict_get record SIGNATURE_FIELD = Some (JStr s)" "b64decode s = Some sig"
    "ec_verify C vk sig (canonical_record_bytes record)"
    "dict_get record FORMAT_FIELD = Some (JStr RECORD_SIGNATURE_FORMAT)"
    "dict_get record FINGERPRINT_FIELD = Some (JStr (key_fingerprint C vk))"
  using assms
  by (auto simp: verify_record_def split: option.splits json.splits if_splits)

lemma sign_verifies:
  assumes "crypto_ok C" "distinct (map fst record)"
  shows "verify_record C (sign_record C record sk (verifying_key_of C sk)) (verifying_key_of C sk)"
  using assms sign_record_canon [OF assms(2), of C sk "verifying_key_of C sk"]
  by (simp add: verify_record_def sign_record_fields crypto_ok_def b64encode_nonempty)

section \<open>The bytes of an anchored ledger state\<close>

definition ANCHOR_PAYLOAD_FORMAT :: pystr where
  "ANCHOR_PAYLOAD_FORMAT = lit ''ail-immudb-state-anchor/1''"

definition canonical_anchor_bytes :: "pystr \<Rightarrow> int \<Rightarrow> pystr \<Rightarrow> pystr \<Rightarrow> bytes" where
  "canonical_anchor_bytes db tx_id tx_hash_b64 signature_b64 =
     encode_ascii (dumps_canonical (JObj
       [(lit ''anchor_payload_format'', JStr ANCHOR_PAYLOAD_FORMAT),
        (lit ''db'', JStr db),
        (lit ''tx_id'', JInt tx_id),
        (lit ''tx_hash'', JStr tx_hash_b64),
        (lit ''signature'', JStr signature_b64)]))"

definition anchor_payload_digest ::
  "('sk, 'vk) crypto \<Rightarrow> pystr \<Rightarrow> int \<Rightarrow> pystr \<Rightarrow> pystr \<Rightarrow> bytes" where
  "anchor_payload_digest C db tx_id tx_hash_b64 signature_b64 =
     sha256 C (canonical_anchor_bytes db tx_id tx_hash_b64 signature_b64)"

lemma canonical_anchor_inj:
  assumes "list_all (list_all is_scalar) [db, h, s, db', h', s']"
    and "canonical_anchor_bytes db tx h s = canonical_anchor_bytes db' tx' h' s'"
  shows "db = db' \<and> tx = tx' \<and> h = h' \<and> s = s'"
proof -
  let ?o = "\<lambda>db tx h s. [(lit ''anchor_payload_format'', JStr ANCHOR_PAYLOAD_FORMAT),
        (lit ''db'', JStr db), (lit ''tx_id'', JInt tx), (lit ''tx_hash'', JStr h),
        (lit ''signature'', JStr s)]"
  have w: "wf_json (JObj (?o db tx h s))" "wf_json (JObj (?o db' tx' h' s'))"
    using assms(1)
    by (simp_all add: ANCHOR_PAYLOAD_FORMAT_def lit_def is_scalar_def is_surrogate_def)
  have "dumps_canonical (JObj (?o db tx h s)) = dumps_canonical (JObj (?o db' tx' h' s'))"
    using assms(2) unfolding canonical_anchor_bytes_def
    by (rule encode_ascii_inj [OF canonical_ascii [OF w(1)] canonical_ascii [OF w(2)]])
  then have eq: "sort_keys (JObj (?o db tx h s)) = sort_keys (JObj (?o db' tx' h' s'))"
    by (rule dumps_canonical_inj [OF w])
  have "map_option sort_keys (map_of (?o db tx h s) k) = map_option sort_keys (map_of (?o db' tx' h' s') k)"
    for k using w by (intro sorted_object_items eq) simp_all
  from this [of "lit ''db''"] this [of "lit ''tx_id''"] this [of "lit ''tx_hash''"]
    this [of "lit ''signature''"]
  show ?thesis by (simp add: lit_def)
qed

section \<open>Properties\<close>

text \<open>
  A library for the witnesses: a signature names its key and its message.
\<close>

definition test_crypto :: "(bytes, bytes) crypto" where
  "test_crypto = \<lparr>sign_deterministic = (\<lambda>sk m. CHR ''!'' # sk @ m),
     ec_verify = (\<lambda>vk s m. s = CHR ''!'' # vk @ m), verifying_key_of = id, to_der = id,
     sha256 = (\<lambda>m. take 32 (m @ replicate 32 CHR ''0''))\<rparr>"

lemma test_crypto_ok: "crypto_ok test_crypto"
  by (simp add: crypto_ok_def test_crypto_def min_def)

text \<open>
  C1: a record a writer signs checks out under that writer's key, whatever it held before;
  it carries the writer's fingerprint and the format of the rule it was signed under, and every
  other field is the one the caller supplied.
\<close>

theorem signed_record_verifies:
  assumes "crypto_ok C" "distinct (map fst record)"
  shows "verify_record C (sign_record C record sk (verifying_key_of C sk)) (verifying_key_of C sk) \<and>
    dict_get (sign_record C record sk (verifying_key_of C sk)) FINGERPRINT_FIELD =
      Some (JStr (key_fingerprint C (verifying_key_of C sk))) \<and>
    (\<forall>k. k \<in> {FORMAT_FIELD, FINGERPRINT_FIELD, SIGNATURE_FIELD} \<or>
      dict_get (sign_record C record sk (verifying_key_of C sk)) k = dict_get record k)"
proof (intro conjI allI)
  show "verify_record C (sign_record C record sk (verifying_key_of C sk)) (verifying_key_of C sk)"
    by (rule sign_verifies [OF assms])
  show "dict_get (sign_record C record sk (verifying_key_of C sk)) FINGERPRINT_FIELD =
      Some (JStr (key_fingerprint C (verifying_key_of C sk)))" by (rule sign_record_fields)
  show "k \<in> {FORMAT_FIELD, FINGERPRINT_FIELD, SIGNATURE_FIELD} \<or>
      dict_get (sign_record C record sk (verifying_key_of C sk)) k = dict_get record k" for k
    by (cases "k \<in> {FORMAT_FIELD, FINGERPRINT_FIELD, SIGNATURE_FIELD}") (simp_all only: sign_record_fields simp_thms)
qed

theorem signed_record_verifies_witness:
  "verify_record test_crypto (sign_record test_crypto [(lit ''a'', JInt 1)] ''k'' ''k'') ''k''"
  using signed_record_verifies [OF test_crypto_ok, of "[(lit ''a'', JInt 1)]" "''k''"]
  by (simp add: test_crypto_def)

text \<open>
  C2: altering a signed record in any field other than the signature, and having it accepted
  under the same signature, takes one signature that verifies for two different messages.
\<close>

theorem altered_record_needs_forgery:
  assumes "crypto_ok C" "wf_json (JObj (sign_record C record sk (verifying_key_of C sk)))"
    and "wf_json (JObj altered)" "k \<noteq> SIGNATURE_FIELD"
    and "map_option sort_keys (dict_get altered k) \<noteq>
         map_option sort_keys (dict_get (sign_record C record sk (verifying_key_of C sk)) k)"
    and "dict_get altered SIGNATURE_FIELD =
         dict_get (sign_record C record sk (verifying_key_of C sk)) SIGNATURE_FIELD"
    and "distinct (map fst record)" "verify_record C altered (verifying_key_of C sk)"
  shows "\<exists>sig m m'. m \<noteq> m' \<and> ec_verify C (verifying_key_of C sk) sig m \<and>
           ec_verify C (verifying_key_of C sk) sig m'"
proof -
  let ?s = "sign_record C record sk (verifying_key_of C sk)"
  let ?sig = "sign_deterministic C sk (canonical_record_bytes ?s)"
  obtain s sig where s: "dict_get altered SIGNATURE_FIELD = Some (JStr s)" "b64decode s = Some sig"
    "ec_verify C (verifying_key_of C sk) sig (canonical_record_bytes altered)"
    using assms(8) by (rule verify_recordD)
  moreover have "dict_get altered SIGNATURE_FIELD = Some (JStr (b64encode ?sig))"
    unfolding assms(6) by (rule sign_record_canon [OF assms(7)])
  ultimately have "sig = ?sig" by (metis b64_roundtrip json.inject(4) option.inject)
  then have "ec_verify C (verifying_key_of C sk) sig (canonical_record_bytes ?s)"
    using assms(1) by (simp add: crypto_ok_def)
  moreover have "canonical_record_bytes altered \<noteq> canonical_record_bytes ?s"
    by (rule writer.altered_field_is_a_forgery [OF assms(3,2,4,5)])
  ultimately show ?thesis using s(3) by blast
qed

definition weak_crypto :: "(bytes, bytes) crypto" where
  "weak_crypto = test_crypto\<lparr>ec_verify := (\<lambda>vk s m. True)\<rparr>"

theorem altered_record_needs_forgery_witness:
  "\<exists>sig m m'. m \<noteq> m' \<and> ec_verify weak_crypto ''k'' sig m \<and> ec_verify weak_crypto ''k'' sig m'"
proof -
  let ?s = "sign_record weak_crypto [(lit ''a'', JInt 1)] ''k'' (verifying_key_of weak_crypto ''k'')"
  have c: "crypto_ok weak_crypto"
    using test_crypto_ok by (simp add: crypto_ok_def weak_crypto_def)
  have d: "distinct (map fst [(lit ''a'', JInt 1)])" by simp
  have a: "list_all is_scalar (lit ''a'')" by (simp add: lit_def is_scalar_def is_surrogate_def)
  have w: "wf_json (JObj ?s)" using a by (intro sign_record_wf) simp
  have w2: "wf_json (JObj (dict_set ?s (lit ''a'') (JInt 2)))" using w a by (intro wf_dict_set) simp_all
  have v: "verify_record weak_crypto (dict_set ?s (lit ''a'') (JInt 2)) (verifying_key_of weak_crypto ''k'')"
    using sign_record_canon [OF d, of weak_crypto "''k''" "verifying_key_of weak_crypto ''k''"] c
    by (simp add: verify_record_def sign_record_fields b64encode_nonempty crypto_ok_def)
      (simp add: weak_crypto_def lit_def FORMAT_FIELD_def FINGERPRINT_FIELD_def SIGNATURE_FIELD_def)
  have k: "lit ''a'' \<noteq> SIGNATURE_FIELD" by (simp add: lit_def SIGNATURE_FIELD_def)
  have a': "map_option sort_keys (dict_get (dict_set ?s (lit ''a'') (JInt 2)) (lit ''a'')) \<noteq>
      map_option sort_keys (dict_get ?s (lit ''a''))"
    using sign_record_fields(3) [of "lit ''a''" weak_crypto] 
    by (simp add: lit_def SIGNATURE_FIELD_def FORMAT_FIELD_def FINGERPRINT_FIELD_def)
      (simp add: dict_get_def)
  have b: "dict_get (dict_set ?s (lit ''a'') (JInt 2)) SIGNATURE_FIELD = dict_get ?s SIGNATURE_FIELD"
    using k by simp
  show ?thesis
    using altered_record_needs_forgery [OF c w w2 k a' b d v]
    by (simp add: weak_crypto_def test_crypto_def)
qed

end
