(* ===== verification/LedgerApi.thy ===== *)
theory LedgerApi
  imports PyText
begin

text \<open>
  The ledger as the services see it. ImmuDB and its client library are not in the repository,
  so the calls the services make are the fields of an \<open>immudb\<close> record, over a world
  \<open>'w\<close>; what the code relies on in them is \<open>immudb_ok\<close>, stated over the history
  of the ledger (the list of its transactions, in commit order, transaction \<open>t\<close> at index
  \<open>t - 1\<close>). Between any two calls other clients may append transactions that satisfy
  \<open>E\<close>, and a read may lag: it answers from some prefix of the history.
\<close>

section \<open>Calls\<close>

type_synonym ('w, 'a) io = "'w \<Rightarrow> (exn + 'a) \<times> 'w"

definition ret :: "'a \<Rightarrow> ('w, 'a) io" where
  "ret x w = (Inr x, w)"

definition raise_io :: "exn \<Rightarrow> ('w, 'a) io" where
  "raise_io e w = (Inl e, w)"

definition lift_io :: "(exn + 'a) \<Rightarrow> ('w, 'a) io" where
  "lift_io r w = (r, w)"

text \<open>\<open>bind_io\<close> lets an exception through; \<open>attempt\<close> hands the outcome to its
  continuation, which is the source's \<open>try ... except\<close>.\<close>

definition bind_io :: "('w, 'a) io \<Rightarrow> ('a \<Rightarrow> ('w, 'b) io) \<Rightarrow> ('w, 'b) io" where
  "bind_io m f w = (case m w of (Inl e, w') \<Rightarrow> (Inl e, w') | (Inr x, w') \<Rightarrow> f x w')"

definition attempt :: "('w, 'a) io \<Rightarrow> (exn + 'a \<Rightarrow> ('w, 'b) io) \<Rightarrow> ('w, 'b) io" where
  "attempt m k w = (case m w of (r, w') \<Rightarrow> k r w')"

lemma bind_ioE:
  assumes "bind_io m f s = (r, s')"
  obtains e where "m s = (Inl e, s')" "r = Inl e"
  | x s1 where "m s = (Inr x, s1)" "f x s1 = (r, s')"
  using assms by (auto simp: bind_io_def split: prod.splits sum.splits)

lemma attemptE:
  assumes "attempt m k s = (r, s')"
  obtains q s1 where "m s = (q, s1)" "k q s1 = (r, s')"
  using assms by (auto simp: attempt_def split: prod.splits)

section \<open>Histories\<close>

datatype ledger_op =
    KV bytes bytes
  | ZAdd bytes rat bytes

datatype precondition =
    KeyMustNotExist bytes
  | KeyNotModifiedAfterTX bytes int

type_synonym tx = "ledger_op list"
type_synonym history = "tx list"

text \<open>The value a transaction leaves under a key.\<close>

fun tx_value :: "tx \<Rightarrow> bytes \<Rightarrow> bytes option" where
  "tx_value [] k = None"
| "tx_value (KV k' v # ops) k =
     (case tx_value ops k of Some v' \<Rightarrow> Some v' | None \<Rightarrow> if k' = k then Some v else None)"
| "tx_value (ZAdd _ _ _ # ops) k = tx_value ops k"

text \<open>What a key holds after a history: the value and the transaction that wrote it.\<close>

definition next_tx :: "history \<Rightarrow> int" where
  "next_tx h = int (length h) + 1"

fun lookup_rev :: "history \<Rightarrow> bytes \<Rightarrow> (bytes \<times> int) option" where
  "lookup_rev [] k = None"
| "lookup_rev (t # ts) k =
     (case tx_value t k of Some v \<Rightarrow> Some (v, int (length ts) + 1) | None \<Rightarrow> lookup_rev ts k)"

definition lookup :: "history \<Rightarrow> bytes \<Rightarrow> (bytes \<times> int) option" where
  "lookup h k = lookup_rev (rev h) k"

definition wrote_at :: "history \<Rightarrow> bytes \<Rightarrow> bytes \<Rightarrow> int \<Rightarrow> bool" where
  "wrote_at h k v t \<longleftrightarrow> 1 \<le> t \<and> t \<le> int (length h) \<and> tx_value (h ! nat (t - 1)) k = Some v"

definition pre_holds :: "history \<Rightarrow> precondition \<Rightarrow> bool" where
  "pre_holds h p =
     (case p of
        KeyMustNotExist k \<Rightarrow> lookup h k = None
      | KeyNotModifiedAfterTX k t \<Rightarrow>
          (case lookup h k of None \<Rightarrow> True | Some (v, t') \<Rightarrow> t' \<le> t))"

lemma wrote_at_Nil [simp]: "\<not> wrote_at [] k v t"
  by (auto simp: wrote_at_def)

lemma tx_value_append:
  "tx_value (a @ b) k = (case tx_value b k of Some v \<Rightarrow> Some v | None \<Rightarrow> tx_value a k)"
  by (induction a k rule: tx_value.induct) (auto split: option.splits)

lemma tx_value_None_iff: "tx_value t k = None \<longleftrightarrow> (\<forall>v. KV k v \<notin> set t)"
  by (induction t k rule: tx_value.induct) (auto split: option.splits)

lemma tx_value_Some: "tx_value t k = Some v \<Longrightarrow> KV k v \<in> set t"
  by (induction t k rule: tx_value.induct) (auto split: option.splits if_splits)

lemma lookup_Nil [simp]: "lookup [] k = None"
  by (simp add: lookup_def)

lemma lookup_snoc:
  "lookup (h @ [t]) k = (case tx_value t k of Some v \<Rightarrow> Some (v, next_tx h) | None \<Rightarrow> lookup h k)"
  by (simp add: lookup_def next_tx_def split: option.splits)

lemma wrote_at_snoc:
  "wrote_at (h @ [t]) k v i \<longleftrightarrow> wrote_at h k v i \<or> i = next_tx h \<and> tx_value t k = Some v"
proof (cases "i = next_tx h")
  case True
  then show ?thesis by (auto simp: wrote_at_def next_tx_def nth_append)
next
  case False
  then have "i \<le> int (length h) \<longleftrightarrow> i \<le> int (length (h @ [t]))" by (auto simp: next_tx_def)
  moreover have "1 \<le> i \<Longrightarrow> i \<le> int (length h) \<Longrightarrow> nat (i - 1) < length h" by linarith
  ultimately show ?thesis using False by (auto simp: wrote_at_def nth_append)
qed

lemma lookup_wrote: "lookup h k = Some (v, t) \<Longrightarrow> wrote_at h k v t"
  by (induction h rule: rev_induct) (auto simp: lookup_snoc wrote_at_snoc split: option.splits)

lemma lookup_bounds: "lookup h k = Some (v, t) \<Longrightarrow> 1 \<le> t \<and> t \<le> int (length h)"
  using lookup_wrote [of h k v t] by (simp add: wrote_at_def)

lemma wrote_at_bounds: "wrote_at h k v t \<Longrightarrow> 1 \<le> t \<and> t \<le> int (length h)"
  by (simp add: wrote_at_def)

lemma wrote_lookup: "wrote_at h k v t \<Longrightarrow> \<exists>v' t'. lookup h k = Some (v', t') \<and> t \<le> t'"
proof (induction h rule: rev_induct)
  case Nil
  then show ?case by (auto simp: wrote_at_def)
next
  case (snoc x h)
  then show ?case
    by (auto simp: lookup_snoc wrote_at_snoc next_tx_def split: option.splits dest: wrote_at_bounds)
qed

lemma wrote_at_append: "wrote_at h k v t \<Longrightarrow> wrote_at (h @ ts) k v t"
  by (induction ts rule: rev_induct) (auto simp: wrote_at_snoc simp flip: append_assoc)

lemma wrote_at_take: "wrote_at (take n h) k v t \<Longrightarrow> wrote_at h k v t"
  by (metis append_take_drop_id wrote_at_append)

lemma wrote_at_unique: "wrote_at h k v t \<Longrightarrow> wrote_at h k v' t \<Longrightarrow> v = v'"
  by (simp add: wrote_at_def)

section \<open>Other clients\<close>

text \<open>Transactions other clients append satisfy \<open>E\<close> at the history they find.\<close>

inductive grows :: "(history \<Rightarrow> tx \<Rightarrow> bool) \<Rightarrow> history \<Rightarrow> history \<Rightarrow> bool" for E where
  same: "grows E h h"
| step: "grows E h h' \<Longrightarrow> E h' t \<Longrightarrow> grows E h (h' @ [t])"

inductive_cases grows_NilE: "grows E h []"

lemma grows_trans: "grows E b c \<Longrightarrow> grows E a b \<Longrightarrow> grows E a c"
  by (induction rule: grows.induct) (auto intro: grows.intros)

lemma grows_prefix: "grows E h h' \<Longrightarrow> \<exists>ts. h' = h @ ts"
  by (induction rule: grows.induct) auto

lemma grows_mono: "grows E h h' \<Longrightarrow> (\<And>h t. E h t \<Longrightarrow> F h t) \<Longrightarrow> grows F h h'"
  by (induction rule: grows.induct) (auto intro: grows.intros)

lemma grows_wrote: "grows E h h' \<Longrightarrow> wrote_at h k v t \<Longrightarrow> wrote_at h' k v t"
  using grows_prefix wrote_at_append by fastforce

lemma grows_invariant:
  assumes "grows E h h'" "I h" "\<And>h t. I h \<Longrightarrow> E h t \<Longrightarrow> I (h @ [t])"
  shows "I h'"
  using assms by (induction rule: grows.induct) auto

text \<open>One transaction of this client, with those of the others around it.\<close>

definition committed :: "(history \<Rightarrow> tx \<Rightarrow> bool) \<Rightarrow> tx \<Rightarrow> history \<Rightarrow> history \<Rightarrow> int \<Rightarrow> bool" where
  "committed E t h h' n \<longleftrightarrow>
     (\<exists>h1. grows E h h1 \<and> n = next_tx h1 \<and> grows E (h1 @ [t]) h')"

lemma committed_wrote:
  assumes "committed E t h h' n" "tx_value t k = Some v"
  shows "wrote_at h' k v n"
  using assms by (auto simp: committed_def wrote_at_snoc intro: grows_wrote)

section \<open>The client\<close>

record signed_state =
  st_db :: pystr
  st_tx :: int
  st_hash :: bytes
  st_sig :: bytes

record 'w immudb =
  im_get :: "bytes \<Rightarrow> ('w, (bytes \<times> int) option) io"
  im_set :: "bytes \<Rightarrow> bytes \<Rightarrow> ('w, int) io"
  im_verified_set :: "bytes \<Rightarrow> bytes \<Rightarrow> ('w, int) io"
  im_verified_get :: "bytes \<Rightarrow> ('w, unit) io"
  im_exec_all :: "tx \<Rightarrow> precondition list \<Rightarrow> ('w, int option) io"
  im_zscan :: "bytes \<Rightarrow> rat \<Rightarrow> rat \<Rightarrow> nat \<Rightarrow> ('w, (bytes option \<times> rat option) list) io"
  im_current_state :: "('w, signed_state) io"

text \<open>The exceptions the client library raises when a proof does not check out.\<close>

fun is_proof_error :: "exn \<Rightarrow> bool" where
  "is_proof_error (ErrCorruptedData _) = True"
| "is_proof_error (BadSignatureError _) = True"
| "is_proof_error _ = False"

text \<open>An exception class of the services themselves, which no client raises.\<close>

fun is_budget :: "exn \<Rightarrow> bool" where
  "is_budget (SequenceBudgetExhausted _) = True"
| "is_budget _ = False"

definition precondition_failed :: "exn \<Rightarrow> bool" where
  "precondition_failed e \<longleftrightarrow> contains ''precondition failed'' (exn_str e)"

text \<open>
  What the services rely on. A read changes nothing and answers from a prefix; a write commits
  at the transaction it names, or raises and may have committed, except that a proof error
  is raised after the commit, and a rejected precondition means nothing was committed.
\<close>

definition reads_ok :: "(history \<Rightarrow> tx \<Rightarrow> bool) \<Rightarrow> ('w \<Rightarrow> history) \<Rightarrow> ('w, 'a) io \<Rightarrow> bool" where
  "reads_ok E hist m \<longleftrightarrow> (\<forall>w. grows E (hist w) (hist (snd (m w))))"

definition get_ok :: "(history \<Rightarrow> tx \<Rightarrow> bool) \<Rightarrow> ('w \<Rightarrow> history) \<Rightarrow> 'w immudb \<Rightarrow> bool" where
  "get_ok E hist cl \<longleftrightarrow>
     (\<forall>k. reads_ok E hist (im_get cl k)) \<and>
     (\<forall>k w r w'. im_get cl k w = (Inr r, w') \<longrightarrow> (\<exists>n. lookup (take n (hist w')) k = r))"

definition set_ok ::
  "(history \<Rightarrow> tx \<Rightarrow> bool) \<Rightarrow> ('w \<Rightarrow> history) \<Rightarrow> (bytes \<Rightarrow> bytes \<Rightarrow> ('w, int) io) \<Rightarrow> bool" where
  "set_ok E hist f \<longleftrightarrow>
     (\<forall>k v w r w'. f k v w = (r, w') \<longrightarrow>
        (case r of
           Inr n \<Rightarrow> committed E [KV k v] (hist w) (hist w') n
         | Inl e \<Rightarrow> (\<exists>n. committed E [KV k v] (hist w) (hist w') n) \<or>
                    grows E (hist w) (hist w') \<and> \<not> is_proof_error e))"

definition exec_ok :: "(history \<Rightarrow> tx \<Rightarrow> bool) \<Rightarrow> ('w \<Rightarrow> history) \<Rightarrow> 'w immudb \<Rightarrow> bool" where
  "exec_ok E hist cl \<longleftrightarrow>
     (\<forall>ops ps w r w'. im_exec_all cl ops ps w = (r, w') \<longrightarrow>
        (let done = (\<lambda>n. \<exists>h1. grows E (hist w) h1 \<and> list_all (pre_holds h1) ps \<and>
                           n = next_tx h1 \<and> grows E (h1 @ [ops]) (hist w'))
         in case r of
              Inr (Some n) \<Rightarrow> done n
            | Inr None \<Rightarrow> \<exists>n. done n
            | Inl e \<Rightarrow> \<not> is_budget e \<and>
                (grows E (hist w) (hist w') \<or> \<not> precondition_failed e \<and> (\<exists>n. done n))))"

definition zscan_ok :: "(history \<Rightarrow> tx \<Rightarrow> bool) \<Rightarrow> ('w \<Rightarrow> history) \<Rightarrow> 'w immudb \<Rightarrow> bool" where
  "zscan_ok E hist cl \<longleftrightarrow>
     (\<forall>s lo hi n. reads_ok E hist (im_zscan cl s lo hi n)) \<and>
     (\<forall>s lo hi n w r w' k p. im_zscan cl s lo hi n w = (Inr r, w') \<longrightarrow> (Some k, Some p) \<in> set r \<longrightarrow>
        ZAdd s p k \<in> set (concat (hist w')))"

definition immudb_ok :: "(history \<Rightarrow> tx \<Rightarrow> bool) \<Rightarrow> ('w \<Rightarrow> history) \<Rightarrow> 'w immudb \<Rightarrow> bool" where
  "immudb_ok E hist cl \<longleftrightarrow>
     get_ok E hist cl \<and> set_ok E hist (im_set cl) \<and> set_ok E hist (im_verified_set cl) \<and>
     exec_ok E hist cl \<and> zscan_ok E hist cl \<and>
     (\<forall>k. reads_ok E hist (im_verified_get cl k)) \<and> reads_ok E hist (im_current_state cl)"

section \<open>A client in memory\<close>

text \<open>
  A client that keeps the history itself, for the witnesses. Its world also scripts the
  failures of its writes: each write takes the next entry, and \<open>Some (e, kept)\<close> makes it
  raise \<open>e\<close>, after committing when \<open>kept\<close>.
\<close>

type_synonym fault_script = "(exn \<times> bool) option list"

fun next_fault :: "fault_script \<Rightarrow> (exn \<times> bool) option \<times> fault_script" where
  "next_fault [] = (None, [])"
| "next_fault (f # fs) = (f, fs)"

definition mem_write :: "tx \<Rightarrow> (history \<times> fault_script, int) io" where
  "mem_write t = (\<lambda>(h, fs). case next_fault fs of
     (None, fs') \<Rightarrow> (Inr (next_tx h), (h @ [t], fs'))
   | (Some (e, kept), fs') \<Rightarrow>
       (Inl e, (if kept \<or> is_proof_error e then h @ [t] else h, fs')))"

definition mem_exec :: "tx \<Rightarrow> precondition list \<Rightarrow> (history \<times> fault_script, int option) io" where
  "mem_exec t ps = (\<lambda>(h, fs).
     if \<not> list_all (pre_holds h) ps
     then (Inl (RpcError ''failed: precondition failed''), (h, fs))
     else case next_fault fs of
       (None, fs') \<Rightarrow> (Inr (Some (next_tx h)), (h @ [t], fs'))
     | (Some (e, kept), fs') \<Rightarrow>
         (Inl (if is_budget e then RuntimeError [] else e),
          (if kept \<and> \<not> precondition_failed e then h @ [t] else h, fs')))"

definition mem_zscan ::
  "bytes \<Rightarrow> rat \<Rightarrow> rat \<Rightarrow> nat \<Rightarrow> (history \<times> fault_script, (bytes option \<times> rat option) list) io" where
  "mem_zscan s lo hi n = (\<lambda>(h, fs).
     (Inr (take n (concat (map (\<lambda>op. case op of
         ZAdd s' p k \<Rightarrow> if s' = s \<and> lo \<le> p \<and> p \<le> hi then [(Some k, Some p)] else []
       | KV _ _ \<Rightarrow> []) (concat h)))), (h, fs)))"

definition mem :: "(history \<times> fault_script) immudb" where
  "mem = \<lparr>im_get = (\<lambda>k (h, fs). (Inr (lookup h k), (h, fs))),
     im_set = (\<lambda>k v. mem_write [KV k v]), im_verified_set = (\<lambda>k v. mem_write [KV k v]),
     im_verified_get = (\<lambda>k w. (Inr (), w)), im_exec_all = mem_exec, im_zscan = mem_zscan,
     im_current_state =
       (\<lambda>(h, fs). (Inr \<lparr>st_db = lit ''defaultdb'', st_tx = int (length h), st_hash = [], st_sig = []\<rparr>,
                   (h, fs)))\<rparr>"

lemma next_tx_committed: "committed E t h (h @ [t]) (next_tx h)"
  by (auto simp: committed_def intro: grows.intros)

lemma mem_write_ok: "set_ok E fst (\<lambda>k v. mem_write [KV k v])"
  unfolding set_ok_def mem_write_def
  by (auto split: prod.splits option.splits if_splits intro: next_tx_committed grows.intros)

lemma empty_text_not_failed: "\<not> precondition_failed (RuntimeError [])"
  by (simp add: precondition_failed_def)

lemma mem_exec_ok: "exec_ok E fst mem"
  using empty_text_not_failed unfolding exec_ok_def Let_def
  by (auto simp: mem_def mem_exec_def contains_iff split: prod.splits option.splits if_splits
      intro: grows.intros)

lemma mem_ok: "immudb_ok E fst mem"
proof -
  have "get_ok E fst mem"
    by (auto simp: get_ok_def reads_ok_def mem_def intro: grows.intros take_all_iff [THEN iffD2])
      (metis order_refl take_all)
  moreover have "zscan_ok E fst mem"
    by (auto simp: zscan_ok_def reads_ok_def mem_def mem_zscan_def intro!: grows.intros
        split: ledger_op.splits if_splits dest!: in_set_takeD)
  ultimately show ?thesis
    using mem_write_ok mem_exec_ok
    by (auto simp: immudb_ok_def reads_ok_def mem_def intro: grows.intros)
qed

end
