(* ===== verification/FaultKey.thy ===== *)
theory FaultKey
  imports Provenance LedgerApi
begin

text \<open>
  The key of a fault record: the verifier builds
  \<open>ledger_fault:{tx:020d}:{identity}:{nonce}\<close>, the control plane reads the transaction back
  from it and asks the ledger for the keys between two such transactions. The two modules share
  no code; the locale \<open>tx_bound\<close> is what they have to agree on, and both bounds are
  interpretations of it.
\<close>

section \<open>Text the standard library classifies\<close>

text \<open>\<open>str.isdigit\<close>: the zeros of the decimal digits, and the ranges of the digits
  that are not decimal, of the Unicode database of Python 3.11.\<close>

definition decimal_zeros :: "nat list" where
  "decimal_zeros = [48, 1632, 1776, 1984, 2406, 2534, 2662, 2790, 2918, 3046, 3174, 3302, 3430,
     3558, 3664, 3792, 3872, 4160, 4240, 6112, 6160, 6470, 6608, 6784, 6800, 6992, 7088, 7232,
     7248, 42528, 43216, 43264, 43472, 43504, 43600, 44016, 65296, 66720, 68912, 69734, 69872,
     69942, 70096, 70384, 70736, 70864, 71248, 71360, 71472, 71904, 72016, 72784, 73040, 73120,
     92768, 92864, 93008, 120782, 120792, 120802, 120812, 120822, 123200, 123632, 125264, 130032]"

definition other_digits :: "(nat \<times> nat) list" where
  "other_digits = [(178, 179), (185, 185), (4969, 4977), (6618, 6618), (8304, 8304), (8308, 8313),
     (8320, 8329), (9312, 9320), (9332, 9340), (9352, 9360), (9450, 9450), (9461, 9469),
     (9471, 9471), (10102, 10110), (10112, 10120), (10122, 10130), (68160, 68163), (69216, 69224),
     (69714, 69722), (127232, 127242)]"

definition decimal_value :: "nat \<Rightarrow> nat option" where
  "decimal_value c = map_option (\<lambda>z. c - z) (find (\<lambda>z. z \<le> c \<and> c \<le> z + 9) decimal_zeros)"

definition py_isdigit :: "nat \<Rightarrow> bool" where
  "py_isdigit c \<longleftrightarrow> decimal_value c \<noteq> None \<or> list_ex (\<lambda>(a, b). a \<le> c \<and> c \<le> b) other_digits"

text \<open>\<open>int(s)\<close> of a text of digits: a digit that is not decimal is a ValueError.\<close>

definition int_of_digits :: "pystr \<Rightarrow> exn + int" where
  "int_of_digits s =
     (case those_list (map decimal_value s) of
        None \<Rightarrow> Inl ValueError
      | Some ds \<Rightarrow> Inr (int (value_of ds)))"

text \<open>\<open>str(v)\<close> of a parsed JSON value; the printed form of a float, a list or an object is
  left to a parameter.\<close>

fun str_of :: "(json \<Rightarrow> pystr) \<Rightarrow> json \<Rightarrow> pystr" where
  "str_of prepr JNull = lit ''None''"
| "str_of prepr (JBool b) = (if b then lit ''True'' else lit ''False'')"
| "str_of prepr (JInt i) = show_int i"
| "str_of prepr (JStr s) = s"
| "str_of prepr v = prepr v"

section \<open>The writer's side (verifier/main.py)\<close>

definition FAULT_RECORD_TYPE :: pystr where
  "FAULT_RECORD_TYPE = lit ''ledger_fault''"

definition FAULT_KEY_PREFIX :: pystr where
  "FAULT_KEY_PREFIX = lit ''ledger_fault:''"

definition FAULT_KEY_TX_PAD :: nat where
  "FAULT_KEY_TX_PAD = 20"

definition MAX_LEDGER_KEY_BYTES :: nat where
  "MAX_LEDGER_KEY_BYTES = 1023"

definition FAULT_KEY_FIXED_BYTES :: nat where
  "FAULT_KEY_FIXED_BYTES = length FAULT_KEY_PREFIX + FAULT_KEY_TX_PAD + 1 + 1 + 16"

definition MAX_FAULT_IDENTITY_BYTES :: nat where
  "MAX_FAULT_IDENTITY_BYTES = MAX_LEDGER_KEY_BYTES - FAULT_KEY_FIXED_BYTES"

definition fault_key_tx_bound :: "int \<Rightarrow> pystr" where
  "fault_key_tx_bound tx_id = FAULT_KEY_PREFIX @ zero_pad FAULT_KEY_TX_PAD tx_id"

definition fault_identity ::
  "('sk, 'vk) crypto \<Rightarrow> (json \<Rightarrow> pystr) \<Rightarrow> bytes \<Rightarrow> bytes \<Rightarrow> pystr" where
  "fault_identity C prepr record_value record_key =
     (let call_id = (case loads_bytes record_value of
            Some (JObj value) \<Rightarrow> dict_get value (lit ''call_id'')
          | _ \<Rightarrow> None);
          by_digest = lit ''key:'' @ take 32 (hexdigest (sha256 C record_key))
      in case call_id of
           None \<Rightarrow> by_digest
         | Some v \<Rightarrow>
             if \<not> truthy v then by_digest
             else let identity = str_of prepr v
                  in if length (utf8_encode_replace identity) > MAX_FAULT_IDENTITY_BYTES then by_digest
                     else if utf8_encode identity = None then by_digest
                     else identity)"

definition fault_key ::
  "('sk, 'vk) crypto \<Rightarrow> (json \<Rightarrow> pystr) \<Rightarrow> bytes \<Rightarrow> bytes \<Rightarrow> int \<Rightarrow> pystr \<Rightarrow> exn + pystr" where
  "fault_key C prepr record_value record_key committed_tx_id nonce =
     (let identity = fault_identity C prepr record_value record_key;
          key = fault_key_tx_bound committed_tx_id @ lit '':'' @ identity @ lit '':'' @ nonce;
          encoded = length (utf8_encode_replace key)
      in if encoded > MAX_LEDGER_KEY_BYTES then Inl (FaultKeyTooLong encoded) else Inr key)"

section \<open>The reader's side (control_plane/main.py)\<close>

definition page_FAULT_KEY_PREFIX :: pystr where
  "page_FAULT_KEY_PREFIX = lit ''ledger_fault:''"

definition page_FAULT_RECORD_TYPE :: pystr where
  "page_FAULT_RECORD_TYPE = lit ''ledger_fault''"

definition page_FAULT_KEY_TX_PAD :: nat where
  "page_FAULT_KEY_TX_PAD = 20"

definition page_fault_key_tx_bound :: "int \<Rightarrow> pystr" where
  "page_fault_key_tx_bound tx_id = page_FAULT_KEY_PREFIX @ zero_pad page_FAULT_KEY_TX_PAD tx_id"

text \<open>\<open>base64.b64decode\<close> of a JSON value: anything but a text is a TypeError.\<close>

fun b64decode_json :: "json \<Rightarrow> bytes option" where
  "b64decode_json (JStr s) = b64decode s"
| "b64decode_json _ = None"

definition fault_key_transaction :: "json \<Rightarrow> exn + int option" where
  "fault_key_transaction encoded_key =
     (case b64decode_json encoded_key of
        None \<Rightarrow> Inr None
      | Some b \<Rightarrow>
          let key = utf8_decode_replace b;
              n = length page_FAULT_KEY_PREFIX;
              digits = take page_FAULT_KEY_TX_PAD (drop n key);
              remainder = drop (n + page_FAULT_KEY_TX_PAD) key
          in if \<not> starts_with key page_FAULT_KEY_PREFIX then Inr None
             else if length digits \<noteq> page_FAULT_KEY_TX_PAD \<or> \<not> list_all py_isdigit digits
               then Inr None
             else if \<not> starts_with remainder (lit '':'') then Inr None
             else map_sum id Some (int_of_digits digits))"

section \<open>The format both sides share\<close>

text \<open>The bytes of ASCII texts keep their order.\<close>

lemma encode_ascii_append [simp]: "encode_ascii (a @ b) = encode_ascii a @ encode_ascii b"
  by (simp add: encode_ascii_def)

lemma length_encode_ascii [simp]: "length (encode_ascii a) = length a"
  by (simp add: encode_ascii_def)

lemma char_of_less: "c < 256 \<Longrightarrow> d < 256 \<Longrightarrow> (char_of c :: char) < char_of d \<longleftrightarrow> c < (d :: nat)"
  by (simp add: less_char_def)

lemma encode_ascii_less:
  "\<forall>c \<in> set a. c < 256 \<Longrightarrow> \<forall>c \<in> set b. c < 256 \<Longrightarrow> a < b \<Longrightarrow> encode_ascii a < encode_ascii b"
  by (induction a b rule: list_induct2') (auto simp: encode_ascii_def char_of_less)

locale tx_bound =
  fixes bound :: "int \<Rightarrow> pystr" and pad :: nat
  assumes bound_length: "0 \<le> i \<Longrightarrow> i < 10 ^ pad \<Longrightarrow> 0 \<le> j \<Longrightarrow> j < 10 ^ pad \<Longrightarrow> length (bound i) = length (bound j)"
    and bound_ascii: "0 \<le> i \<Longrightarrow> c \<in> set (bound i) \<Longrightarrow> c < 128"
    and bound_mono: "0 \<le> i \<Longrightarrow> i < j \<Longrightarrow> j < 10 ^ pad \<Longrightarrow> bound i < bound j"
begin

lemma bound_bytes_mono:
  assumes "0 \<le> i" "i < j" "j < 10 ^ pad"
  shows "encode_ascii (bound i) @ r < encode_ascii (bound j) @ s"
proof (rule list_less_append_left)
  have "\<forall>c \<in> set (bound k). c < 256" if "0 \<le> k" for k using bound_ascii [OF that] by fastforce
  from this [of i] this [of j] show "encode_ascii (bound i) < encode_ascii (bound j)"
    using assms by (intro encode_ascii_less bound_mono) simp_all
  show "length (encode_ascii (bound i)) = length (encode_ascii (bound j))"
    using assms by (simp add: bound_length [of i j])
qed

text \<open>A key that carries \<open>t\<close> lies in the half-open range asked for \<open>[lo, hi]\<close>
  exactly when \<open>t\<close> does.\<close>

lemma window_iff:
  assumes "0 \<le> lo" "lo \<le> hi" "hi + 1 < 10 ^ pad" "0 \<le> t" "t < 10 ^ pad"
  shows "encode_ascii (bound lo) \<le> encode_ascii (bound t) @ r \<and>
         encode_ascii (bound t) @ r < encode_ascii (bound (hi + 1)) \<longleftrightarrow> lo \<le> t \<and> t \<le> hi"
proof -
  have "encode_ascii (bound lo) \<le> encode_ascii (bound t) @ r \<longleftrightarrow> lo \<le> t"
  proof (cases "lo \<le> t")
    case True
    then show ?thesis
      using bound_bytes_mono [of lo t "[]" r] assms list_le_append_self [of "encode_ascii (bound t)" r]
      by (cases "lo = t") auto
  next
    case False
    then show ?thesis using bound_bytes_mono [of t lo r "[]"] assms by auto
  qed
  moreover have "encode_ascii (bound t) @ r < encode_ascii (bound (hi + 1)) \<longleftrightarrow> t \<le> hi"
  proof (cases "t \<le> hi")
    case True
    then show ?thesis using bound_bytes_mono [of t "hi + 1" r "[]"] assms by auto
  next
    case False
    then have "\<not> encode_ascii (bound t) @ r < encode_ascii (bound (hi + 1))"
      using bound_bytes_mono [of "hi + 1" t "[]" r] assms
        list_le_append_self [of "encode_ascii (bound t)" r]
      by (cases "t = hi + 1") auto
    then show ?thesis using False by simp
  qed
  ultimately show ?thesis by blast
qed

end

lemma zero_pad_ascii: "0 \<le> i \<Longrightarrow> c \<in> set (zero_pad w i) \<Longrightarrow> c < 128"
  using zero_pad_digit [of i c w] by simp

lemma nat_less_power: "0 \<le> i \<Longrightarrow> i < 10 ^ w \<Longrightarrow> nat i < 10 ^ w"
  by (simp add: nat_less_iff)

interpretation writer_bound: tx_bound fault_key_tx_bound FAULT_KEY_TX_PAD
  by unfold_locales
    (auto simp: fault_key_tx_bound_def FAULT_KEY_PREFIX_def FAULT_KEY_TX_PAD_def lit_def
      length_zero_pad list_less_append_same nat_less_power zero_pad_mono dest: zero_pad_ascii)

interpretation page_bound: tx_bound page_fault_key_tx_bound page_FAULT_KEY_TX_PAD
  by unfold_locales
    (auto simp: page_fault_key_tx_bound_def page_FAULT_KEY_PREFIX_def page_FAULT_KEY_TX_PAD_def lit_def
      length_zero_pad list_less_append_same nat_less_power zero_pad_mono dest: zero_pad_ascii)

lemma bounds_agree: "page_fault_key_tx_bound = fault_key_tx_bound"
  by (simp add: fun_eq_iff fault_key_tx_bound_def page_fault_key_tx_bound_def FAULT_KEY_PREFIX_def
      page_FAULT_KEY_PREFIX_def FAULT_KEY_TX_PAD_def page_FAULT_KEY_TX_PAD_def)

section \<open>A fault key fits, and reads back\<close>

lemma length_utf8_replace: "length (utf8_encode_replace (a @ b)) = length (utf8_encode_replace a) + length (utf8_encode_replace b)"
  by (simp add: utf8_encode_replace_def)

lemma utf8_replace_ascii: "\<forall>c \<in> set a. c < 128 \<Longrightarrow> length (utf8_encode_replace a) = length a"
  by (induction a) (auto simp: utf8_encode_replace_def utf8_point_def is_scalar_def is_surrogate_def)

lemma utf8_encode_append:
  "utf8_encode (a @ b) = (case (utf8_encode a, utf8_encode b) of (Some x, Some y) \<Rightarrow> Some (x @ y) | _ \<Rightarrow> None)"
  by (auto simp: utf8_encode_def)

lemma utf8_replace_id: "utf8_encode a = Some b \<Longrightarrow> utf8_encode_replace a = b"
  by (auto simp: utf8_encode_def utf8_encode_replace_def list_all_iff split: if_splits
      intro!: arg_cong [of _ _ concat] map_cong)

lemma utf8_points_replace:
  "utf8_points bs = map Some s \<Longrightarrow> map (\<lambda>r. case r of None \<Rightarrow> 0xFFFD | Some c \<Rightarrow> c) (utf8_points bs) = s"
  by (simp add: comp_def)

lemma utf8_roundtrip_replace: "utf8_encode s = Some b \<Longrightarrow> utf8_decode_replace b = s"
  using utf8_roundtrip [of s b] utf8_points_replace [of "map of_char b" s]
  by (simp only: utf8_decode_def utf8_decode_replace_def those_list_Some_iff)

lemma bound_ascii: "0 \<le> t \<Longrightarrow> c \<in> set (fault_key_tx_bound t) \<Longrightarrow> c < 128"
  by (rule writer_bound.bound_ascii)

lemma identity_bytes_eq: "MAX_FAULT_IDENTITY_BYTES = 972"
  by (simp add: MAX_FAULT_IDENTITY_BYTES_def MAX_LEDGER_KEY_BYTES_def FAULT_KEY_FIXED_BYTES_def
      FAULT_KEY_TX_PAD_def FAULT_KEY_PREFIX_def lit_def)

lemma colon_bytes: "length (utf8_encode_replace (lit '':'')) = 1" "length (lit '':'') = 1"
  "utf8_encode (lit '':'') = Some (encode_ascii (lit '':''))"
proof -
  have a: "\<forall>c \<in> set (lit '':''). c < 128" by (simp add: lit_def)
  show "length (lit '':'') = 1" by (simp add: lit_def)
  then show "length (utf8_encode_replace (lit '':'')) = 1" by (simp add: utf8_replace_ascii [OF a])
  show "utf8_encode (lit '':'') = Some (encode_ascii (lit '':''))" by (rule utf8_ascii [OF a])
qed

lemma fault_identity_fits:
  assumes "crypto_ok C"
  shows "length (utf8_encode_replace (fault_identity C prepr v k)) \<le> MAX_FAULT_IDENTITY_BYTES \<and>
         utf8_encode (fault_identity C prepr v k) \<noteq> None"
proof -
  let ?d = "lit ''key:'' @ take 32 (hexdigest (sha256 C k))"
  have a: "\<forall>c \<in> set ?d. c < 128"
    using hexdigest_ascii [of _ "sha256 C k"] by (fastforce simp: lit_def dest: in_set_takeD)
  have "length (utf8_encode_replace ?d) = 36"
    using assms by (subst utf8_replace_ascii [OF a]) (simp add: lit_def crypto_ok_def)
  then have "length (utf8_encode_replace ?d) \<le> MAX_FAULT_IDENTITY_BYTES \<and> utf8_encode ?d \<noteq> None"
    using utf8_ascii [OF a] by (simp add: identity_bytes_eq)
  then show ?thesis
    by (auto simp: fault_identity_def Let_def split: option.split)
qed

lemma length_bound: "0 \<le> t \<Longrightarrow> t < 10 ^ 20 \<Longrightarrow> length (fault_key_tx_bound t) = 33"
  by (simp add: fault_key_tx_bound_def FAULT_KEY_PREFIX_def FAULT_KEY_TX_PAD_def lit_def
      length_zero_pad nat_less_power)

definition nonce_ok :: "pystr \<Rightarrow> bool" where
  "nonce_ok n \<longleftrightarrow> length n = 16 \<and> (\<forall>c \<in> set n. c < 128)"

lemma fault_key_ok:
  assumes "crypto_ok C" "0 \<le> t" "t < 10 ^ 20" "nonce_ok nonce"
  shows "fault_key C prepr v k t nonce =
    Inr (fault_key_tx_bound t @ lit '':'' @ fault_identity C prepr v k @ lit '':'' @ nonce)"
  using fault_identity_fits [OF assms(1), of prepr v k] assms bound_ascii [OF assms(2)]
  by (auto simp: fault_key_def Let_def length_utf8_replace utf8_replace_ascii length_bound nonce_ok_def
      identity_bytes_eq MAX_LEDGER_KEY_BYTES_def colon_bytes)

lemma fault_key_bytes:
  assumes "crypto_ok C" "0 \<le> t" "t < 10 ^ 20" "nonce_ok nonce"
  obtains r where
    "utf8_encode (fault_key_tx_bound t @ lit '':'' @ fault_identity C prepr v k @ lit '':'' @ nonce) =
       Some (encode_ascii (fault_key_tx_bound t) @ r)"
    "length (encode_ascii (fault_key_tx_bound t) @ r) \<le> 1023"
proof -
  obtain i where i: "utf8_encode (fault_identity C prepr v k) = Some i"
    using fault_identity_fits [OF assms(1)] by blast
  have "length i \<le> MAX_FAULT_IDENTITY_BYTES"
    using fault_identity_fits [OF assms(1), of prepr v k] utf8_replace_id [OF i] by simp
  moreover have "utf8_encode (fault_key_tx_bound t) = Some (encode_ascii (fault_key_tx_bound t))"
    "utf8_encode nonce = Some (encode_ascii nonce)"
    using assms bound_ascii [OF assms(2)] by (auto intro!: utf8_ascii simp: nonce_ok_def)
  ultimately show ?thesis
    using i assms
    by (intro that [of "encode_ascii (lit '':'') @ i @ encode_ascii (lit '':'') @ encode_ascii nonce"])
      (simp_all add: utf8_encode_append length_bound nonce_ok_def colon_bytes identity_bytes_eq)
qed

lemma decimal_value_ascii: "48 \<le> c \<Longrightarrow> c \<le> 57 \<Longrightarrow> decimal_value c = Some (c - 48)"
  by (simp add: decimal_value_def decimal_zeros_def)

lemma int_of_digits_zero_pad:
  assumes "0 \<le> t" "t < 10 ^ w" "0 < w"
  shows "int_of_digits (zero_pad w t) = Inr t"
proof -
  have t: "nat t < 10 ^ w" using assms by (simp add: nat_less_power)
  have "map decimal_value (zero_pad w t) = map Some (fixed w (nat t))"
    using assms t by (auto simp: zero_pad_fixed decimal_value_ascii dest: fixed_less10)
  then show ?thesis using assms t by (simp add: int_of_digits_def value_of_fixed)
qed

lemma fault_key_transaction_bound:
  assumes "0 \<le> t" "t < 10 ^ 20" "utf8_encode (fault_key_tx_bound t @ 58 # rest) = Some b"
  shows "fault_key_transaction (JStr (b64encode b)) = Inr (Some t)"
proof -
  have "list_all py_isdigit (zero_pad 20 t)"
    using zero_pad_digit [OF assms(1), of _ 20]
    by (auto simp: list_all_iff py_isdigit_def decimal_value_ascii)
  moreover have "utf8_decode_replace b = fault_key_tx_bound t @ 58 # rest"
    by (rule utf8_roundtrip_replace [OF assms(3)])
  ultimately show ?thesis
    using assms int_of_digits_zero_pad [OF assms(1,2)] length_zero_pad [OF assms(1), of 20]
    by (simp add: fault_key_transaction_def Let_def fault_key_tx_bound_def FAULT_KEY_PREFIX_def
        page_FAULT_KEY_PREFIX_def page_FAULT_KEY_TX_PAD_def FAULT_KEY_TX_PAD_def lit_def nat_less_power)
qed

lemma fault_key_always_reads:
  assumes "crypto_ok C" "0 \<le> tx" "tx < 10 ^ 20" "nonce_ok nonce"
    and "fault_key C prepr record_value record_key tx nonce = Inr key" "utf8_encode key = Some b"
  shows "fault_key_transaction (JStr (b64encode b)) = Inr (Some tx)"
  using fault_key_ok [OF assms(1-4), of prepr record_value record_key] assms(5,6)
  by (intro fault_key_transaction_bound [OF assms(2,3)]) (simp add: lit_def)

lemma fault_key_window:
  assumes "crypto_ok C" "nonce_ok nonce" "0 \<le> tx" "tx < 10 ^ 20" "0 \<le> lo" "lo \<le> hi" "hi + 1 < 10 ^ 20"
    and "fault_key C prepr record_value record_key tx nonce = Inr key" "utf8_encode key = Some b"
  shows "encode_ascii (page_fault_key_tx_bound lo) \<le> b \<and> b < encode_ascii (page_fault_key_tx_bound (hi + 1))
     \<longleftrightarrow> lo \<le> tx \<and> tx \<le> hi"
proof -
  obtain r where "b = encode_ascii (fault_key_tx_bound tx) @ r"
    using fault_key_bytes [OF assms(1,3,4,2)] fault_key_ok [OF assms(1,3,4,2), of prepr] assms(8,9)
    by (metis Inr_inject option.inject)
  then show ?thesis
    using page_bound.window_iff [of lo hi tx r] assms by (simp add: bounds_agree page_FAULT_KEY_TX_PAD_def)
qed

section \<open>Properties\<close>

text \<open>
  C7: for every committed record, whatever its \<open>call_id\<close>, the verifier builds a fault key:
  it is encodable and fits the 1023 bytes the ledger accepts, and the control plane reads back
  from it the transaction it was built for.
\<close>

theorem fault_key_always_fits_and_reads_back:
  assumes "crypto_ok C" "0 \<le> tx" "tx < 10 ^ 20" "nonce_ok nonce"
  shows "\<exists>key b. fault_key C prepr record_value record_key tx nonce = Inr key \<and>
     utf8_encode key = Some b \<and> length b \<le> MAX_LEDGER_KEY_BYTES \<and>
     fault_key_transaction (JStr (b64encode b)) = Inr (Some tx)"
proof -
  obtain r where r:
    "utf8_encode (fault_key_tx_bound tx @ lit '':'' @ fault_identity C prepr record_value record_key
       @ lit '':'' @ nonce) = Some (encode_ascii (fault_key_tx_bound tx) @ r)"
    "length (encode_ascii (fault_key_tx_bound tx) @ r) \<le> 1023"
    using fault_key_bytes [OF assms] .
  have "fault_key_transaction (JStr (b64encode (encode_ascii (fault_key_tx_bound tx) @ r))) = Inr (Some tx)"
    using r(1) by (intro fault_key_transaction_bound [OF assms(2,3)]) (simp add: lit_def)
  then show ?thesis
    using fault_key_ok [OF assms, of prepr record_value record_key] r
    by (auto simp: MAX_LEDGER_KEY_BYTES_def)
qed

theorem fault_key_always_fits_and_reads_back_witness:
  "\<exists>key b. fault_key test_crypto dumps ''not json'' ''tool_call:1'' 42 (replicate 16 97) = Inr key \<and>
     utf8_encode key = Some b \<and> length b \<le> MAX_LEDGER_KEY_BYTES \<and>
     fault_key_transaction (JStr (b64encode b)) = Inr (Some 42)"
  by (rule fault_key_always_fits_and_reads_back [OF test_crypto_ok]) (simp_all add: nonce_ok_def)

text \<open>
  C8: the range of keys the audit page asks for, for the transactions from \<open>lo\<close> to \<open>hi\<close>,
  holds exactly the verifier's fault keys of those transactions.
\<close>

theorem page_window_is_exact:
  assumes "crypto_ok C" "nonce_ok nonce" "0 \<le> tx" "tx < 10 ^ 20" "0 \<le> lo" "lo \<le> hi" "hi + 1 < 10 ^ 20"
    and "fault_key C prepr record_value record_key tx nonce = Inr key" "utf8_encode key = Some b"
  shows "encode_ascii (page_fault_key_tx_bound lo) \<le> b \<and> b < encode_ascii (page_fault_key_tx_bound (hi + 1))
     \<longleftrightarrow> lo \<le> tx \<and> tx \<le> hi"
  by (rule fault_key_window [OF assms])

theorem page_window_is_exact_witness:
  "\<exists>key b. fault_key test_crypto dumps ''x'' ''k'' 42 (replicate 16 97) = Inr key \<and> utf8_encode key = Some b \<and>
     encode_ascii (page_fault_key_tx_bound 40) \<le> b \<and> b < encode_ascii (page_fault_key_tx_bound 43)"
proof -
  have n: "nonce_ok (replicate 16 97)" by (simp add: nonce_ok_def)
  have t: "(0 :: int) \<le> 42" "(42 :: int) < 10 ^ 20" by simp_all
  obtain r where r: "utf8_encode (fault_key_tx_bound 42 @ lit '':'' @ fault_identity test_crypto dumps ''x'' ''k''
       @ lit '':'' @ replicate 16 97) = Some (encode_ascii (fault_key_tx_bound 42) @ r)"
    using fault_key_bytes [OF test_crypto_ok t n] by blast
  note k = fault_key_ok [OF test_crypto_ok t n, of dumps "''x''" "''k''"]
  show ?thesis
    using page_window_is_exact [OF test_crypto_ok n t _ _ _ k r, of 40 42] k r by auto
qed

text \<open>
  A key under the fault prefix whose twenty characters are digits but not all decimal
  makes the control plane's reading of it raise, where every other unreadable key is refused as
  naming no transaction.
\<close>

theorem superscript_digit_raises:
  "fault_key_transaction (JStr (b64encode (the (utf8_encode
     (page_FAULT_KEY_PREFIX @ replicate 19 48 @ [178] @ lit '':x:y''))))) = Inl ValueError"
proof -
  let ?k = "page_FAULT_KEY_PREFIX @ replicate 19 48 @ [178] @ lit '':x:y''"
  have "\<forall>c \<in> set ?k. is_scalar c"
    by (auto simp: page_FAULT_KEY_PREFIX_def lit_def is_scalar_def is_surrogate_def)
  then obtain b where b: "utf8_encode ?k = Some b" by (auto simp: utf8_encode_def list_all_iff)
  have "decimal_value 178 = None" "py_isdigit 178" "py_isdigit 48"
    by (simp_all add: decimal_value_def decimal_zeros_def py_isdigit_def other_digits_def)
  moreover from this have "int_of_digits (replicate 19 48 @ [178]) = Inl ValueError"
    using those_list_Some_iff [of "replicate 19 (decimal_value 48) @ [None]"]
    by (auto simp: int_of_digits_def split: option.split) (metis in_set_conv_decomp list.set_map imageE option.distinct(1))
  ultimately show ?thesis
    using utf8_roundtrip_replace [OF b] b
    by (simp add: fault_key_transaction_def Let_def page_FAULT_KEY_PREFIX_def page_FAULT_KEY_TX_PAD_def
        lit_def list_all_iff)
qed

end
