(* ===== verification/Reserve.thy ===== *)
theory Reserve
  imports PyText
begin

text \<open>
  The reserve: the number of positions below which history is indexed and above which the
  verifier allocates. Four services read it from the environment or from the ledger, each with
  its own copy of the same rule (\<open>validate_reserve\<close> in the verifier, the control plane, the
  reconciliation of the anchor service and the backfill tool). The locale \<open>reserve_rule\<close> is
  what the other components rely on; the four copies are its interpretations.
\<close>

section \<open>The four copies\<close>

definition MAX_POSITION :: int where
  "MAX_POSITION = 2 ^ 53"

definition verifier_validate_reserve :: "pystr \<Rightarrow> exn + int" where
  "verifier_validate_reserve raw =
     (case py_int (strip raw) of
        None \<Rightarrow> Inl (ReserveNotInteger raw)
      | Some value \<Rightarrow>
          if value < 1 then Inl (ReserveNotPositive value)
          else if value \<ge> MAX_POSITION then Inl (ReserveTooLarge value)
          else Inr value)"

definition page_validate_reserve :: "pystr \<Rightarrow> exn + int" where
  "page_validate_reserve raw =
     (case py_int (strip raw) of
        None \<Rightarrow> Inl (ReserveNotInteger raw)
      | Some value \<Rightarrow>
          if value < 1 then Inl (ReserveNotPositive value)
          else if value \<ge> MAX_POSITION then Inl (ReserveTooLarge value)
          else Inr value)"

definition reconcile_validate_reserve :: "pystr \<Rightarrow> exn + int" where
  "reconcile_validate_reserve raw =
     (case py_int (strip raw) of
        None \<Rightarrow> Inl (ReserveNotInteger raw)
      | Some value \<Rightarrow>
          if value < 1 then Inl (ReserveNotPositive value)
          else if value \<ge> MAX_POSITION then Inl (ReserveTooLarge value)
          else Inr value)"

text \<open>The tool ends the process instead of raising an error of the service.\<close>

definition backfill_validate_reserve :: "pystr \<Rightarrow> exn + int" where
  "backfill_validate_reserve raw =
     (case py_int (strip raw) of
        None \<Rightarrow> Inl (SystemExit (ReserveNotInteger raw))
      | Some value \<Rightarrow>
          if value < 1 then Inl (SystemExit (ReserveNotPositive value))
          else if value \<ge> MAX_POSITION then Inl (SystemExit (ReserveTooLarge value))
          else Inr value)"

section \<open>The rule\<close>

definition reserve_in_range :: "int \<Rightarrow> bool" where
  "reserve_in_range r \<longleftrightarrow> 1 \<le> r \<and> r < MAX_POSITION"

locale reserve_rule =
  fixes validate :: "pystr \<Rightarrow> exn + int"
  assumes accepts_iff:
    "validate raw = Inr r \<longleftrightarrow> py_int (strip raw) = Some r \<and> reserve_in_range r"
begin

lemma accepted_in_range: "validate raw = Inr r \<Longrightarrow> 1 \<le> r \<and> r < MAX_POSITION"
  by (simp add: accepts_iff reserve_in_range_def)

text \<open>The bytes a binder writes (\<open>str(r)\<close>) are read back as the number it wrote.\<close>

lemma reads_back: "reserve_in_range r \<Longrightarrow> validate (show_int r) = Inr r"
  by (simp add: accepts_iff strip_id show_int_no_space)

lemma refuses: "(\<And>r. py_int (strip raw) = Some r \<Longrightarrow> \<not> reserve_in_range r) \<Longrightarrow> \<exists>e. validate raw = Inl e"
  using accepts_iff by (cases "validate raw") auto

lemma reserve_stable: "reserve_in_range r \<Longrightarrow> validate (show_int r) = Inr r' \<Longrightarrow> r' = r"
  by (simp add: reads_back)

end

interpretation verifier_reserve: reserve_rule verifier_validate_reserve
  by unfold_locales
    (auto simp: verifier_validate_reserve_def reserve_in_range_def split: option.splits if_splits)

interpretation page_reserve: reserve_rule page_validate_reserve
  by unfold_locales
    (auto simp: page_validate_reserve_def reserve_in_range_def split: option.splits if_splits)

interpretation reconcile_reserve: reserve_rule reconcile_validate_reserve
  by unfold_locales
    (auto simp: reconcile_validate_reserve_def reserve_in_range_def split: option.splits if_splits)

interpretation backfill_reserve: reserve_rule backfill_validate_reserve
  by unfold_locales
    (auto simp: backfill_validate_reserve_def reserve_in_range_def split: option.splits if_splits)

section \<open>Properties\<close>

text \<open>
  C9: the four services accept exactly the same texts as a reserve and read the same number
  from each, always between 1 and \<open>2^53 - 1\<close>; the text one of them binds into the ledger
  is the number every other one reads there.
\<close>

theorem reserve_copies_agree:
  "(verifier_validate_reserve raw = Inr r \<longleftrightarrow> page_validate_reserve raw = Inr r) \<and>
   (verifier_validate_reserve raw = Inr r \<longleftrightarrow> reconcile_validate_reserve raw = Inr r) \<and>
   (verifier_validate_reserve raw = Inr r \<longleftrightarrow> backfill_validate_reserve raw = Inr r) \<and>
   (verifier_validate_reserve raw = Inr r \<longleftrightarrow>
      py_int (strip raw) = Some r \<and> 1 \<le> r \<and> r < 2 ^ 53)"
  by (simp add: verifier_reserve.accepts_iff page_reserve.accepts_iff reconcile_reserve.accepts_iff
      backfill_reserve.accepts_iff reserve_in_range_def MAX_POSITION_def)

end
