(* ===== verification/TrustAnchor.thy ===== *)
theory TrustAnchor
  imports LedgerApi Provenance
begin

text \<open>
  The verifier's trust anchor (\<open>_VerifiedRootService\<close> in \<open>verifier/main.py\<close>): the
  state of the ledger every later proof is measured against, held in memory and in a file. The
  client library's own check of a state's signature is the parameter \<open>verify\<close>.
\<close>

section \<open>The service\<close>

text \<open>What opening and unpickling the state file gives.\<close>

datatype state_file = Missing | Unreadable | States "(pystr \<times> signed_state) list"

record 'vk root_service =
  rs_key :: "'vk option"
  rs_db :: "pystr option"
  rs_cache :: "signed_state option"
  rs_file :: state_file

definition new_root_service :: "state_file \<Rightarrow> 'vk option \<Rightarrow> 'vk root_service" where
  "new_root_service file verifying_key =
     \<lparr>rs_key = verifying_key, rs_db = None, rs_cache = None, rs_file = file\<rparr>"

type_synonym 'vk state_check = "'vk \<Rightarrow> signed_state \<Rightarrow> exn + unit"

definition checked :: "'vk state_check \<Rightarrow> 'vk option \<Rightarrow> signed_state \<Rightarrow> exn + signed_state" where
  "checked verify key state =
     (if st_tx state = 0 then Inr state
      else case key of
        None \<Rightarrow> Inl UnverifiedNoKey
      | Some vk \<Rightarrow>
          (case verify vk state of
             Inl (BadSignatureError _) \<Rightarrow> Inl (UnverifiedBadSignature (st_tx state))
           | Inl exc \<Rightarrow> Inl exc
           | Inr _ \<Rightarrow> Inr state))"

text \<open>\<open>_head\<close>: \<open>answer\<close> is what the ledger's \<open>CurrentState\<close> call gives.\<close>

definition rs_head :: "'vk state_check \<Rightarrow> 'vk root_service \<Rightarrow> exn + signed_state \<Rightarrow> exn + signed_state" where
  "rs_head verify rs answer = bind_sum answer (checked verify (rs_key rs))"

text \<open>What the state file holds for a database, however it got there: the file is not checked.\<close>

definition rs_stored :: "pystr \<Rightarrow> 'vk root_service \<Rightarrow> signed_state option" where
  "rs_stored dbname rs = (case rs_file rs of States states \<Rightarrow> map_of states dbname | _ \<Rightarrow> None)"

definition rs_init ::
  "'vk state_check \<Rightarrow> pystr \<Rightarrow> exn + signed_state \<Rightarrow> 'vk root_service \<Rightarrow> (exn + unit) \<times> 'vk root_service" where
  "rs_init verify dbname answer rs =
     (let rs = rs\<lparr>rs_db := Some dbname, rs_cache := rs_stored dbname rs\<rparr>
      in if rs_cache rs \<noteq> None then (Inr (), rs)
         else case rs_head verify rs answer of
           Inl exc \<Rightarrow> (Inl exc, rs)
         | Inr state \<Rightarrow> (Inr (), rs\<lparr>rs_cache := Some state\<rparr>))"

definition rs_get ::
  "'vk state_check \<Rightarrow> exn + signed_state \<Rightarrow> 'vk root_service \<Rightarrow> (exn + signed_state) \<times> 'vk root_service" where
  "rs_get verify answer rs =
     (case rs_cache rs of
        Some state \<Rightarrow> (Inr state, rs)
      | None \<Rightarrow>
          (case rs_head verify rs answer of
             Inl exc \<Rightarrow> (Inl exc, rs)
           | Inr state \<Rightarrow> (Inr state, rs\<lparr>rs_cache := Some state\<rparr>)))"

text \<open>
  The file is written after the cache. Opening it for writing empties it, so a write that fails
  after the file was opened leaves one that does not load.
\<close>

datatype saving = Saved | NotOpened exn | CutShort exn

definition rs_set ::
  "'vk state_check \<Rightarrow> saving \<Rightarrow> signed_state \<Rightarrow> 'vk root_service \<Rightarrow> (exn + unit) \<times> 'vk root_service" where
  "rs_set verify saved state rs =
     (case checked verify (rs_key rs) state of
        Inl exc \<Rightarrow> (Inl exc, rs)
      | Inr _ \<Rightarrow>
          let back = (case rs_cache rs of Some held \<Rightarrow> st_tx state < st_tx held | None \<Rightarrow> False)
          in if back then (Inl (UnverifiedBackwards (st_tx (the (rs_cache rs))) (st_tx state)), rs)
             else
               let moved = rs\<lparr>rs_cache := Some state\<rparr>;
                   states = (case rs_file rs of States states \<Rightarrow> states | _ \<Rightarrow> [])
               in case saved of
                    NotOpened exc \<Rightarrow> (Inl exc, moved)
                  | CutShort exc \<Rightarrow> (Inl exc, moved\<lparr>rs_file := Unreadable\<rparr>)
                  | Saved \<Rightarrow> (Inr (), moved\<lparr>rs_file := States ((the (rs_db rs), state) # states)\<rparr>))"

section \<open>The life of an anchor\<close>

text \<open>One call on the service, with what the ledger and the file system answer.\<close>

inductive anchor_step :: "'vk state_check \<Rightarrow> 'vk root_service \<Rightarrow> 'vk root_service \<Rightarrow> bool" for verify where
  got: "rs_get verify answer rs = (r, rs') \<Longrightarrow> anchor_step verify rs rs'"
| moved: "rs_set verify saved state rs = (r, rs') \<Longrightarrow> anchor_step verify rs rs'"

inductive_cases anchor_stepE: "anchor_step verify rs rs'"

inductive anchor_run :: "'vk state_check \<Rightarrow> 'vk root_service \<Rightarrow> 'vk root_service \<Rightarrow> bool" for verify where
  start: "anchor_run verify rs rs"
| run: "anchor_run verify rs rs' \<Longrightarrow> anchor_step verify rs' rs'' \<Longrightarrow> anchor_run verify rs rs''"

text \<open>A state is trusted when it is empty or its signature was checked.\<close>

definition trusted :: "'vk state_check \<Rightarrow> 'vk option \<Rightarrow> signed_state \<Rightarrow> bool" where
  "trusted verify key state \<longleftrightarrow> st_tx state = 0 \<or> (\<exists>vk. key = Some vk \<and> verify vk state = Inr ())"

lemma checked_Inr: "checked verify key state = Inr s \<Longrightarrow> s = state \<and> trusted verify key state"
  by (auto simp: checked_def trusted_def split: if_splits option.splits sum.splits exn.splits)

lemma rs_head_Inr: "rs_head verify rs answer = Inr s \<Longrightarrow> trusted verify (rs_key rs) s"
  by (auto simp: rs_head_def bind_sum_Inr_iff dest: checked_Inr)

definition no_earlier :: "signed_state option \<Rightarrow> signed_state option \<Rightarrow> bool" where
  "no_earlier old new \<longleftrightarrow> (\<forall>a. old = Some a \<longrightarrow> (\<exists>b. new = Some b \<and> st_tx a \<le> st_tx b))"

lemma anchor_step_facts:
  assumes "anchor_step verify rs rs'"
  shows "rs_key rs' = rs_key rs \<and> no_earlier (rs_cache rs) (rs_cache rs') \<and>
    (rs_cache rs' = rs_cache rs \<or> (\<exists>a. rs_cache rs' = Some a \<and> trusted verify (rs_key rs) a))"
  using assms
  by (elim anchor_stepE)
    (auto simp: rs_get_def rs_set_def no_earlier_def Let_def not_less
      split: option.splits sum.splits saving.splits if_splits dest: rs_head_Inr checked_Inr)

section \<open>Properties\<close>

text \<open>
  C11: however the service is called and whatever the ledger and the file system answer, the
  anchor never moves to an earlier transaction, and every anchor it moves to is the empty
  state or one whose signature checked out under the configured key.
\<close>

theorem anchor_only_moves_forward_to_checked_states:
  assumes "anchor_run verify rs rs'"
  shows "no_earlier (rs_cache rs) (rs_cache rs') \<and>
    (rs_cache rs' = rs_cache rs \<or> (\<exists>a. rs_cache rs' = Some a \<and> trusted verify (rs_key rs) a))"
proof -
  have "rs_key rs' = rs_key rs \<and> no_earlier (rs_cache rs) (rs_cache rs') \<and>
    (rs_cache rs' = rs_cache rs \<or> (\<exists>a. rs_cache rs' = Some a \<and> trusted verify (rs_key rs) a))"
    using assms
  proof (induction rule: anchor_run.induct)
    case (run rs rs' rs'')
    then show ?case
      using anchor_step_facts [OF run.hyps(2)] by (fastforce simp: no_earlier_def)
  qed (simp add: no_earlier_def)
  then show ?thesis by blast
qed

definition accept_all :: "unit state_check" where
  "accept_all vk state = Inr ()"

definition state_at :: "int \<Rightarrow> signed_state" where
  "state_at n = \<lparr>st_db = lit ''defaultdb'', st_tx = n, st_hash = [], st_sig = []\<rparr>"

theorem anchor_only_moves_forward_to_checked_states_witness:
  "no_earlier (Some (state_at 3)) (Some (state_at 5))"
proof -
  let ?rs = "new_root_service Missing (Some ())\<lparr>rs_db := Some [], rs_cache := Some (state_at 3)\<rparr>"
  obtain r rs' where r: "rs_set accept_all Saved (state_at 5) ?rs = (r, rs')" by fastforce
  then have "rs_cache rs' = Some (state_at 5)"
    by (auto simp: rs_set_def new_root_service_def checked_def accept_all_def state_at_def)
  then show ?thesis
    using anchor_only_moves_forward_to_checked_states [OF anchor_run.run [OF anchor_run.start anchor_step.moved [OF r]]]
    by simp
qed

text \<open>
  C12: a first boot, with no state file or none for this database, starts from a state whose
  signature was checked, or does not start: without a configured key it starts only on an empty
  ledger.
\<close>

theorem first_boot_is_checked:
  assumes "case rs_file rs of States states \<Rightarrow> map_of states db = None | _ \<Rightarrow> True"
  shows "case rs_init verify db answer rs of
      (Inr _, rs') \<Rightarrow> (\<exists>a. answer = Inr a \<and> rs_cache rs' = Some a \<and> trusted verify (rs_key rs) a \<and>
         (rs_key rs = None \<longrightarrow> st_tx a = 0))
    | (Inl exc, rs') \<Rightarrow> rs_cache rs' = None"
  using assms
  by (auto simp: rs_init_def rs_stored_def rs_head_def Let_def bind_sum_def split: state_file.splits sum.splits
      dest!: checked_Inr) (auto simp: trusted_def)

theorem first_boot_is_checked_witness:
  "case rs_init accept_all [] (Inr (state_at 7)) (new_root_service Missing (Some ())) of
      (Inr _, rs') \<Rightarrow> (\<exists>a. Inr (state_at 7) = (Inr a :: exn + signed_state) \<and> rs_cache rs' = Some a \<and>
         trusted accept_all (rs_key (new_root_service Missing (Some ()))) a \<and>
         (rs_key (new_root_service Missing (Some ())) = None \<longrightarrow> st_tx a = 0))
    | (Inl exc, rs') \<Rightarrow> rs_cache rs' = None"
  by (rule first_boot_is_checked) (simp add: new_root_service_def)

end
