(* ===== verification/VerifierState.thy ===== *)
theory VerifierState
  imports FaultKey Reserve TrustAnchor
begin

text \<open>
  The state of the verifier process (\<open>verifier/main.py\<close>) and what it is configured with:
  the connection, the writer's keys and the two caches of the ordered write are globals of the
  module, so they are fields of \<open>vstate\<close>; everything the process is handed at start (the
  client library, the file system, the clock, the environment variables) is a field of
  \<open>venv\<close>.
\<close>

record ('w, 'sk, 'vk) vstate =
  world :: 'w
  client_held :: bool
  writer_keys :: "('sk \<times> 'vk) option"
  seq_cache :: "(int \<times> int) option"
  reserve_cache :: "int option"
  root :: "'vk root_service"
  fingerprint_cache :: "pystr option"

text \<open>What a verified read gives: the record, and the state the proof advanced to.\<close>

record sdk_entry =
  en_id :: int
  en_value :: bytes
  en_timestamp :: int

record ('w, 'sk, 'vk) venv =
  ve_im :: "'w immudb"
  ve_new_client :: "('w, unit) io"
  ve_login :: "('w, unit) io"
  ve_crypto :: "('sk, 'vk) crypto"
  ve_repr :: "json \<Rightarrow> pystr"
  ve_read_key :: pystr
  ve_write_key :: pystr
  ve_key_path :: string
  ve_path_exists :: bool
  ve_load_key :: "exn + 'sk"
  ve_nonce :: "'w \<Rightarrow> pystr"
  ve_now :: "'w \<Rightarrow> pystr"
  ve_reserved :: int
  ve_max_attempts :: int
  ve_cache_enabled :: bool
  ve_vk :: "'vk option"
  ve_pubkey_there :: bool
  ve_load_pubkey :: "exn + 'vk"
  ve_verify_state :: "'vk state_check"
  ve_verifiable_get :: "bytes \<Rightarrow> int \<Rightarrow> ('w, bytes) io"
  ve_sdk_check :: "bytes \<Rightarrow> signed_state \<Rightarrow> bytes \<Rightarrow> 'vk option \<Rightarrow> exn + sdk_entry \<times> signed_state"
  ve_save_state :: "'w \<Rightarrow> saving"
  ve_db :: pystr

type_synonym ('w, 'sk, 'vk, 'a) vio = "(('w, 'sk, 'vk) vstate, 'a) io"

section \<open>Calls into the world\<close>

definition on_world :: "('w, 'a) io \<Rightarrow> ('w, 'sk, 'vk, 'a) vio" where
  "on_world m s = (case m (world s) of (r, w') \<Rightarrow> (r, s\<lparr>world := w'\<rparr>))"

lemma on_world_frame:
  "on_world m s = (r, s') \<Longrightarrow> client_held s' = client_held s \<and> writer_keys s' = writer_keys s \<and>
     seq_cache s' = seq_cache s \<and> reserve_cache s' = reserve_cache s \<and> root s' = root s"
  by (auto simp: on_world_def split: prod.splits)

definition peek :: "('s \<Rightarrow> 'a) \<Rightarrow> ('s, 'a) io" where
  "peek f s = (Inr (f s), s)"

definition poke :: "('s \<Rightarrow> 's) \<Rightarrow> ('s, unit) io" where
  "poke f s = (Inr (), f s)"

section \<open>The connection and the writer's keys\<close>

definition state_verifying_key :: "('w, 'sk, 'vk) venv \<Rightarrow> exn + 'vk option" where
  "state_verifying_key env =
     (if \<not> ve_pubkey_there env then Inr None else map_sum id Some (ve_load_pubkey env))"

text \<open>
  The login of the client library ends in a call back to \<open>init\<close> of the root service. The
  ledger is asked for its state only when the file holds none for the database.
\<close>

definition anchor_init :: "('w, 'sk, 'vk) venv \<Rightarrow> ('w, 'sk, 'vk, unit) vio" where
  "anchor_init env =
     bind_io (peek (\<lambda>s. rs_stored (ve_db env) (root s))) (\<lambda>stored.
       attempt (case stored of Some state \<Rightarrow> ret state | None \<Rightarrow> on_world (im_current_state (ve_im env)))
         (\<lambda>answer s. case rs_init (ve_verify_state env) (ve_db env) answer (root s) of
            (r, rs') \<Rightarrow> (r, s\<lparr>root := rs'\<rparr>)))"

definition log_in :: "('w, 'sk, 'vk) venv \<Rightarrow> ('w, 'sk, 'vk, unit) vio" where
  "log_in env = bind_io (on_world (ve_login env)) (\<lambda>_. anchor_init env)"

text \<open>\<open>_client\<close> is assigned before the login, so a failed login leaves it held.\<close>

definition get_client :: "('w, 'sk, 'vk) venv \<Rightarrow> ('w, 'sk, 'vk, unit) vio" where
  "get_client env =
     bind_io (peek client_held) (\<lambda>held.
       if held then ret ()
       else bind_io (lift_io (state_verifying_key env)) (\<lambda>key.
              bind_io (poke (root_update (\<lambda>rs. new_root_service (rs_file rs) key))) (\<lambda>_.
                bind_io (on_world (ve_new_client env)) (\<lambda>_.
                  bind_io (poke (client_held_update (\<lambda>_. True))) (\<lambda>_. log_in env)))))"

definition get_writer_keys :: "('w, 'sk, 'vk) venv \<Rightarrow> ('w, 'sk, 'vk, 'sk \<times> 'vk) vio" where
  "get_writer_keys env =
     bind_io (peek writer_keys) (\<lambda>held. case held of
       Some ks \<Rightarrow> ret ks
     | None \<Rightarrow>
         if ve_key_path env = [] then raise_io WriterKeyUnset
         else if \<not> ve_path_exists env then raise_io (WriterKeyMissing (ve_key_path env))
         else bind_io (lift_io (ve_load_key env)) (\<lambda>sk.
                let ks = (sk, verifying_key_of (ve_crypto env) sk)
                in bind_io (poke (writer_keys_update (\<lambda>_. Some ks))) (\<lambda>_. ret ks)))"

section \<open>Credentials\<close>

definition require_read_key :: "('w, 'sk, 'vk) venv \<Rightarrow> pystr \<Rightarrow> http_error + unit" where
  "require_read_key env x_api_key =
     (if ve_read_key env = [] then Inl (HTTPException 503)
      else if x_api_key \<noteq> ve_read_key env then Inl (HTTPException 403)
      else Inr ())"

definition require_write_key :: "('w, 'sk, 'vk) venv \<Rightarrow> pystr \<Rightarrow> http_error + unit" where
  "require_write_key env x_api_key =
     (if ve_write_key env = [] then Inl (HTTPException 503)
      else if x_api_key \<noteq> ve_write_key env then Inl (HTTPException 403)
      else Inr ())"

lemma require_write_key_iff:
  "require_write_key env k = Inr () \<longleftrightarrow> k = ve_write_key env \<and> k \<noteq> []"
  by (auto simp: require_write_key_def)

lemma require_read_key_iff:
  "require_read_key env k = Inr () \<longleftrightarrow> k = ve_read_key env \<and> k \<noteq> []"
  by (auto simp: require_read_key_def)

section \<open>Steps that only let others in\<close>

text \<open>The history the process sees, and the steps that append nothing of their own.\<close>

definition vhist :: "('w \<Rightarrow> history) \<Rightarrow> ('w, 'sk, 'vk) vstate \<Rightarrow> history" where
  "vhist hist s = hist (world s)"

lemma vhist_simps [simp]:
  "vhist hist (s\<lparr>client_held := b\<rparr>) = vhist hist s"
  "vhist hist (s\<lparr>writer_keys := k\<rparr>) = vhist hist s"
  "vhist hist (s\<lparr>seq_cache := c\<rparr>) = vhist hist s"
  "vhist hist (s\<lparr>reserve_cache := r\<rparr>) = vhist hist s"
  "vhist hist (s\<lparr>root := t\<rparr>) = vhist hist s"
  "vhist hist (s\<lparr>fingerprint_cache := p\<rparr>) = vhist hist s"
  "vhist hist (s\<lparr>world := w\<rparr>) = hist w"
  by (simp_all add: vhist_def)

definition keeps :: "(history \<Rightarrow> tx \<Rightarrow> bool) \<Rightarrow> ('s \<Rightarrow> history) \<Rightarrow> ('s, 'a) io \<Rightarrow> bool" where
  "keeps E h m \<longleftrightarrow> (\<forall>s r s'. m s = (r, s') \<longrightarrow> grows E (h s) (h s'))"

lemma keepsD: "keeps E h m \<Longrightarrow> m s = (r, s') \<Longrightarrow> grows E (h s) (h s')"
  by (simp add: keeps_def)

lemma keeps_ret [frame_intros]: "keeps E h (ret x)"
  by (simp add: keeps_def ret_def grows.same)

lemma keeps_raise [frame_intros]: "keeps E h (raise_io e)"
  by (simp add: keeps_def raise_io_def grows.same)

lemma keeps_lift [frame_intros]: "keeps E h (lift_io r)"
  by (simp add: keeps_def lift_io_def grows.same)

lemma keeps_peek [frame_intros]: "keeps E h (peek f)"
  by (simp add: keeps_def peek_def grows.same)

lemma keeps_poke: "(\<And>s. h (f s) = h s) \<Longrightarrow> keeps E h (poke f)"
  by (simp add: keeps_def poke_def grows.same)

lemma keeps_bind [frame_intros]:
  assumes "keeps E h m" "\<And>x. keeps E h (f x)"
  shows "keeps E h (bind_io m f)"
  using assms unfolding keeps_def bind_io_def
  by (fastforce split: prod.splits sum.splits intro: grows_trans)

lemma keeps_attempt [frame_intros]:
  assumes "keeps E h m" "\<And>r. keeps E h (k r)"
  shows "keeps E h (attempt m k)"
  using assms unfolding keeps_def attempt_def
  by (fastforce split: prod.splits intro: grows_trans)

lemma keeps_on_world [frame_intros]:
  "reads_ok E hist m \<Longrightarrow> keeps E (vhist hist) (on_world m)"
  unfolding keeps_def on_world_def reads_ok_def vhist_def
  by (auto split: prod.splits) (metis snd_conv)

lemma keeps_pokes [frame_intros]:
  "keeps E (vhist hist) (poke (client_held_update f))"
  "keeps E (vhist hist) (poke (writer_keys_update g))"
  "keeps E (vhist hist) (poke (seq_cache_update c))"
  "keeps E (vhist hist) (poke (reserve_cache_update r))"
  "keeps E (vhist hist) (poke (root_update t))"
  "keeps E (vhist hist) (poke (fingerprint_cache_update p))"
  by (auto intro!: keeps_poke simp: vhist_def)

lemma keeps_get_writer_keys [frame_intros]: "keeps E (vhist hist) (get_writer_keys env)"
  unfolding get_writer_keys_def Let_def
  by (intro frame_intros) (auto intro!: frame_intros split: option.split)

text \<open>What the development relies on in the environment of the process.\<close>

definition venv_ok ::
  "(history \<Rightarrow> tx \<Rightarrow> bool) \<Rightarrow> ('w \<Rightarrow> history) \<Rightarrow> ('w, 'sk, 'vk) venv \<Rightarrow> bool" where
  "venv_ok E hist env \<longleftrightarrow>
     immudb_ok E hist (ve_im env) \<and> reads_ok E hist (ve_new_client env) \<and>
     reads_ok E hist (ve_login env) \<and> (\<forall>k n. reads_ok E hist (ve_verifiable_get env k n)) \<and> crypto_ok (ve_crypto env) \<and>
     (\<forall>w. nonce_ok (ve_nonce env w)) \<and> (\<forall>w. list_all is_scalar (ve_now env w)) \<and> reserve_in_range (ve_reserved env)"

lemma keeps_anchor_init [frame_intros]:
  assumes "venv_ok E hist env"
  shows "keeps E (vhist hist) (anchor_init env)"
proof -
  have c: "reads_ok E hist (im_current_state (ve_im env))"
    using assms by (simp add: venv_ok_def immudb_ok_def)
  have "keeps E (vhist hist) (\<lambda>s. case rs_init v db answer (root s) of (r, rs') \<Rightarrow> (r, s\<lparr>root := rs'\<rparr>))" for v db answer
    by (auto simp: keeps_def grows.same split: prod.splits)
  then show ?thesis unfolding anchor_init_def using c
    by (intro frame_intros) (auto intro: frame_intros split: option.split)
qed

lemma keeps_get_client [frame_intros]:
  "venv_ok E hist env \<Longrightarrow> keeps E (vhist hist) (get_client env)"
  unfolding get_client_def log_in_def
  by (intro frame_intros) (auto intro!: frame_intros simp: venv_ok_def)

text \<open>What opening a connection leaves as it is.\<close>

lemma anchor_init_frame:
  "anchor_init env s = (r, s') \<Longrightarrow> client_held s' = client_held s \<and> writer_keys s' = writer_keys s \<and>
     seq_cache s' = seq_cache s \<and> reserve_cache s' = reserve_cache s \<and> fingerprint_cache s' = fingerprint_cache s"
  by (auto simp: anchor_init_def bind_io_def peek_def attempt_def ret_def on_world_def
      split: prod.splits option.splits)

lemma get_client_frame:
  "get_client env s = (r, s') \<Longrightarrow> writer_keys s' = writer_keys s \<and> seq_cache s' = seq_cache s \<and>
     reserve_cache s' = reserve_cache s \<and> fingerprint_cache s' = fingerprint_cache s"
  by (auto simp: get_client_def log_in_def bind_io_def peek_def poke_def ret_def lift_io_def on_world_def
      split: if_splits sum.splits prod.splits dest!: anchor_init_frame)

lemma keeps_client_reads [frame_intros]:
  assumes "venv_ok E hist env"
  shows "keeps E (vhist hist) (on_world (im_get (ve_im env) k))"
    "keeps E (vhist hist) (on_world (im_verified_get (ve_im env) k))"
    "keeps E (vhist hist) (on_world (im_zscan (ve_im env) z lo hi n))"
    "keeps E (vhist hist) (on_world (im_current_state (ve_im env)))"
  using assms
  by (auto simp: venv_ok_def immudb_ok_def get_ok_def zscan_ok_def intro!: keeps_on_world)

text \<open>An environment over the client in memory, for the witnesses.\<close>

definition test_env :: "(history \<times> fault_script, bytes, bytes) venv" where
  "test_env = \<lparr>ve_im = mem, ve_new_client = ret (), ve_login = ret (), ve_crypto = test_crypto,
     ve_repr = dumps, ve_read_key = lit ''r'', ve_write_key = lit ''w'', ve_key_path = ''/k'',
     ve_path_exists = True, ve_load_key = Inr ''sk'', ve_nonce = (\<lambda>_. replicate 16 97),
     ve_now = (\<lambda>_. lit ''now''), ve_reserved = 1000, ve_max_attempts = 3,
     ve_cache_enabled = True, ve_vk = None, ve_pubkey_there = False, ve_load_pubkey = Inr [],
     ve_verify_state = (\<lambda>_ _. Inr ()), ve_verifiable_get = (\<lambda>k n w. (Inr k, w)),
     ve_sdk_check = (\<lambda>e st k vk. Inr (\<lparr>en_id = 1, en_value = e, en_timestamp = 0\<rparr>, st)),
     ve_save_state = (\<lambda>_. Saved), ve_db = lit ''defaultdb''\<rparr>"

definition test_state :: "history \<Rightarrow> fault_script \<Rightarrow> (history \<times> fault_script, bytes, bytes) vstate" where
  "test_state h fs = \<lparr>world = (h, fs), client_held = True, writer_keys = None, seq_cache = None,
     reserve_cache = None, root = new_root_service Missing None, fingerprint_cache = None\<rparr>"

lemma test_env_ok: "venv_ok E fst test_env"
  by (simp add: venv_ok_def test_env_def mem_ok test_crypto_ok reads_ok_def ret_def grows.same
      nonce_ok_def reserve_in_range_def MAX_POSITION_def lit_def is_scalar_def is_surrogate_def)

end
