(* ===== verification/WritePath.thy ===== *)
theory WritePath
  imports VerifierState
begin

text \<open>
  The plain write route of the verifier and the fault record (\<open>verifier/main.py\<close>): what
  is refused, what is written without a proof, how a write that raised is looked up again, and
  what \<open>POST /write\<close> then answers.
\<close>

section \<open>Looking a write up again\<close>

datatype presence = PRESENT int | ABSENT | NOT_FOUND | UNKNOWN

definition committed_tx_for_value ::
  "('w, 'sk, 'vk) venv \<Rightarrow> bytes \<Rightarrow> bytes \<Rightarrow> ('w, 'sk, 'vk, presence) vio" where
  "committed_tx_for_value env key value =
     attempt (on_world (im_get (ve_im env) key)) (\<lambda>r. case r of
       Inl exc \<Rightarrow> ret UNKNOWN
     | Inr None \<Rightarrow> ret NOT_FOUND
     | Inr (Some (got, tx)) \<Rightarrow> ret (if got \<noteq> value then ABSENT else PRESENT tx))"

definition committed_tx_for :: "('w, 'sk, 'vk) venv \<Rightarrow> bytes \<Rightarrow> ('w, 'sk, 'vk, presence) vio" where
  "committed_tx_for env key =
     attempt (on_world (im_get (ve_im env) key)) (\<lambda>r. case r of
       Inl exc \<Rightarrow> ret UNKNOWN
     | Inr None \<Rightarrow> ret NOT_FOUND
     | Inr (Some (got, tx)) \<Rightarrow> ret (PRESENT tx))"

section \<open>The fault record\<close>

definition set_without_verification ::
  "('w, 'sk, 'vk) venv \<Rightarrow> bytes \<Rightarrow> bytes \<Rightarrow> ('w, 'sk, 'vk, int) vio" where
  "set_without_verification env key value =
     (case loads_bytes value of
        None \<Rightarrow> raise_io NotAFaultRecord
      | Some parsed \<Rightarrow>
          let record_type = (case parsed of JObj d \<Rightarrow> dict_get d (lit ''record_type'') | _ \<Rightarrow> None)
          in if record_type \<noteq> Some (JStr FAULT_RECORD_TYPE) then raise_io NotAFaultRecord
             else on_world (im_set (ve_im env) key value))"

datatype fault_error = FaultNotPlaced presence | FaultTxDiffers int int | FaultRaised exn

definition remediation :: pystr where
  "remediation = lit (''The record committed and its write-time proof did not check out. '' @
     ''It is in the ledger and on the ordered page, and its verification '' @
     ''state at read time is computed fresh, so it may read verified once '' @
     ''the trust anchor is repaired - which is why this record exists. Run '' @
     ''the sequence reconciliation in anchor_service to find what else is '' @
     ''affected, and see docs/adr/0014-ordered-audit-view-index.md.'')"

definition json_opt :: "('a \<Rightarrow> json) \<Rightarrow> 'a option \<Rightarrow> json" where
  "json_opt f x = (case x of None \<Rightarrow> JNull | Some a \<Rightarrow> f a)"

definition fault_body ::
  "('sk, 'vk) crypto \<Rightarrow> (json \<Rightarrow> pystr) \<Rightarrow> bytes \<Rightarrow> bytes \<Rightarrow> int \<Rightarrow> int option \<Rightarrow> pystr option \<Rightarrow>
   pystr \<Rightarrow> pystr \<Rightarrow> pystr \<Rightarrow> dict" where
  "fault_body C prepr record_key record_value tx_id seq view error_class detail now =
     [(lit ''record_type'', JStr FAULT_RECORD_TYPE),
      (lit ''fault_class'', JStr (lit ''write_verification_failed'')),
      (lit ''call_id'', JStr (fault_identity C prepr record_value record_key)),
      (lit ''committed_key'', JStr (utf8_decode_replace record_key)),
      (lit ''committed_tx_id'', JInt tx_id),
      (lit ''committed_position'', json_opt JInt seq),
      (lit ''view'', json_opt JStr view),
      (lit ''error_class'', JStr error_class),
      (lit ''detail'', JStr detail),
      (lit ''timestamp'', JStr now),
      (lit ''writer'', JStr (lit ''verifier'')),
      (lit ''remediation'', JStr remediation)]"

text \<open>Signing the body and setting it under its key, inside the route's own \<open>try\<close>.\<close>

definition store_fault ::
  "('w, 'sk, 'vk) venv \<Rightarrow> dict \<Rightarrow> pystr \<Rightarrow> ('w, 'sk, 'vk, int) vio" where
  "store_fault env fault key =
     bind_io (get_writer_keys env) (\<lambda>(signing_key, verifying_key).
       let signed = sign_record (ve_crypto env) fault signing_key verifying_key;
           raw = encode_ascii (dumps_compact (JObj signed))
       in bind_io (lift_io (of_option UnicodeError (utf8_encode key))) (\<lambda>k.
            set_without_verification env k raw))"

definition write_fault_record ::
  "('w, 'sk, 'vk) venv \<Rightarrow> bytes \<Rightarrow> bytes \<Rightarrow> int option \<Rightarrow> int option \<Rightarrow> pystr option \<Rightarrow>
   pystr \<Rightarrow> pystr \<Rightarrow> ('w, 'sk, 'vk, pystr option \<times> fault_error option) vio" where
  "write_fault_record env record_key record_value tx_id seq view error_class detail =
     bind_io (committed_tx_for_value env record_key record_value) (\<lambda>state.
       case state of
         PRESENT derived_tx \<Rightarrow>
           if tx_id \<noteq> None \<and> the tx_id \<noteq> derived_tx
           then ret (None, Some (FaultTxDiffers (the tx_id) derived_tx))
           else
             bind_io (peek (\<lambda>s. ve_nonce env (world s))) (\<lambda>nonce.
               case fault_key (ve_crypto env) (ve_repr env) record_value record_key derived_tx nonce of
                 Inl exc \<Rightarrow> ret (None, Some (FaultRaised exc))
               | Inr key \<Rightarrow>
                   bind_io (peek (\<lambda>s. ve_now env (world s))) (\<lambda>now.
                     attempt (store_fault env
                         (fault_body (ve_crypto env) (ve_repr env) record_key record_value derived_tx
                            seq view error_class detail now) key)
                       (\<lambda>r. case r of
                          Inl exc \<Rightarrow> ret (None, Some (FaultRaised exc))
                        | Inr fault_tx \<Rightarrow> ret (Some key, None))))
       | s \<Rightarrow> ret (None, Some (FaultNotPlaced s)))"

section \<open>What the plain route refuses\<close>

datatype refusal =
    RefusedPrefix bytes
  | RecordTypeNotText
  | FaultRecordRefused
  | OrderedRouteOnly pystr

definition REFUSED_ON_PLAIN_WRITE :: "pystr list" where
  "REFUSED_ON_PLAIN_WRITE = [lit ''decision'', lit ''decision_intent'', FAULT_RECORD_TYPE]"

definition FAULT_KEY_PREFIX_BYTES :: bytes where
  "FAULT_KEY_PREFIX_BYTES = encode_ascii FAULT_KEY_PREFIX"

definition REFUSED_KEY_PREFIXES :: "bytes list" where
  "REFUSED_KEY_PREFIXES = [''tool_call:'', ''tool_call_intent:'', FAULT_KEY_PREFIX_BYTES]"

definition refuse_reason_for_ordered_write :: "bytes \<Rightarrow> bytes \<Rightarrow> refusal option" where
  "refuse_reason_for_ordered_write key value =
     (if starts_with key FAULT_KEY_PREFIX_BYTES then Some (RefusedPrefix FAULT_KEY_PREFIX_BYTES)
      else case loads_bytes value of
        Some (JObj parsed) \<Rightarrow>
          if dict_get parsed (lit ''record_type'') = Some (JStr FAULT_RECORD_TYPE)
          then Some FaultRecordRefused else None
      | _ \<Rightarrow> None)"

definition refuse_reason_for_plain_write :: "bytes \<Rightarrow> bytes \<Rightarrow> refusal option" where
  "refuse_reason_for_plain_write key value =
     (case find (starts_with key) REFUSED_KEY_PREFIXES of
        Some pre \<Rightarrow> Some (RefusedPrefix pre)
      | None \<Rightarrow>
          (case loads_bytes value of
             Some (JObj parsed) \<Rightarrow>
               (case dict_get parsed (lit ''record_type'') of
                  None \<Rightarrow> None
                | Some JNull \<Rightarrow> None
                | Some (JStr record_type) \<Rightarrow>
                    if record_type = FAULT_RECORD_TYPE then Some FaultRecordRefused
                    else if record_type \<in> set REFUSED_ON_PLAIN_WRITE
                      then Some (OrderedRouteOnly record_type)
                    else None
                | Some _ \<Rightarrow> Some RecordTypeNotText)
           | _ \<Rightarrow> None))"

section \<open>\<open>POST /write\<close>\<close>

record write_request =
  wq_key :: pystr
  wq_value :: pystr

datatype write_detail =
    Raised exn
  | ProofFailedUnread
  | ProofFailedNothingFound
  | ProofFailedAt int "fault_error option"
  | RaisedUnread exn
  | RaisedNothingFound exn
  | RaisedCommittedAt exn int

record write_response =
  wr_tx_id :: "int option"
  wr_verified :: bool
  wr_committed :: "bool option"
  wr_error_class :: "pystr option"
  wr_fault_record :: "pystr option"
  wr_fault_error :: "fault_error option"
  wr_detail :: "write_detail option"

definition error_class_of :: "exn \<Rightarrow> pystr" where
  "error_class_of exc =
     (case exc of ErrCorruptedData _ \<Rightarrow> lit ''consistency_failure'' | _ \<Rightarrow> lit ''signature_failure'')"

definition unverified :: "int option \<Rightarrow> bool option \<Rightarrow> write_detail \<Rightarrow> write_response" where
  "unverified tx landed d =
     \<lparr>wr_tx_id = tx, wr_verified = False, wr_committed = landed, wr_error_class = None,
      wr_fault_record = None, wr_fault_error = None, wr_detail = Some d\<rparr>"

text \<open>The proof of the write did not check out: the commit precedes the proof.\<close>

definition write_proof_failed ::
  "('w, 'sk, 'vk) venv \<Rightarrow> bytes \<Rightarrow> bytes \<Rightarrow> exn \<Rightarrow> ('w, 'sk, 'vk, write_response) vio" where
  "write_proof_failed env key value exc =
     bind_io (committed_tx_for env key) (\<lambda>state. case state of
       PRESENT tx_id \<Rightarrow>
         bind_io (write_fault_record env key value (Some tx_id) None None (error_class_of exc)
                    (lit ''proof verification failed'')) (\<lambda>(fault_key, fault_error).
           ret \<lparr>wr_tx_id = Some tx_id, wr_verified = False, wr_committed = Some True,
                wr_error_class = Some (error_class_of exc), wr_fault_record = fault_key,
                wr_fault_error = fault_error, wr_detail = Some (ProofFailedAt tx_id fault_error)\<rparr>)
     | UNKNOWN \<Rightarrow>
         ret (unverified None None ProofFailedUnread\<lparr>wr_error_class := Some (error_class_of exc)\<rparr>)
     | _ \<Rightarrow>
         ret (unverified None None ProofFailedNothingFound\<lparr>wr_error_class := Some (error_class_of exc)\<rparr>))"

text \<open>The write raised anything else: whether it committed has to be read back.\<close>

definition write_raised ::
  "('w, 'sk, 'vk) venv \<Rightarrow> bytes \<Rightarrow> bytes \<Rightarrow> exn \<Rightarrow> ('w, 'sk, 'vk, write_response) vio" where
  "write_raised env key value exc =
     bind_io (committed_tx_for_value env key value) (\<lambda>state. case state of
       UNKNOWN \<Rightarrow> ret (unverified None None (RaisedUnread exc))
     | NOT_FOUND \<Rightarrow> ret (unverified None None (RaisedNothingFound exc))
     | ABSENT \<Rightarrow> ret (unverified None (Some False) (Raised exc))
     | PRESENT tx_id \<Rightarrow> ret (unverified (Some tx_id) (Some True) (RaisedCommittedAt exc tx_id)))"

text \<open>The route after its key was decoded and not refused.\<close>

definition write_commit ::
  "('w, 'sk, 'vk) venv \<Rightarrow> bytes \<Rightarrow> bytes \<Rightarrow> ('w, 'sk, 'vk, write_response) vio" where
  "write_commit env key value =
     attempt (get_client env) (\<lambda>c. case c of
       Inl exc \<Rightarrow> ret (unverified None (Some False) (Raised exc))
     | Inr _ \<Rightarrow>
         attempt (on_world (im_verified_set (ve_im env) key value)) (\<lambda>r. case r of
           Inl exc \<Rightarrow>
             if is_proof_error exc then write_proof_failed env key value exc
             else write_raised env key value exc
         | Inr tx_id \<Rightarrow>
             attempt (on_world (im_current_state (ve_im env))) (\<lambda>_.
               ret \<lparr>wr_tx_id = Some tx_id, wr_verified = True, wr_committed = Some True,
                    wr_error_class = None, wr_fault_record = None, wr_fault_error = None,
                    wr_detail = None\<rparr>)))"

definition write_route ::
  "('w, 'sk, 'vk) venv \<Rightarrow> pystr \<Rightarrow> write_request \<Rightarrow> ('w, 'sk, 'vk, http_error + write_response) vio" where
  "write_route env x_api_key payload =
     (case require_write_key env x_api_key of
        Inl e \<Rightarrow> ret (Inl e)
      | Inr _ \<Rightarrow>
          (case (b64decode (wq_key payload), b64decode (wq_value payload)) of
             (Some key, Some value) \<Rightarrow>
               (case refuse_reason_for_plain_write key value of
                  Some refusal \<Rightarrow> ret (Inl (HTTPException 400))
                | None \<Rightarrow> bind_io (write_commit env key value) (\<lambda>r. ret (Inr r)))
           | _ \<Rightarrow> ret (Inl (HTTPException 500))))"

section \<open>Reads\<close>

lemma on_world_get:
  assumes "venv_ok E hist env" "on_world (im_get (ve_im env) k) s = (r, s')"
  shows "grows E (vhist hist s) (vhist hist s')"
    "r = Inr (Some (v, t)) \<Longrightarrow> wrote_at (vhist hist s') k v t"
proof -
  show "grows E (vhist hist s) (vhist hist s')"
    using keeps_client_reads(1) [OF assms(1)] assms(2) by (rule keepsD)
  assume r: "r = Inr (Some (v, t))"
  obtain w' where w: "im_get (ve_im env) k (world s) = (r, w')" "s' = s\<lparr>world := w'\<rparr>"
    using assms(2) by (auto simp: on_world_def split: prod.splits)
  have "get_ok E hist (ve_im env)" using assms(1) by (simp add: venv_ok_def immudb_ok_def)
  then obtain n where "lookup (take n (hist w')) k = Some (v, t)"
    using w(1) unfolding r get_ok_def by blast
  then have "wrote_at (hist w') k v t" using lookup_wrote wrote_at_take by blast
  then show "wrote_at (vhist hist s') k v t" by (simp add: w(2))
qed

lemma committed_tx_for_value_eq:
  "on_world (im_get (ve_im env) k) s = (g, s1) \<Longrightarrow>
   committed_tx_for_value env k v s =
     (Inr (case g of Inl _ \<Rightarrow> UNKNOWN | Inr None \<Rightarrow> NOT_FOUND
           | Inr (Some (got, tx)) \<Rightarrow> if got \<noteq> v then ABSENT else PRESENT tx), s1)"
  by (simp add: committed_tx_for_value_def attempt_def ret_def split: sum.split option.split prod.split)

lemma committed_tx_for_eq:
  "on_world (im_get (ve_im env) k) s = (g, s1) \<Longrightarrow>
   committed_tx_for env k s =
     (Inr (case g of Inl _ \<Rightarrow> UNKNOWN | Inr None \<Rightarrow> NOT_FOUND
           | Inr (Some (got, tx)) \<Rightarrow> PRESENT tx), s1)"
  by (simp add: committed_tx_for_def attempt_def ret_def split: sum.split option.split prod.split)

lemma committed_tx_for_value_cases:
  assumes "venv_ok E hist env" "committed_tx_for_value env k v s = (r, s')"
  obtains p where "r = Inr p" "grows E (vhist hist s) (vhist hist s')"
    "writer_keys s' = writer_keys s"
    "\<And>t. p = PRESENT t \<Longrightarrow> wrote_at (vhist hist s') k v t"
    "p = ABSENT \<Longrightarrow> \<exists>v' t. v' \<noteq> v \<and> wrote_at (vhist hist s') k v' t"
proof -
  obtain g s1 where g: "on_world (im_get (ve_im env) k) s = (g, s1)" by fastforce
  have [simp]: "s1 = s'" and r: "r = Inr (case g of Inl _ \<Rightarrow> UNKNOWN | Inr None \<Rightarrow> NOT_FOUND
           | Inr (Some (got, tx)) \<Rightarrow> if got \<noteq> v then ABSENT else PRESENT tx)"
    using assms(2) committed_tx_for_value_eq [OF g, of v] by simp_all
  note grow = on_world_get [OF assms(1) g]
  have w: "writer_keys s' = writer_keys s" using on_world_frame [OF g] by simp
  show ?thesis
    by (rule that [OF r grow(1) [simplified] w])
      (use grow(2) in \<open>auto 4 4 split: sum.splits option.splits if_splits\<close>)
qed

lemma committed_tx_for_cases:
  assumes "venv_ok E hist env" "committed_tx_for env k s = (r, s')"
  obtains p where "r = Inr p" "grows E (vhist hist s) (vhist hist s')"
    "writer_keys s' = writer_keys s" "p \<noteq> ABSENT"
    "\<And>t. p = PRESENT t \<Longrightarrow> \<exists>v. wrote_at (vhist hist s') k v t"
proof -
  obtain g s1 where g: "on_world (im_get (ve_im env) k) s = (g, s1)" by fastforce
  have [simp]: "s1 = s'" and r: "r = Inr (case g of Inl _ \<Rightarrow> UNKNOWN | Inr None \<Rightarrow> NOT_FOUND
           | Inr (Some (got, tx)) \<Rightarrow> PRESENT tx)"
    using assms(2) committed_tx_for_eq [OF g] by simp_all
  note grow = on_world_get [OF assms(1) g]
  have w: "writer_keys s' = writer_keys s" using on_world_frame [OF g] by simp
  show ?thesis
    by (rule that [OF r grow(1) [simplified] w])
      (use grow(2) in \<open>auto split: sum.splits option.splits if_splits\<close>)
qed

section \<open>The fault record is the only thing the fault path writes\<close>

text \<open>What the fault path may append: one fault record, under a fault key.\<close>

definition fault_write :: "tx \<Rightarrow> bool" where
  "fault_write t \<longleftrightarrow> (\<exists>k v. t = [KV k v] \<and> starts_with k FAULT_KEY_PREFIX_BYTES)"

definition with_faults :: "(history \<Rightarrow> tx \<Rightarrow> bool) \<Rightarrow> history \<Rightarrow> tx \<Rightarrow> bool" where
  "with_faults E h t \<longleftrightarrow> E h t \<or> fault_write t"

lemma grows_with_faults: "grows E h h' \<Longrightarrow> grows (with_faults E) h h'"
  by (erule grows_mono) (simp add: with_faults_def)

lemma committed_with_faults:
  "committed E t h h' n \<Longrightarrow> fault_write t \<Longrightarrow> grows (with_faults E) h h'"
  unfolding committed_def
  by (meson grows.step grows_trans grows_with_faults with_faults_def)

lemma keeps_with_faults: "keeps E h m \<Longrightarrow> keeps (with_faults E) h m"
  by (auto simp: keeps_def intro: grows_with_faults)

lemma set_without_verification_cases:
  assumes "venv_ok E hist env" "set_without_verification env k v s = (r, s')"
    "starts_with k FAULT_KEY_PREFIX_BYTES"
  shows "grows (with_faults E) (vhist hist s) (vhist hist s')"
    "r = Inr n \<Longrightarrow> wrote_at (vhist hist s') k v n"
proof -
  have ok: "set_ok E hist (im_set (ve_im env))"
    using assms(1) by (simp add: venv_ok_def immudb_ok_def)
  have f: "fault_write [KV k v]" using assms(3) by (simp add: fault_write_def)
  have "r = Inl NotAFaultRecord \<and> s' = s \<or> on_world (im_set (ve_im env) k v) s = (r, s')"
    using assms(2)
    by (auto simp: set_without_verification_def raise_io_def Let_def split: option.splits if_splits)
  then consider "r = Inl NotAFaultRecord" "s' = s"
    | w' where "im_set (ve_im env) k v (world s) = (r, w')" "s' = s\<lparr>world := w'\<rparr>"
    by (auto simp: on_world_def split: prod.splits)
  then have "grows (with_faults E) (vhist hist s) (vhist hist s') \<and>
      (r = Inr n \<longrightarrow> wrote_at (vhist hist s') k v n)"
  proof cases
    case 1
    then show ?thesis by (simp add: grows.same)
  next
    case 2
    then have "case r of Inr n \<Rightarrow> committed E [KV k v] (hist (world s)) (hist w') n
        | Inl e \<Rightarrow> (\<exists>n. committed E [KV k v] (hist (world s)) (hist w') n) \<or> grows E (hist (world s)) (hist w')"
      using ok by (force simp: set_ok_def split: sum.splits)
    then show ?thesis
      using 2 f by (auto simp: vhist_def intro: committed_with_faults grows_with_faults committed_wrote
          split: sum.splits)
  qed
  then show "grows (with_faults E) (vhist hist s) (vhist hist s')"
    "r = Inr n \<Longrightarrow> wrote_at (vhist hist s') k v n" by simp_all
qed

section \<open>A fault record that was written\<close>

text \<open>The keys this process signs with are the ones it loaded.\<close>

definition writer_held_ok :: "('w, 'sk, 'vk) venv \<Rightarrow> ('w, 'sk, 'vk) vstate \<Rightarrow> bool" where
  "writer_held_ok env s \<longleftrightarrow>
     (case writer_keys s of None \<Rightarrow> True
      | Some (sk, vk) \<Rightarrow> ve_load_key env = Inr sk \<and> vk = verifying_key_of (ve_crypto env) sk)"

lemma get_writer_keys_cases:
  assumes "get_writer_keys env s = (r, s')" "writer_held_ok env s"
  shows "vhist hist s' = vhist hist s \<and>
    (\<forall>sk vk. r = Inr (sk, vk) \<longrightarrow> ve_load_key env = Inr sk \<and> vk = verifying_key_of (ve_crypto env) sk)"
  using assms
  by (auto simp: get_writer_keys_def writer_held_ok_def bind_io_def peek_def poke_def ret_def raise_io_def
      lift_io_def Let_def split: option.splits sum.splits if_splits prod.splits)

lemma fault_key_prefixed:
  assumes "fault_key C prepr v k t nonce = Inr key" "utf8_encode key = Some b"
  shows "starts_with b FAULT_KEY_PREFIX_BYTES"
proof -
  have p: "utf8_encode FAULT_KEY_PREFIX = Some FAULT_KEY_PREFIX_BYTES"
    unfolding FAULT_KEY_PREFIX_BYTES_def by (rule utf8_ascii) (simp add: FAULT_KEY_PREFIX_def lit_def)
  obtain rest where "key = FAULT_KEY_PREFIX @ rest"
    using assms(1) by (auto simp: fault_key_def fault_key_tx_bound_def Let_def split: if_splits)
  with assms(2) p show ?thesis by (auto simp: utf8_encode_append split: option.splits)
qed

lemma store_fault_cases:
  assumes "venv_ok E hist env" "store_fault env fault key s = (r, s')" "writer_held_ok env s"
    "\<forall>b. utf8_encode key = Some b \<longrightarrow> starts_with b FAULT_KEY_PREFIX_BYTES"
  shows "grows (with_faults E) (vhist hist s) (vhist hist s')"
    "r = Inr n \<Longrightarrow> \<exists>sk b. ve_load_key env = Inr sk \<and> utf8_encode key = Some b \<and>
       wrote_at (vhist hist s') b (encode_ascii (dumps_compact (JObj
         (sign_record (ve_crypto env) fault sk (verifying_key_of (ve_crypto env) sk))))) n"
proof -
  have "grows (with_faults E) (vhist hist s) (vhist hist s') \<and> (r = Inr n \<longrightarrow>
     (\<exists>sk b. ve_load_key env = Inr sk \<and> utf8_encode key = Some b \<and>
       wrote_at (vhist hist s') b (encode_ascii (dumps_compact (JObj
         (sign_record (ve_crypto env) fault sk (verifying_key_of (ve_crypto env) sk))))) n))"
    using assms(2) unfolding store_fault_def
  proof (cases rule: bind_ioE)
    case (1 e)
    then show ?thesis using get_writer_keys_cases [OF 1(1) assms(3), of hist] by (simp add: grows.same)
  next
    case (2 ks s1)
    obtain sk vk where [simp]: "ks = (sk, vk)" by fastforce
    have k: "vhist hist s1 = vhist hist s" "ve_load_key env = Inr sk"
      "vk = verifying_key_of (ve_crypto env) sk"
      using get_writer_keys_cases [OF 2(1) assms(3), of hist] by auto
    let ?raw = "encode_ascii (dumps_compact (JObj (sign_record (ve_crypto env) fault sk vk)))"
    show ?thesis
    proof (cases "utf8_encode key")
      case None
      then show ?thesis using 2(2) k(1) by (auto simp: bind_io_def lift_io_def grows.same)
    next
      case (Some b)
      then have "set_without_verification env b ?raw s1 = (r, s')"
        using 2(2) by (simp add: bind_io_def lift_io_def)
      from set_without_verification_cases [OF assms(1) this assms(4) [rule_format, OF Some]]
      show ?thesis using k Some by auto
    qed
  qed
  then show "grows (with_faults E) (vhist hist s) (vhist hist s')"
    "r = Inr n \<Longrightarrow> \<exists>sk b. ve_load_key env = Inr sk \<and> utf8_encode key = Some b \<and>
       wrote_at (vhist hist s') b (encode_ascii (dumps_compact (JObj
         (sign_record (ve_crypto env) fault sk (verifying_key_of (ve_crypto env) sk))))) n"
    by blast+
qed

text \<open>The fault path never raises; it names a fault key only when the record is in the ledger.\<close>

definition fault_on_ledger ::
  "('w, 'sk, 'vk) venv \<Rightarrow> history \<Rightarrow> bytes \<Rightarrow> bytes \<Rightarrow> int option \<Rightarrow> pystr option \<Rightarrow> pystr \<Rightarrow> pystr \<Rightarrow>
   pystr \<Rightarrow> bool" where
  "fault_on_ledger env h record_key record_value seq view error_class detail key \<longleftrightarrow>
     (\<exists>tx nonce now sk b n. wrote_at h record_key record_value tx \<and>
        fault_key (ve_crypto env) (ve_repr env) record_value record_key tx nonce = Inr key \<and>
        nonce_ok nonce \<and> list_all is_scalar now \<and> ve_load_key env = Inr sk \<and> utf8_encode key = Some b \<and>
        wrote_at h b (encode_ascii (dumps_compact (JObj (sign_record (ve_crypto env)
          (fault_body (ve_crypto env) (ve_repr env) record_key record_value tx seq view error_class detail now)
          sk (verifying_key_of (ve_crypto env) sk))))) n)"

lemma write_fault_record_cases:
  assumes "venv_ok E hist env" "writer_held_ok env s"
    "write_fault_record env record_key record_value tx_id seq view error_class detail s = (r, s')"
  shows "grows (with_faults E) (vhist hist s) (vhist hist s') \<and>
    (\<exists>key err. r = Inr (key, err) \<and> (key = None \<longleftrightarrow> err \<noteq> None) \<and>
      (\<forall>k. key = Some k \<longrightarrow>
         fault_on_ledger env (vhist hist s') record_key record_value seq view error_class detail k))"
proof -
  obtain q s1 where q: "committed_tx_for_value env record_key record_value s = (q, s1)" by fastforce
  obtain p where p: "q = Inr p" "grows E (vhist hist s) (vhist hist s1)" "writer_keys s1 = writer_keys s"
    "\<And>t. p = PRESENT t \<Longrightarrow> wrote_at (vhist hist s1) record_key record_value t"
    using committed_tx_for_value_cases [OF assms(1) q] by metis
  have held: "writer_held_ok env s1" using assms(2) p(3) by (simp add: writer_held_ok_def)
  have g1: "grows (with_faults E) (vhist hist s) (vhist hist s1)" by (rule grows_with_faults [OF p(2)])
  note run = assms(3)[unfolded write_fault_record_def bind_io_def q p(1), simplified]
  have stop: ?thesis if "r = Inr (None, Some x)" "s' = s1" for x
    using that g1 by simp
  show ?thesis
  proof (cases p)
    case (PRESENT tx)
    let ?n = "ve_nonce env (world s1)" and ?now = "ve_now env (world s1)"
    let ?fault = "fault_body (ve_crypto env) (ve_repr env) record_key record_value tx seq view error_class detail ?now"
    show ?thesis
    proof (cases "(tx_id \<noteq> None \<and> the tx_id \<noteq> tx) \<or>
        (\<exists>e. fault_key (ve_crypto env) (ve_repr env) record_value record_key tx ?n = Inl e)")
      case True
      then obtain x where "r = Inr (None, Some x) \<and> s' = s1"
        using run PRESENT by (auto simp: ret_def peek_def bind_io_def split: if_splits)
      then show ?thesis using stop by blast
    next
      case False
      then obtain key where key: "fault_key (ve_crypto env) (ve_repr env) record_value record_key tx ?n = Inr key"
        by (metis sum.exhaust)
      obtain q2 s2 where q2: "store_fault env ?fault key s1 = (q2, s2)" by fastforce
      have pre: "\<forall>b. utf8_encode key = Some b \<longrightarrow> starts_with b FAULT_KEY_PREFIX_BYTES"
        using fault_key_prefixed [OF key] by blast
      note st = store_fault_cases [OF assms(1) q2 held pre]
      have out: "s' = s2 \<and> r = (case q2 of Inl exc \<Rightarrow> Inr (None, Some (FaultRaised exc)) | Inr n \<Rightarrow> Inr (Some key, None))"
        using run PRESENT False key q2
        by (auto simp: ret_def peek_def bind_io_def attempt_def split: sum.splits if_splits)
      have tx: "wrote_at (vhist hist s2) record_key record_value tx"
        using grows_wrote [OF st(1) p(4) [OF PRESENT]] .
      have n: "nonce_ok ?n" "list_all is_scalar ?now" using assms(1) by (simp_all add: venv_ok_def)
      have "fault_on_ledger env (vhist hist s2) record_key record_value seq view error_class detail key"
        if "q2 = Inr n" for n
        using st(2) [OF that] tx key n unfolding fault_on_ledger_def by blast
      then show ?thesis
        using out grows_trans [OF st(1) g1] by (auto split: sum.splits)
    qed
  qed (use run stop in \<open>auto simp: ret_def\<close>)
qed

section \<open>What the route's answer establishes\<close>

lemma unwritten_iff: "lookup h k = None \<longleftrightarrow> (\<forall>v t. \<not> wrote_at h k v t)"
  by (metis lookup_wrote option.exhaust prod.exhaust wrote_lookup option.distinct(1))

text \<open>A step of another client, or a fault record, leaves the key as it was.\<close>

definition leaves_alone :: "(history \<Rightarrow> tx \<Rightarrow> bool) \<Rightarrow> bytes \<Rightarrow> bool" where
  "leaves_alone E k \<longleftrightarrow> (\<forall>h t. E h t \<longrightarrow> tx_value t k = None)"

lemma leaves_alone_faults:
  assumes "leaves_alone E k" "\<not> starts_with k FAULT_KEY_PREFIX_BYTES"
  shows "leaves_alone (with_faults E) k"
  using assms by (auto simp: leaves_alone_def with_faults_def fault_write_def)

lemma grows_wrote_iff:
  "grows F h h' \<Longrightarrow> leaves_alone F k \<Longrightarrow> wrote_at h' k v t \<longleftrightarrow> wrote_at h k v t"
  by (induction rule: grows.induct) (auto simp: leaves_alone_def wrote_at_snoc)

lemma committed_wrote_iff:
  assumes "committed E [KV k v] h h' n" "leaves_alone E k"
  shows "wrote_at h' k v' t \<longleftrightarrow> wrote_at h k v' t \<or> v' = v \<and> t = n"
  using assms unfolding committed_def
  by (auto simp: grows_wrote_iff wrote_at_snoc)

text \<open>
  The answers about one write, over the history before it and the one the caller finds afterwards.
\<close>

definition answer_true :: "history \<Rightarrow> history \<Rightarrow> bytes \<Rightarrow> bytes \<Rightarrow> write_response \<Rightarrow> bool" where
  "answer_true h h' key value r \<longleftrightarrow>
     (case wr_committed r of
        Some True \<Rightarrow> (\<exists>t. wr_tx_id r = Some t \<and> wrote_at h' key value t)
      | Some False \<Rightarrow> wr_tx_id r = None \<and> (\<forall>v t. wrote_at h' key v t \<longleftrightarrow> wrote_at h key v t)
      | None \<Rightarrow> wr_tx_id r = None) \<and>
     (wr_verified r \<longrightarrow> wr_committed r = Some True \<and>
        (\<forall>t. wr_tx_id r = Some t \<longrightarrow> (\<forall>v. \<not> wrote_at h key v t)))"

text \<open>A client whose plain reads answer from the whole history, not from a prefix of it.\<close>

definition reads_current :: "('w \<Rightarrow> history) \<Rightarrow> 'w immudb \<Rightarrow> bool" where
  "reads_current hist cl \<longleftrightarrow> (\<forall>k w r w'. im_get cl k w = (Inr r, w') \<longrightarrow> lookup (hist w') k = r)"

lemma committed_lookup:
  assumes "committed E [KV k v] h h' n" "leaves_alone E k"
  shows "lookup h' k = Some (v, n)"
proof -
  obtain h1 where h1: "n = next_tx h1" "grows E (h1 @ [[KV k v]]) h'"
    using assms(1) unfolding committed_def by blast
  have "lookup (h1 @ [[KV k v]]) k = Some (v, n)" by (simp add: lookup_snoc h1(1))
  with h1(2) show ?thesis
    by (induction rule: grows.induct) (use assms(2) in \<open>auto simp: leaves_alone_def lookup_snoc\<close>)
qed

lemma committed_new:
  assumes "committed E t h h' n"
  shows "\<not> wrote_at h k v n"
proof -
  obtain h1 where "grows E h h1" "n = next_tx h1" using assms unfolding committed_def by blast
  then obtain ts where "n = int (length (h @ ts)) + 1" using grows_prefix by (fastforce simp: next_tx_def)
  then show ?thesis by (simp add: wrote_at_def)
qed

text \<open>Once the write is in, a read of the key finds it: nothing else was ever there, or reads are current.\<close>

lemma read_after_commit:
  assumes "venv_ok E hist env" "leaves_alone E key" "lookup h key = None \<or> reads_current hist (ve_im env)"
    "committed E [KV key value] h (vhist hist s) n" "on_world (im_get (ve_im env) key) s = (Inr (Some (v, t)), s')"
  shows "v = value"
proof -
  note rd = on_world_get [OF assms(1,5)]
  have w: "wrote_at (vhist hist s') key v t" using rd(2) by simp
  have l: "committed E [KV key value] h (vhist hist s') n"
    using assms(4) rd(1) grows_trans unfolding committed_def by blast
  from assms(3) show ?thesis
  proof
    assume "lookup h key = None"
    then show ?thesis using w committed_wrote_iff [OF l assms(2)] by (auto simp: unwritten_iff)
  next
    assume "reads_current hist (ve_im env)"
    then have "lookup (vhist hist s') key = Some (v, t)"
      using assms(5) by (auto simp: reads_current_def on_world_def vhist_def split: prod.splits)
    then show ?thesis using committed_lookup [OF l assms(2)] by simp
  qed
qed

lemma write_proof_failed_true:
  assumes "venv_ok E hist env" "writer_held_ok env s" "leaves_alone E key"
    "lookup h key = None \<or> reads_current hist (ve_im env)" "committed E [KV key value] h (vhist hist s) n"
    "write_proof_failed env key value exc s = (x, s')"
  shows "\<exists>r. x = Inr r \<and> answer_true h (vhist hist s') key value r \<and>
    (\<forall>k. wr_fault_record r = Some k \<longrightarrow> fault_on_ledger env (vhist hist s') key value None None
       (error_class_of exc) (lit ''proof verification failed'') k)"
proof -
  obtain g s1 where g: "on_world (im_get (ve_im env) key) s = (g, s1)" by fastforce
  note run = assms(6)[unfolded write_proof_failed_def bind_io_def committed_tx_for_eq [OF g], simplified]
  have held: "writer_held_ok env s1" using assms(2) on_world_frame [OF g] by (simp add: writer_held_ok_def)
  show ?thesis
  proof (cases "\<exists>v t. g = Inr (Some (v, t))")
    case True
    then obtain v t where gv: "g = Inr (Some (v, t))" by blast
    have "wrote_at (vhist hist s1) key v t" using on_world_get(2) [OF assms(1) g gv] .
    then have w1: "wrote_at (vhist hist s1) key value t"
      using read_after_commit [OF assms(1,3,4,5) g [unfolded gv]] by simp
    obtain f s2 where f: "write_fault_record env key value (Some t) None None (error_class_of exc)
        (lit ''proof verification failed'') s1 = (f, s2)" by fastforce
    note w = write_fault_record_cases [OF assms(1) held f]
    have "wrote_at (vhist hist s2) key value t" using w1 w grows_wrote by blast
    then show ?thesis
      using run gv f w by (auto simp: ret_def answer_true_def)
  next
    case False
    then show ?thesis
      using run by (auto simp: ret_def unverified_def answer_true_def split: sum.splits option.splits)
  qed
qed

lemma write_raised_true:
  assumes "venv_ok E hist env" "leaves_alone E key" "lookup h key = None \<or> reads_current hist (ve_im env)"
    "(\<exists>n. committed E [KV key value] h (vhist hist s) n) \<or> grows E h (vhist hist s)"
    "write_raised env key value exc s = (x, s')"
  shows "\<exists>r. x = Inr r \<and> answer_true h (vhist hist s') key value r \<and> wr_fault_record r = None"
proof -
  obtain g s1 where g: "on_world (im_get (ve_im env) key) s = (g, s1)" by fastforce
  note rd = on_world_get [OF assms(1) g]
  have s1: "s1 = s'" and x: "x = Inr (case g of Inl _ \<Rightarrow> unverified None None (RaisedUnread exc)
      | Inr None \<Rightarrow> unverified None None (RaisedNothingFound exc)
      | Inr (Some (got, tx)) \<Rightarrow> if got \<noteq> value then unverified None (Some False) (Raised exc)
          else unverified (Some tx) (Some True) (RaisedCommittedAt exc tx))"
    using assms(5) unfolding write_raised_def bind_io_def committed_tx_for_value_eq [OF g]
    by (auto simp: ret_def split: sum.splits option.splits prod.splits if_splits)
  have "wrote_at (vhist hist s') key v t \<longleftrightarrow> wrote_at h key v t"
    if other: "g = Inr (Some (got, tx))" "got \<noteq> value" for got tx v t
  proof -
    have "grows E h (vhist hist s)"
      using assms(4) read_after_commit [OF assms(1-3) _ g [unfolded other(1)]] other(2) by blast
    then have "grows E h (vhist hist s')" using rd(1) s1 grows_trans by blast
    then show ?thesis by (rule grows_wrote_iff [OF _ assms(2)])
  qed
  then show ?thesis
    using x rd(2) s1
    by (auto simp: answer_true_def unverified_def split: sum.splits option.splits prod.splits if_splits)
qed

lemma plain_not_refused_prefix:
  "refuse_reason_for_plain_write key value = None \<Longrightarrow> \<forall>p \<in> set REFUSED_KEY_PREFIXES. \<not> starts_with key p"
  by (auto simp: refuse_reason_for_plain_write_def find_None_iff split: option.splits)

lemma plain_refuses:
  assumes "(\<exists>p \<in> set REFUSED_KEY_PREFIXES. starts_with key p) \<or>
     (\<exists>d c. loads_bytes value = Some (JObj d) \<and> dict_get d (lit ''record_type'') = Some (JStr c) \<and>
        c \<in> set REFUSED_ON_PLAIN_WRITE)"
  shows "refuse_reason_for_plain_write key value \<noteq> None"
  using assms
proof
  assume "\<exists>p \<in> set REFUSED_KEY_PREFIXES. starts_with key p"
  then show ?thesis using plain_not_refused_prefix by blast
qed (auto simp: refuse_reason_for_plain_write_def split: option.split)

lemma write_commit_true:
  assumes "venv_ok E hist env" "writer_held_ok env s" "leaves_alone E key"
    "lookup (vhist hist s) key = None \<or> reads_current hist (ve_im env)" "write_commit env key value s = (x, s')"
  shows "\<exists>r. x = Inr r \<and> answer_true (vhist hist s) (vhist hist s') key value r \<and>
    (\<forall>k. wr_fault_record r = Some k \<longrightarrow> (\<exists>c. fault_on_ledger env (vhist hist s') key value None None
       c (lit ''proof verification failed'') k))"
proof -
  obtain c s1 where c: "get_client env s = (c, s1)" by fastforce
  have g1: "grows E (vhist hist s) (vhist hist s1)"
    using keeps_get_client [OF assms(1)] c by (rule keepsD)
  have held: "writer_held_ok env s1"
    using assms(2) get_client_frame [OF c] by (simp add: writer_held_ok_def)
  note run = assms(5)[unfolded write_commit_def attempt_def c, simplified]
  show ?thesis
  proof (cases c)
    case (Inl e)
    then show ?thesis using run grows_wrote_iff [OF g1 assms(3)] by (auto simp: ret_def unverified_def answer_true_def)
  next
    case (Inr u)
    obtain q s2 where q: "on_world (im_verified_set (ve_im env) key value) s1 = (q, s2)" by fastforce
    obtain w' where w': "im_verified_set (ve_im env) key value (world s1) = (q, w')" "s2 = s1\<lparr>world := w'\<rparr>"
      using q by (auto simp: on_world_def split: prod.splits)
    have ok: "set_ok E hist (im_verified_set (ve_im env))"
      using assms(1) by (simp add: venv_ok_def immudb_ok_def)
    have from_start: "committed E t (vhist hist s) h' n" if "committed E t (vhist hist s1) h' n" for t h' n
      using that g1 grows_trans unfolding committed_def by blast
    have "case q of Inr n \<Rightarrow> committed E [KV key value] (vhist hist s1) (vhist hist s2) n
        | Inl e \<Rightarrow> (\<exists>n. committed E [KV key value] (vhist hist s1) (vhist hist s2) n) \<or>
            grows E (vhist hist s1) (vhist hist s2) \<and> \<not> is_proof_error e"
      using ok [unfolded set_ok_def, rule_format, OF w'(1)] w'(2) by (cases q) (auto simp: vhist_def)
    then have landed: "case q of Inr n \<Rightarrow> committed E [KV key value] (vhist hist s) (vhist hist s2) n
        | Inl e \<Rightarrow> (\<exists>n. committed E [KV key value] (vhist hist s) (vhist hist s2) n) \<or>
            grows E (vhist hist s) (vhist hist s2) \<and> \<not> is_proof_error e"
      using from_start grows_trans [OF _ g1] by (cases q) (simp, blast, simp)
    have held2: "writer_held_ok env s2" using held w'(2) by (simp add: writer_held_ok_def)
    show ?thesis
    proof (cases q)
      case (Inl e)
      show ?thesis
      proof (cases "is_proof_error e")
        case True
        then obtain n where "committed E [KV key value] (vhist hist s) (vhist hist s2) n" using landed Inl by auto
        moreover have "write_proof_failed env key value e s2 = (x, s')" using run Inr q Inl True by simp
        ultimately show ?thesis using write_proof_failed_true [OF assms(1) held2 assms(3,4)] by blast
      next
        case False
        then have "write_raised env key value e s2 = (x, s')" using run Inr q Inl by simp
        moreover have "(\<exists>n. committed E [KV key value] (vhist hist s) (vhist hist s2) n) \<or> grows E (vhist hist s) (vhist hist s2)"
          using landed Inl by auto
        ultimately show ?thesis using write_raised_true [OF assms(1,3,4)] by fastforce
      qed
    next
      case (Inr n)
      obtain r3 s3 where s3: "on_world (im_current_state (ve_im env)) s2 = (r3, s3)" by fastforce
      have "grows E (vhist hist s2) (vhist hist s3)"
        using keeps_client_reads(4) [OF assms(1)] s3 by (rule keepsD)
      moreover have com: "committed E [KV key value] (vhist hist s) (vhist hist s2) n" using landed Inr by simp
      then have "wrote_at (vhist hist s2) key value n" by (auto intro: committed_wrote)
      ultimately have "wrote_at (vhist hist s3) key value n" by (rule grows_wrote)
      then show ?thesis
        using run Inr \<open>c = Inr u\<close> q s3 committed_new [OF com] by (auto simp: ret_def answer_true_def)
    qed
  qed
qed

section \<open>Properties\<close>

text \<open>
  C5: what \<open>POST /write\<close> answers about a key no other client writes is so, when the key was
  never written before or the plain reads of the client do not lag. Committed means the very bytes
  are in the ledger at the transaction it names; not committed means the request added nothing
  under the key, whatever it held before; no answer about the commit names no transaction; a
  verified write is one this request committed; a fault record it names is in the ledger; and the
  route always answers.
\<close>

theorem write_answers_truthfully:
  assumes "venv_ok E hist env" "writer_held_ok env s" "leaves_alone E key"
    and "lookup (vhist hist s) key = None \<or> reads_current hist (ve_im env)"
    and "b64decode (wq_key payload) = Some key" "b64decode (wq_value payload) = Some value"
  shows "case write_route env x_api_key payload s of
      (Inr (Inr r), s') \<Rightarrow> answer_true (vhist hist s) (vhist hist s') key value r \<and>
        (\<forall>k. wr_fault_record r = Some k \<longrightarrow> (\<exists>c. fault_on_ledger env (vhist hist s') key value None None
           c (lit ''proof verification failed'') k))
    | (Inr (Inl e), s') \<Rightarrow> s' = s
    | (Inl e, s') \<Rightarrow> False"
proof (cases "require_write_key env x_api_key = Inr () \<and> refuse_reason_for_plain_write key value = None")
  case False
  then show ?thesis
    using assms(5,6) by (auto simp: write_route_def ret_def split: sum.splits option.splits)
next
  case True
  obtain x s' where x: "write_commit env key value s = (x, s')" by fastforce
  have "\<exists>r. x = Inr r \<and> answer_true (vhist hist s) (vhist hist s') key value r \<and>
    (\<forall>k. wr_fault_record r = Some k \<longrightarrow> (\<exists>c. fault_on_ledger env (vhist hist s') key value None None
       c (lit ''proof verification failed'') k))"
    using write_commit_true [OF assms(1-3) assms(4) x] by blast
  then show ?thesis
    using True x assms(5,6) by (auto simp: write_route_def bind_io_def ret_def)
qed

text \<open>A key that holds older bytes, and a write that fails without committing.\<close>

definition refused_write :: "(history \<times> fault_script, bytes, bytes) vstate" where
  "refused_write = test_state [[KV ''k1'' ''v0'']] [Some (RpcError ''down'', False)]"

theorem write_answers_truthfully_witness:
  "\<exists>r s'. write_route test_env (lit ''w'') \<lparr>wq_key = lit ''azE='', wq_value = lit ''djE=''\<rparr> refused_write = (Inr (Inr r), s') \<and>
     wr_committed r = Some False \<and> answer_true [[KV ''k1'' ''v0'']] (vhist fst s') ''k1'' ''v1'' r"
proof -
  have h: "vhist fst refused_write = [[KV ''k1'' ''v0'']]" by (simp add: vhist_def refused_write_def test_state_def)
  have b: "b64decode (lit ''azE='') = Some ''k1''" "b64decode (lit ''djE='') = Some ''v1''" by code_simp+
  have n: "require_write_key test_env (lit ''w'') = Inr ()" "refuse_reason_for_plain_write ''k1'' ''v1'' = None"
    by (simp add: require_write_key_def test_env_def lit_def) code_simp
  obtain r s' where c: "write_commit test_env ''k1'' ''v1'' refused_write = (Inr r, s')" "wr_committed r = Some False"
    by (simp add: write_commit_def get_client_def attempt_def bind_io_def peek_def ret_def on_world_def test_env_def
        refused_write_def test_state_def mem_def mem_write_def write_raised_def committed_tx_for_value_def lookup_def
        unverified_def)
  then have r: "write_route test_env (lit ''w'') \<lparr>wq_key = lit ''azE='', wq_value = lit ''djE=''\<rparr> refused_write = (Inr (Inr r), s')"
    by (simp add: write_route_def b n bind_io_def ret_def)
  have p: "leaves_alone (\<lambda>_ _. False) ''k1''" "writer_held_ok test_env refused_write"
      "lookup (vhist fst refused_write) ''k1'' = None \<or> reads_current fst (ve_im test_env)"
    by (auto simp: leaves_alone_def writer_held_ok_def refused_write_def test_state_def reads_current_def test_env_def mem_def)
  have "b64decode (wq_key \<lparr>wq_key = lit ''azE='', wq_value = lit ''djE=''\<rparr>) = Some ''k1''"
      "b64decode (wq_value \<lparr>wq_key = lit ''azE='', wq_value = lit ''djE=''\<rparr>) = Some ''v1''" using b by simp_all
  from write_answers_truthfully [OF test_env_ok p(2,1,3) this, of "lit ''w''"] show ?thesis
    using r c(2) h by simp
qed

text \<open>
  C6: the plain route neither writes nor reads anything for a request without the write
  credential, under a key prefix the ordered route owns, or for a record of a class that needs a
  commit position or that only the service itself writes: it answers with an HTTP error and the
  state is as before.
\<close>

theorem plain_route_refuses:
  assumes "b64decode (wq_key payload) = Some key" "b64decode (wq_value payload) = Some value"
    and "x_api_key \<noteq> ve_write_key env \<or> ve_write_key env = [] \<or>
      (\<exists>p \<in> set REFUSED_KEY_PREFIXES. starts_with key p) \<or>
      (\<exists>d c. loads_bytes value = Some (JObj d) \<and> dict_get d (lit ''record_type'') = Some (JStr c) \<and>
         c \<in> set REFUSED_ON_PLAIN_WRITE)"
  shows "\<exists>e. write_route env x_api_key payload s = (Inr (Inl e), s)"
proof (cases "require_write_key env x_api_key")
  case (Inl e)
  then show ?thesis by (simp add: write_route_def ret_def)
next
  case (Inr u)
  then have "refuse_reason_for_plain_write key value \<noteq> None"
    using assms(3) require_write_key_iff [of env x_api_key] by (intro plain_refuses) auto
  then show ?thesis using assms(1,2) Inr by (auto simp: write_route_def ret_def)
qed

theorem plain_route_refuses_witness:
  "\<exists>e. write_route test_env (lit ''w'') \<lparr>wq_key = b64encode ''tool_call:1'', wq_value = b64encode ''{}''\<rparr>
     (test_state [] []) = (Inr (Inl e), test_state [] [])"
  by (rule plain_route_refuses [of _ "''tool_call:1''" "''{}''"]) (simp_all add: REFUSED_KEY_PREFIXES_def)

end
