(* ===== verification/OrderedWrite.thy ===== *)
theory OrderedWrite
  imports WritePath
begin

text \<open>
  The ordered write of the verifier (\<open>verifier/main.py\<close>): the shared counter, the
  compare-and-set loop of \<open>_ordered_commit\<close>, the confirmation of a position and the route
  \<open>POST /write-ordered\<close>. The loop runs against other verifiers that follow the same
  protocol; what it guarantees and relies on is \<open>good_step\<close>.
\<close>

section \<open>Keys and caches\<close>

definition SEQUENCE_KEY :: bytes where
  "SEQUENCE_KEY = ''ail_seq:commit''"

definition RESERVE_KEY :: bytes where
  "RESERVE_KEY = ''ail_seq:reserve''"

definition VIEW_SETS :: "(pystr \<times> bytes) list" where
  "VIEW_SETS = [(lit ''decision'', ''ail_view:decision:v1''), (lit ''intent'', ''ail_view:intent:v1'')]"

definition int_bytes :: "int \<Rightarrow> bytes" where
  "int_bytes n = encode_ascii (show_int n)"

definition decode_bytes :: "bytes \<Rightarrow> exn + pystr" where
  "decode_bytes b = of_option UnicodeError (utf8_decode b)"

definition read_bound_reserve :: "('w, 'sk, 'vk) venv \<Rightarrow> ('w, 'sk, 'vk, int option) vio" where
  "read_bound_reserve env =
     bind_io (peek reserve_cache) (\<lambda>cached.
       if cached \<noteq> None then ret cached
       else bind_io (on_world (im_get (ve_im env) RESERVE_KEY)) (\<lambda>got. case got of
              None \<Rightarrow> ret None
            | Some (v, tx) \<Rightarrow>
                bind_io (lift_io (bind_sum (decode_bytes v) verifier_validate_reserve)) (\<lambda>r.
                  bind_io (poke (reserve_cache_update (\<lambda>_. Some r))) (\<lambda>_. ret (Some r)))))"

definition read_counter :: "('w, 'sk, 'vk) venv \<Rightarrow> ('w, 'sk, 'vk, (int \<times> int) option) vio" where
  "read_counter env =
     bind_io (on_world (im_get (ve_im env) SEQUENCE_KEY)) (\<lambda>got. case got of
       None \<Rightarrow> ret None
     | Some (v, tx) \<Rightarrow>
         bind_io (lift_io (bind_sum (decode_bytes v) (\<lambda>s. of_option ValueError (py_int s)))) (\<lambda>n.
           ret (Some (n, tx))))"

definition record_key_present :: "('w, 'sk, 'vk) venv \<Rightarrow> bytes \<Rightarrow> ('w, 'sk, 'vk, bool) vio" where
  "record_key_present env key =
     attempt (on_world (im_get (ve_im env) key)) (\<lambda>r. case r of
       Inl _ \<Rightarrow> ret False
     | Inr got \<Rightarrow> ret (got \<noteq> None))"

section \<open>The compare-and-set loop\<close>

datatype commit_error =
    Plain exn
  | KeyExists bytes
  | Uncertain exn "int option" nat

text \<open>What one attempt reads before it builds its request: the bound reserve and the counter.\<close>

definition observe :: "('w, 'sk, 'vk) venv \<Rightarrow> ('w, 'sk, 'vk, int option \<times> (int \<times> int) option) vio" where
  "observe env =
     bind_io (read_bound_reserve env) (\<lambda>bound_reserve.
       if bound_reserve \<noteq> None \<and> the bound_reserve \<noteq> ve_reserved env
       then raise_io (ReserveMismatch (ve_reserved env) (the bound_reserve))
       else bind_io (peek (\<lambda>s. if ve_cache_enabled env then seq_cache s else None)) (\<lambda>cached.
              bind_io (if cached = None then read_counter env else ret cached) (\<lambda>observed.
                ret (bound_reserve, observed))))"

text \<open>The request it builds from them.\<close>

definition next_position :: "int \<Rightarrow> (int \<times> int) option \<Rightarrow> int" where
  "next_position reserved observed =
     (case observed of None \<Rightarrow> reserved + 1 | Some (last_seq, last_tx) \<Rightarrow> last_seq + 1)"

definition ordered_ops :: "int \<Rightarrow> bool \<Rightarrow> bytes \<Rightarrow> bytes \<Rightarrow> bytes \<Rightarrow> int \<Rightarrow> tx" where
  "ordered_ops reserved binds key value view_set next_seq =
     [KV key value, KV SEQUENCE_KEY (int_bytes next_seq), ZAdd view_set (of_int next_seq) key] @
     (if binds then [KV RESERVE_KEY (int_bytes reserved)] else [])"

definition ordered_preconditions :: "bool \<Rightarrow> bytes \<Rightarrow> (int \<times> int) option \<Rightarrow> precondition list" where
  "ordered_preconditions binds key observed =
     [case observed of None \<Rightarrow> KeyMustNotExist SEQUENCE_KEY
      | Some (last_seq, last_tx) \<Rightarrow> KeyNotModifiedAfterTX SEQUENCE_KEY last_tx,
      KeyMustNotExist key] @
     (if binds then [KeyMustNotExist RESERVE_KEY] else [])"

text \<open>An exception that leaves the loop: after a request was issued its outcome is not known.\<close>

definition escape :: "bool \<Rightarrow> int option \<Rightarrow> nat \<Rightarrow> exn \<Rightarrow> commit_error" where
  "escape issued next_seq attempts exc =
     (if issued then Uncertain exc next_seq attempts else Plain exc)"

text \<open>One attempt up to the response of its request: either it raised before a request was
  issued, with the position it had computed, or the request was issued and has an outcome.\<close>

datatype try_result =
    TryRaised exn "int option"
  | TryIssued int bool "exn + int option"

definition ordered_try ::
  "('w, 'sk, 'vk) venv \<Rightarrow> bytes \<Rightarrow> bytes \<Rightarrow> bytes \<Rightarrow> ('w, 'sk, 'vk, try_result) vio" where
  "ordered_try env key value view_set =
     attempt (observe env) (\<lambda>o1. case o1 of
       Inl exc \<Rightarrow> ret (TryRaised exc None)
     | Inr (bound_reserve, observed) \<Rightarrow>
         let next_seq = next_position (ve_reserved env) observed;
             binds = (bound_reserve = None)
         in if next_seq \<ge> MAX_POSITION
            then ret (TryRaised (PositionExhausted next_seq) (Some next_seq))
            else
              attempt (on_world (im_exec_all (ve_im env)
                  (ordered_ops (ve_reserved env) binds key value view_set next_seq)
                  (ordered_preconditions binds key observed)))
                (\<lambda>resp. ret (TryIssued next_seq binds resp)))"

fun ordered_loop ::
  "('w, 'sk, 'vk) venv \<Rightarrow> bytes \<Rightarrow> bytes \<Rightarrow> bytes \<Rightarrow> nat \<Rightarrow> nat \<Rightarrow> bool \<Rightarrow> int option \<Rightarrow>
   ('w, 'sk, 'vk, commit_error + int \<times> int \<times> nat) vio" where
  "ordered_loop env key value view_set 0 attempts issued last_next =
     ret (Inl (escape issued last_next attempts (SequenceBudgetExhausted attempts)))"
| "ordered_loop env key value view_set (Suc left) attempts issued last_next =
     bind_io (ordered_try env key value view_set) (\<lambda>tried. case tried of
       TryRaised exc next_seq \<Rightarrow>
         ret (Inl (escape issued (if next_seq = None then last_next else next_seq) (Suc attempts) exc))
     | TryIssued next_seq binds (Inl exc) \<Rightarrow>
         if precondition_failed exc
         then bind_io (record_key_present env key) (\<lambda>present.
                if present then ret (Inl (KeyExists key))
                else bind_io (poke (seq_cache_update (\<lambda>_. None))) (\<lambda>_.
                       bind_io (poke (reserve_cache_update (\<lambda>_. None))) (\<lambda>_.
                         ordered_loop env key value view_set left (Suc attempts) True (Some next_seq))))
         else ret (Inl (Uncertain exc (Some next_seq) (Suc attempts)))
     | TryIssued next_seq binds (Inr None) \<Rightarrow>
         ret (Inl (Uncertain TypeError (Some next_seq) (Suc attempts)))
     | TryIssued next_seq binds (Inr (Some tx_id)) \<Rightarrow>
         bind_io (poke (seq_cache_update (\<lambda>_. Some (next_seq, tx_id)))) (\<lambda>_.
           bind_io (if binds then poke (reserve_cache_update (\<lambda>_. Some (ve_reserved env)))
                    else ret ()) (\<lambda>_.
             ret (Inr (tx_id, next_seq, Suc attempts)))))"

definition ordered_commit ::
  "('w, 'sk, 'vk) venv \<Rightarrow> bytes \<Rightarrow> bytes \<Rightarrow> bytes \<Rightarrow>
   ('w, 'sk, 'vk, commit_error + int \<times> int \<times> nat) vio" where
  "ordered_commit env key value view_set =
     ordered_loop env key value view_set (nat (ve_max_attempts env)) 0 False None"

section \<open>Confirming a position\<close>

fun confirm_position :: "bytes \<Rightarrow> int \<Rightarrow> (bytes option \<times> rat option) list \<Rightarrow> int option" where
  "confirm_position key attempted_seq [] = None"
| "confirm_position key attempted_seq ((member, score) # entries) =
     (if member \<noteq> Some key then confirm_position key attempted_seq entries
      else case score of
        None \<Rightarrow> None
      | Some returned \<Rightarrow> if returned \<noteq> of_int attempted_seq then None else Some \<lfloor>returned\<rfloor>)"

definition committed_position_for ::
  "('w, 'sk, 'vk) venv \<Rightarrow> bytes \<Rightarrow> bytes \<Rightarrow> int option \<Rightarrow> ('w, 'sk, 'vk, int option) vio" where
  "committed_position_for env view_set key attempted =
     (case attempted of
        None \<Rightarrow> ret None
      | Some attempted_seq \<Rightarrow>
          attempt (on_world (im_zscan (ve_im env) view_set (of_int attempted_seq) (of_int attempted_seq) 100))
            (\<lambda>r. case r of Inl _ \<Rightarrow> ret None
                 | Inr entries \<Rightarrow> ret (confirm_position key attempted_seq entries)))"

section \<open>\<open>POST /write-ordered\<close>\<close>

record ordered_request =
  oq_key :: pystr
  oq_value :: pystr
  oq_view :: pystr

datatype ordered_detail =
    UnknownView pystr
  | NotIssued exn
  | OutcomeUnread exn
  | OutcomeNothingFound exn
  | OutcomeAbsent exn
  | LostResponse exn int "int option"
  | OrderedProofFailed int int "fault_error option"
  | OrderedProofNotTried exn

record ordered_response =
  or_tx_id :: "int option"
  or_seq :: "int option"
  or_verified :: bool
  or_committed :: "bool option"
  or_attempts :: nat
  or_error_class :: "pystr option"
  or_fault_record :: "pystr option"
  or_fault_error :: "fault_error option"
  or_detail :: "ordered_detail option"

definition ordered_unverified ::
  "int option \<Rightarrow> int option \<Rightarrow> bool option \<Rightarrow> nat \<Rightarrow> ordered_detail \<Rightarrow> ordered_response" where
  "ordered_unverified tx seq landed attempts d =
     \<lparr>or_tx_id = tx, or_seq = seq, or_verified = False, or_committed = landed, or_attempts = attempts,
      or_error_class = None, or_fault_record = None, or_fault_error = None, or_detail = Some d\<rparr>"

text \<open>A request was issued and its outcome was lost: the ledger is asked.\<close>

definition ordered_uncertain ::
  "('w, 'sk, 'vk) venv \<Rightarrow> bytes \<Rightarrow> bytes \<Rightarrow> bytes \<Rightarrow> exn \<Rightarrow> int option \<Rightarrow> nat \<Rightarrow>
   ('w, 'sk, 'vk, ordered_response) vio" where
  "ordered_uncertain env key value view_set cause attempted_seq attempts =
     bind_io (committed_tx_for_value env key value) (\<lambda>state. case state of
       UNKNOWN \<Rightarrow> ret (ordered_unverified None None None attempts (OutcomeUnread cause))
     | NOT_FOUND \<Rightarrow>
         if \<not> is_budget cause
         then ret (ordered_unverified None None None attempts (OutcomeNothingFound cause))
         else ret (ordered_unverified None None (Some False) attempts (OutcomeAbsent cause))
     | ABSENT \<Rightarrow> ret (ordered_unverified None None (Some False) attempts (OutcomeAbsent cause))
     | PRESENT tx_id \<Rightarrow>
         bind_io (committed_position_for env view_set key attempted_seq) (\<lambda>seq.
           ret (ordered_unverified (Some tx_id) seq (Some True) attempts (LostResponse cause tx_id seq))))"

text \<open>The record is committed; its proof is a read of its own.\<close>

definition ordered_prove ::
  "('w, 'sk, 'vk) venv \<Rightarrow> bytes \<Rightarrow> bytes \<Rightarrow> pystr \<Rightarrow> int \<Rightarrow> int \<Rightarrow> nat \<Rightarrow>
   ('w, 'sk, 'vk, ordered_response) vio" where
  "ordered_prove env key value view tx_id seq attempts =
     attempt (on_world (im_verified_get (ve_im env) key)) (\<lambda>r. case r of
       Inr _ \<Rightarrow>
         ret \<lparr>or_tx_id = Some tx_id, or_seq = Some seq, or_verified = True, or_committed = Some True,
              or_attempts = attempts, or_error_class = None, or_fault_record = None,
              or_fault_error = None, or_detail = None\<rparr>
     | Inl exc \<Rightarrow>
         if is_proof_error exc
         then bind_io (write_fault_record env key value (Some tx_id) (Some seq) (Some view)
                (error_class_of exc) (lit ''proof verification failed'')) (\<lambda>(fault_key, fault_error).
                ret \<lparr>or_tx_id = Some tx_id, or_seq = Some seq, or_verified = False,
                     or_committed = Some True, or_attempts = attempts,
                     or_error_class = Some (error_class_of exc), or_fault_record = fault_key,
                     or_fault_error = fault_error,
                     or_detail = Some (OrderedProofFailed tx_id seq fault_error)\<rparr>)
         else ret (ordered_unverified (Some tx_id) (Some seq) (Some True) attempts (OrderedProofNotTried exc)))"

definition ordered_outcome ::
  "('w, 'sk, 'vk) venv \<Rightarrow> bytes \<Rightarrow> bytes \<Rightarrow> pystr \<Rightarrow> bytes \<Rightarrow>
   ('w, 'sk, 'vk, http_error + ordered_response) vio" where
  "ordered_outcome env key value view view_set =
     attempt (get_client env) (\<lambda>c. case c of
       Inl exc \<Rightarrow> ret (Inr (ordered_unverified None None (Some False) 0 (NotIssued exc)))
     | Inr _ \<Rightarrow>
         bind_io (ordered_commit env key value view_set) (\<lambda>r. case r of
           Inl (KeyExists k) \<Rightarrow> ret (Inl (HTTPException 409))
         | Inl (Uncertain cause attempted_seq attempts) \<Rightarrow>
             bind_io (ordered_uncertain env key value view_set cause attempted_seq attempts) (\<lambda>a. ret (Inr a))
         | Inl (Plain exc) \<Rightarrow> ret (Inr (ordered_unverified None None (Some False) 0 (NotIssued exc)))
         | Inr (tx_id, seq, attempts) \<Rightarrow>
             bind_io (ordered_prove env key value view tx_id seq attempts) (\<lambda>a. ret (Inr a))))"

definition write_ordered ::
  "('w, 'sk, 'vk) venv \<Rightarrow> pystr \<Rightarrow> ordered_request \<Rightarrow> ('w, 'sk, 'vk, http_error + ordered_response) vio" where
  "write_ordered env x_api_key payload =
     (case require_write_key env x_api_key of
        Inl e \<Rightarrow> ret (Inl e)
      | Inr _ \<Rightarrow>
          (case map_of VIEW_SETS (oq_view payload) of
             None \<Rightarrow> ret (Inr (ordered_unverified None None (Some False) 0 (UnknownView (oq_view payload))))
           | Some view_set \<Rightarrow>
               (case (b64decode (oq_key payload), b64decode (oq_value payload)) of
                  (Some key, Some value) \<Rightarrow>
                    (case refuse_reason_for_ordered_write key value of
                       Some refusal \<Rightarrow> ret (Inl (HTTPException 400))
                     | None \<Rightarrow> ordered_outcome env key value (oq_view payload) view_set)
                | _ \<Rightarrow> ret (Inl (HTTPException 500)))))"

end
