(* ===== verification/OrderedLedger.thy ===== *)
theory OrderedLedger
  imports OrderedWrite
begin

text \<open>
  What the ordered write guarantees to every other writer of the ledger, and what it relies on
  in return: every transaction is a \<open>good_step\<close>. In a history of good steps the counter
  only ever moves to the next position, the reserve is bound once, and the order of the
  positions is the order of the transactions. The loop keeps this for any interleaving with
  others that keep it.
\<close>

section \<open>Histories that follow the protocol\<close>

definition members :: "history \<Rightarrow> bytes set" where
  "members h = {k. \<exists>s p. ZAdd s p k \<in> set (concat h)}"

definition ordered_step :: "history \<Rightarrow> bytes \<Rightarrow> bytes \<Rightarrow> bytes \<Rightarrow> int \<Rightarrow> tx \<Rightarrow> bool" where
  "ordered_step h key value view_set n t \<longleftrightarrow>
     (\<exists>R. t = ordered_ops R (lookup h RESERVE_KEY = None) key value view_set n \<and> reserve_in_range R \<and>
        key \<noteq> SEQUENCE_KEY \<and> key \<noteq> RESERVE_KEY \<and> \<not> starts_with key FAULT_KEY_PREFIX_BYTES \<and>
        lookup h key = None \<and> n < MAX_POSITION \<and>
        (case lookup h RESERVE_KEY of None \<Rightarrow> True | Some (v, u) \<Rightarrow> v = int_bytes R) \<and>
        (case lookup h SEQUENCE_KEY of None \<Rightarrow> n = R + 1 | Some (v, u) \<Rightarrow> v = int_bytes (n - 1)))"

text \<open>Any other transaction leaves the counter, the reserve and the indexed records alone.\<close>

definition plain_step :: "history \<Rightarrow> tx \<Rightarrow> bool" where
  "plain_step h t \<longleftrightarrow>
     (\<forall>op \<in> set t. case op of KV k v \<Rightarrow> k \<noteq> SEQUENCE_KEY \<and> k \<noteq> RESERVE_KEY \<and> k \<notin> members h
                  | ZAdd _ _ _ \<Rightarrow> False)"

definition good_step :: "history \<Rightarrow> tx \<Rightarrow> bool" where
  "good_step h t \<longleftrightarrow> plain_step h t \<or> (\<exists>key value view_set n. ordered_step h key value view_set n t)"

inductive good :: "history \<Rightarrow> bool" where
  empty: "good []"
| snoc: "good h \<Longrightarrow> good_step h t \<Longrightarrow> good (h @ [t])"

lemma good_grows:
  "grows E h h' \<Longrightarrow> good h \<Longrightarrow> (\<And>h t. E h t \<Longrightarrow> good_step h t) \<Longrightarrow> good h'"
  by (erule grows_invariant) (auto intro: good.snoc)

subsection \<open>The counter and the reserve\<close>

lemma seq_keys_differ [simp]: "SEQUENCE_KEY \<noteq> RESERVE_KEY" "RESERVE_KEY \<noteq> SEQUENCE_KEY"
  by (simp_all add: SEQUENCE_KEY_def RESERVE_KEY_def)

lemma ordered_ops_values:
  assumes "key \<noteq> SEQUENCE_KEY" "key \<noteq> RESERVE_KEY"
  shows "tx_value (ordered_ops R b key value vs n) k =
    (if k = SEQUENCE_KEY then Some (int_bytes n) else if k = key then Some value
     else if k = RESERVE_KEY \<and> b then Some (int_bytes R) else None)"
  using assms by (auto simp: ordered_ops_def)

lemma plain_step_values:
  "plain_step h t \<Longrightarrow> k = SEQUENCE_KEY \<or> k = RESERVE_KEY \<or> k \<in> members h \<Longrightarrow> tx_value t k = None"
  by (force simp: plain_step_def tx_value_None_iff)

lemma int_bytes_inj: "int_bytes m = int_bytes n \<longleftrightarrow> m = n"
proof
  assume "int_bytes m = int_bytes n"
  moreover have "\<forall>c \<in> set (show_int i). c < 256" for i using show_int_ascii by fastforce
  ultimately have "show_int m = show_int n" unfolding int_bytes_def by (intro encode_ascii_inj)
  then show "m = n" by (rule show_int_inj)
qed simp

text \<open>The counter holds a position above the reserve, and the reserve is bound with it.\<close>

definition counter_is :: "history \<Rightarrow> int \<Rightarrow> bool" where
  "counter_is h n \<longleftrightarrow> (\<exists>u. lookup h SEQUENCE_KEY = Some (int_bytes n, u))"

lemma good_bound:
  assumes "good h"
  shows "(lookup h SEQUENCE_KEY = None \<and> lookup h RESERVE_KEY = None) \<or>
    (\<exists>n R u. counter_is h n \<and> lookup h RESERVE_KEY = Some (int_bytes R, u) \<and> reserve_in_range R \<and> R < n)"
  using assms
proof (induction rule: good.induct)
  case (snoc h t)
  from snoc.hyps(2) show ?case unfolding good_step_def
  proof
    assume "plain_step h t"
    then show ?thesis
      using snoc.IH by (simp add: lookup_snoc plain_step_values counter_is_def)
  next
    assume "\<exists>key value view_set n. ordered_step h key value view_set n t"
    then obtain key v vs n R where ob: "t = ordered_ops R (lookup h RESERVE_KEY = None) key v vs n"
      "reserve_in_range R" "key \<noteq> SEQUENCE_KEY" "key \<noteq> RESERVE_KEY"
      "case lookup h RESERVE_KEY of None \<Rightarrow> True | Some (v, u) \<Rightarrow> v = int_bytes R"
      "case lookup h SEQUENCE_KEY of None \<Rightarrow> n = R + 1 | Some (v, u) \<Rightarrow> v = int_bytes (n - 1)"
      by (auto simp: ordered_step_def)
    have "counter_is (h @ [t]) n"
      using ob by (simp add: counter_is_def lookup_snoc ordered_ops_values)
    moreover have "\<exists>u. lookup (h @ [t]) RESERVE_KEY = Some (int_bytes R, u)"
      using ob by (auto simp: lookup_snoc ordered_ops_values split: option.splits)
    moreover have "R < n"
      using snoc.IH ob(5,6) by (auto simp: counter_is_def int_bytes_inj split: option.splits)
    ultimately show ?thesis using ob(2) by blast
  qed
qed simp

lemma good_counter_written:
  assumes "good h" "wrote_at h SEQUENCE_KEY v t"
  shows "\<exists>n. v = int_bytes n"
  using assms
proof (induction rule: good.induct)
  case (snoc h x)
  show ?case
  proof (cases "wrote_at h SEQUENCE_KEY v t")
    case False
    then have "tx_value x SEQUENCE_KEY = Some v" using snoc.prems by (simp add: wrote_at_snoc)
    then show ?thesis using snoc.hyps(2)
      by (auto simp: good_step_def plain_step_values ordered_step_def ordered_ops_values)
  qed (rule snoc.IH)
qed simp

lemma good_reserve_once:
  assumes "good h" "wrote_at h RESERVE_KEY v t"
  shows "lookup h RESERVE_KEY = Some (v, t)"
  using assms
proof (induction rule: good.induct)
  case (snoc h x)
  show ?case
  proof (cases "lookup h RESERVE_KEY")
    case None
    then have "\<not> wrote_at h RESERVE_KEY v t" by (simp add: unwritten_iff)
    then show ?thesis using snoc.prems by (auto simp: wrote_at_snoc lookup_snoc)
  next
    case (Some p)
    then have "tx_value x RESERVE_KEY = None"
      using snoc.hyps(2) by (auto simp: good_step_def plain_step_values ordered_step_def ordered_ops_values)
    then show ?thesis using snoc by (auto simp: wrote_at_snoc lookup_snoc)
  qed
qed simp

subsection \<open>The index\<close>

text \<open>The positions of a history, with the transaction of each, in commit order.\<close>

definition tx_positions :: "int \<Rightarrow> tx \<Rightarrow> (rat \<times> int \<times> bytes \<times> bytes) list" where
  "tx_positions i t = concat (map (\<lambda>op. case op of ZAdd s p k \<Rightarrow> [(p, i, s, k)] | KV _ _ \<Rightarrow> []) t)"

definition positions :: "history \<Rightarrow> (rat \<times> int \<times> bytes \<times> bytes) list" where
  "positions h = concat (map (\<lambda>(i, t). tx_positions i t) (zip (map (\<lambda>i. int i + 1) [0..<length h]) h))"

lemma positions_Nil [simp]: "positions [] = []"
  by (simp add: positions_def)

lemma positions_snoc: "positions (h @ [t]) = positions h @ tx_positions (next_tx h) t"
  by (simp add: positions_def next_tx_def)

lemma tx_positions_plain: "plain_step h t \<Longrightarrow> tx_positions i t = []"
  by (force simp: tx_positions_def plain_step_def split: ledger_op.splits)

lemma tx_positions_ordered: "tx_positions i (ordered_ops R b key v vs n) = [(of_int n, i, vs, key)]"
  by (simp add: tx_positions_def ordered_ops_def)

lemma positions_members: "k \<in> members h \<longleftrightarrow> (\<exists>p i s. (p, i, s, k) \<in> set (positions h))"
  by (induction h rule: rev_induct)
    (force simp: members_def positions_snoc tx_positions_def split: ledger_op.splits)+

text \<open>Positions and transactions grow together, and no position is above the counter.\<close>

definition before :: "rat \<times> int \<times> bytes \<times> bytes \<Rightarrow> rat \<times> int \<times> bytes \<times> bytes \<Rightarrow> bool" where
  "before e e' \<longleftrightarrow> fst e < fst e' \<and> fst (snd e) < fst (snd e')"

definition placed :: "history \<Rightarrow> rat \<times> int \<times> bytes \<times> bytes \<Rightarrow> bool" where
  "placed h e \<longleftrightarrow> (case e of (p, i, s, k) \<Rightarrow>
     k \<noteq> SEQUENCE_KEY \<and> k \<noteq> RESERVE_KEY \<and> \<not> starts_with k FAULT_KEY_PREFIX_BYTES \<and>
     i \<le> int (length h) \<and>
     (\<exists>n. counter_is h n \<and> p \<le> of_int n) \<and> (\<exists>v. lookup h k = Some (v, i)))"

lemma placed_plain:
  assumes "placed h e" "e \<in> set (positions h)" "plain_step h t"
  shows "placed (h @ [t]) e"
proof -
  obtain p i s k where e: "e = (p, i, s, k)" by (cases e)
  then have "k \<in> members h" using assms(2) positions_members by blast
  then show ?thesis
    using assms(1,3) e by (auto simp: placed_def counter_is_def lookup_snoc plain_step_values)
qed

lemma placed_ordered:
  assumes "placed h e" "ordered_step h key v vs n t"
  shows "placed (h @ [t]) e \<and> before e (of_int n, next_tx h, vs, key)"
proof -
  obtain p i s k where e: "e = (p, i, s, k)" by (cases e)
  obtain m v' where m: "k \<noteq> SEQUENCE_KEY" "k \<noteq> RESERVE_KEY \<and> \<not> starts_with k FAULT_KEY_PREFIX_BYTES" "i \<le> int (length h)" "counter_is h m"
    "p \<le> of_int m" "lookup h k = Some (v', i)"
    using assms(1) e unfolding placed_def by auto
  obtain R where ob: "t = ordered_ops R (lookup h RESERVE_KEY = None) key v vs n"
    "key \<noteq> SEQUENCE_KEY" "key \<noteq> RESERVE_KEY" "lookup h key = None"
    "case lookup h SEQUENCE_KEY of None \<Rightarrow> n = R + 1 | Some (v, u) \<Rightarrow> v = int_bytes (n - 1)"
    using assms(2) unfolding ordered_step_def by blast
  have n: "m = n - 1" using ob(5) m(4) by (auto simp: counter_is_def int_bytes_inj)
  have c: "counter_is (h @ [t]) n" using ob by (simp add: counter_is_def lookup_snoc ordered_ops_values)
  have "k \<noteq> key" using m(6) ob(4) by auto
  then have "tx_value t k = None" using m(1,2) ob(1-3) by (simp add: ordered_ops_values)
  then have l: "lookup (h @ [t]) k = Some (v', i)" using m(6) by (simp add: lookup_snoc)
  have p: "p < of_int n" using m(5) n by simp
  then have "\<exists>n. counter_is (h @ [t]) n \<and> p \<le> of_int n" using c less_imp_le by blast
  then show ?thesis using m(1-3) l p e by (simp add: placed_def before_def next_tx_def)
qed

lemma placed_new:
  assumes "ordered_step h key v vs n t"
  shows "placed (h @ [t]) (of_int n, next_tx h, vs, key)"
proof -
  obtain R where ob: "t = ordered_ops R (lookup h RESERVE_KEY = None) key v vs n"
    "key \<noteq> SEQUENCE_KEY" "key \<noteq> RESERVE_KEY" "\<not> starts_with key FAULT_KEY_PREFIX_BYTES"
    using assms unfolding ordered_step_def by blast
  then have "counter_is (h @ [t]) n" "lookup (h @ [t]) key = Some (v, next_tx h)"
    by (simp_all add: counter_is_def lookup_snoc ordered_ops_values)
  then show ?thesis using ob(2-4) by (auto simp: placed_def next_tx_def)
qed

lemma ordered_step_positions:
  "ordered_step h key v vs n t \<Longrightarrow> positions (h @ [t]) = positions h @ [(of_int n, next_tx h, vs, key)]"
  by (auto simp: ordered_step_def positions_snoc tx_positions_ordered)

lemma good_positions:
  assumes "good h"
  shows "sorted_wrt before (positions h) \<and> (\<forall>e \<in> set (positions h). placed h e)"
  using assms
proof (induction rule: good.induct)
  case (snoc h t)
  from snoc.hyps(2) show ?case unfolding good_step_def
  proof
    assume p: "plain_step h t"
    then have "positions (h @ [t]) = positions h" by (simp add: positions_snoc tx_positions_plain)
    then show ?thesis using snoc.IH placed_plain p by auto
  next
    assume "\<exists>key value view_set n. ordered_step h key value view_set n t"
    then obtain key v vs n where ob: "ordered_step h key v vs n t" by blast
    show ?thesis
      using snoc.IH placed_ordered [OF _ ob] placed_new [OF ob]
      by (auto simp: ordered_step_positions [OF ob] sorted_wrt_append)
  qed
qed simp

section \<open>The loop keeps the protocol\<close>

definition caches_ok :: "history \<Rightarrow> ('w, 'sk, 'vk) vstate \<Rightarrow> bool" where
  "caches_ok h s \<longleftrightarrow>
     (\<forall>n t. seq_cache s = Some (n, t) \<longrightarrow> wrote_at h SEQUENCE_KEY (int_bytes n) t) \<and>
     (\<forall>r. reserve_cache s = Some r \<longrightarrow> (\<exists>t. wrote_at h RESERVE_KEY (int_bytes r) t))"

lemma caches_ok_grows: "grows E h h' \<Longrightarrow> caches_ok h s \<Longrightarrow> caches_ok h' s"
  unfolding caches_ok_def using grows_wrote by blast

lemma caches_ok_world: "on_world m s = (r, s') \<Longrightarrow> caches_ok h s' \<longleftrightarrow> caches_ok h s"
  using on_world_frame [of m s r s'] by (simp add: caches_ok_def)

text \<open>One committed ordered write of this process, with the others around it.\<close>

definition landed ::
  "(history \<Rightarrow> tx \<Rightarrow> bool) \<Rightarrow> history \<Rightarrow> history \<Rightarrow> bytes \<Rightarrow> bytes \<Rightarrow> bytes \<Rightarrow> int \<Rightarrow> int \<Rightarrow> bool" where
  "landed E h0 h' key value view_set tx seq \<longleftrightarrow>
     (\<exists>h1 t. grows E h0 h1 \<and> ordered_step h1 key value view_set seq t \<and> tx = next_tx h1 \<and>
        grows E (h1 @ [t]) h')"

text \<open>Everyone else keeps the protocol too.\<close>

definition protocol :: "(history \<Rightarrow> tx \<Rightarrow> bool) \<Rightarrow> bool" where
  "protocol E \<longleftrightarrow> (\<forall>h t. E h t \<longrightarrow> good_step h t)"

lemma protocol_grows: "protocol E \<Longrightarrow> grows E h h' \<Longrightarrow> good h \<Longrightarrow> good h'"
  by (erule good_grows) (auto simp: protocol_def)

lemma landed_good: "protocol E \<Longrightarrow> good h0 \<Longrightarrow> landed E h0 h' key v vs tx seq \<Longrightarrow> good h'"
  unfolding landed_def by (meson good.snoc good_step_def protocol_grows)

lemma landed_grows: "grows E h h0 \<Longrightarrow> landed E h0 h' key v vs tx seq \<Longrightarrow> landed E h h' key v vs tx seq"
  unfolding landed_def using grows_trans [of E h0 _ h] by blast

lemma landed_up:
  "landed E h0 h' key v vs tx seq \<Longrightarrow> wrote_at h0 k u t \<Longrightarrow> wrote_at h' k u t"
  unfolding landed_def by (auto simp: wrote_at_snoc dest!: grows_wrote)

lemma landed_wrote:
  assumes "landed E h0 h' key v vs tx seq"
  shows "wrote_at h' key v tx \<and> wrote_at h' SEQUENCE_KEY (int_bytes seq) tx \<and>
    (of_int seq, tx, vs, key) \<in> set (positions h')"
proof -
  obtain h1 t where l: "ordered_step h1 key v vs seq t" "tx = next_tx h1" "grows E (h1 @ [t]) h'"
    using assms unfolding landed_def by blast
  obtain R where ob: "t = ordered_ops R (lookup h1 RESERVE_KEY = None) key v vs seq"
    "key \<noteq> SEQUENCE_KEY" "key \<noteq> RESERVE_KEY" using l(1) unfolding ordered_step_def by blast
  have "(of_int seq, tx, vs, key) \<in> set (positions (h1 @ [t]))"
    using l by (simp add: ordered_step_positions)
  moreover obtain ts where "h' = (h1 @ [t]) @ ts" using grows_prefix [OF l(3)] by blast
  moreover have "set (positions h) \<subseteq> set (positions (h @ ts))" for h ts
    by (induction ts rule: rev_induct) (auto simp: positions_snoc simp flip: append_assoc)
  moreover have "wrote_at (h1 @ [t]) key v tx" "wrote_at (h1 @ [t]) SEQUENCE_KEY (int_bytes seq) tx"
    using l(2) ob by (auto simp: wrote_at_snoc ordered_ops_values)
  ultimately show ?thesis using grows_wrote [OF l(3)] by blast
qed

subsection \<open>What one attempt observes\<close>

lemma decode_int_bytes: "decode_bytes (int_bytes n) = Inr (show_int n)"
proof -
  have "utf8_encode (show_int n) = Some (int_bytes n)"
    unfolding int_bytes_def by (rule utf8_ascii) (auto dest: show_int_ascii)
  then show ?thesis by (simp add: decode_bytes_def utf8_roundtrip)
qed

definition observed_ok :: "int \<Rightarrow> history \<Rightarrow> int option \<Rightarrow> (int \<times> int) option \<Rightarrow> bool" where
  "observed_ok reserved h b obs \<longleftrightarrow>
     (\<forall>r. b = Some r \<longrightarrow> r = reserved \<and> (\<exists>t. wrote_at h RESERVE_KEY (int_bytes reserved) t)) \<and>
     (\<forall>n t. obs = Some (n, t) \<longrightarrow> wrote_at h SEQUENCE_KEY (int_bytes n) t)"

lemma read_bound_reserve_cases:
  assumes "venv_ok E hist env" "protocol E" "good (vhist hist s)" "caches_ok (vhist hist s) s"
    "read_bound_reserve env s = (x, s')"
  shows "grows E (vhist hist s) (vhist hist s') \<and> caches_ok (vhist hist s') s' \<and>
    writer_keys s' = writer_keys s \<and>
    (\<forall>r. x = Inr (Some r) \<longrightarrow> (\<exists>t. wrote_at (vhist hist s') RESERVE_KEY (int_bytes r) t))"
proof (cases "reserve_cache s")
  case (Some r)
  then show ?thesis using assms(4,5)
    by (auto simp: read_bound_reserve_def bind_io_def peek_def ret_def caches_ok_def intro: grows.same)
next
  case None
  obtain g s1 where g: "on_world (im_get (ve_im env) RESERVE_KEY) s = (g, s1)" by fastforce
  note get = on_world_get [OF assms(1) g]
  have c: "caches_ok (vhist hist s1) s1"
    using caches_ok_grows [OF get(1) assms(4)] on_world_frame [OF g] by (simp add: caches_ok_def)
  have gd: "good (vhist hist s1)" by (rule protocol_grows [OF assms(2) get(1) assms(3)])
  have run: "(case g of Inl e \<Rightarrow> x = Inl e \<and> s' = s1 | Inr None \<Rightarrow> x = Inr None \<and> s' = s1
      | Inr (Some (v, t)) \<Rightarrow> (case bind_sum (decode_bytes v) verifier_validate_reserve of
          Inl e \<Rightarrow> x = Inl e \<and> s' = s1
        | Inr r \<Rightarrow> x = Inr (Some r) \<and> s' = s1\<lparr>reserve_cache := Some r\<rparr>))"
    using assms(5) None g
    by (auto simp: read_bound_reserve_def bind_io_def peek_def poke_def ret_def lift_io_def
        split: sum.splits option.splits)
  show ?thesis
  proof (cases "\<exists>v t. g = Inr (Some (v, t))")
    case True
    then obtain v t where vt: "g = Inr (Some (v, t))" by blast
    have w: "wrote_at (vhist hist s1) RESERVE_KEY v t" by (rule get(2) [OF vt])
    then obtain R where R: "v = int_bytes R" "reserve_in_range R"
      using good_reserve_once [OF gd w] good_bound [OF gd] by auto
    have "bind_sum (decode_bytes v) verifier_validate_reserve = Inr R"
      by (simp add: R decode_int_bytes verifier_reserve.reads_back)
    then show ?thesis using run vt get(1) c w R on_world_frame [OF g]
      by (auto simp: caches_ok_def)
  next
    case False
    then show ?thesis using run get(1) c on_world_frame [OF g]
      by (auto split: sum.splits option.splits)
  qed
qed

lemma read_counter_cases:
  assumes "venv_ok E hist env" "protocol E" "good (vhist hist s)" "caches_ok (vhist hist s) s"
    "read_counter env s = (x, s')"
  shows "grows E (vhist hist s) (vhist hist s') \<and> caches_ok (vhist hist s') s' \<and>
    writer_keys s' = writer_keys s \<and>
    (\<forall>n t. x = Inr (Some (n, t)) \<longrightarrow> wrote_at (vhist hist s') SEQUENCE_KEY (int_bytes n) t)"
proof -
  obtain g s1 where g: "on_world (im_get (ve_im env) SEQUENCE_KEY) s = (g, s1)" by fastforce
  note get = on_world_get [OF assms(1) g]
  have c: "caches_ok (vhist hist s1) s1"
    using caches_ok_grows [OF get(1) assms(4)] on_world_frame [OF g] by (simp add: caches_ok_def)
  have gd: "good (vhist hist s1)" by (rule protocol_grows [OF assms(2) get(1) assms(3)])
  have run: "s' = s1" "x = Inr (Some (n, t)) \<Longrightarrow> \<exists>v. g = Inr (Some (v, t)) \<and>
      bind_sum (decode_bytes v) (\<lambda>s. of_option ValueError (py_int s)) = Inr n" for n t
    using assms(5) g by (auto simp: read_counter_def bind_io_def ret_def lift_io_def
        split: sum.splits option.splits prod.splits)
  have "wrote_at (vhist hist s1) SEQUENCE_KEY (int_bytes n) t" if xs: "x = Inr (Some (n, t))" for n t
  proof -
    obtain v where v: "g = Inr (Some (v, t))" 
      "bind_sum (decode_bytes v) (\<lambda>s. of_option ValueError (py_int s)) = Inr n" using run(2) [OF xs] by blast
    have w: "wrote_at (vhist hist s1) SEQUENCE_KEY v t" by (rule get(2) [OF v(1)])
    obtain m where "v = int_bytes m" using good_counter_written [OF gd w] by blast
    then show ?thesis using v(2) w by (simp add: decode_int_bytes)
  qed
  then show ?thesis using run(1) get(1) c on_world_frame [OF g] by simp
qed

lemma observe_cases:
  assumes "venv_ok E hist env" "protocol E" "good (vhist hist s)" "caches_ok (vhist hist s) s"
    "observe env s = (x, s')"
  shows "grows E (vhist hist s) (vhist hist s') \<and> caches_ok (vhist hist s') s' \<and>
    writer_keys s' = writer_keys s \<and>
    (\<forall>b obs. x = Inr (b, obs) \<longrightarrow> observed_ok (ve_reserved env) (vhist hist s') b obs)"
  using assms(5) unfolding observe_def
proof (cases rule: bind_ioE)
  case (1 e)
  then show ?thesis using read_bound_reserve_cases [OF assms(1-4) 1(1)] by simp
next
  case (2 b s1)
  note r = read_bound_reserve_cases [OF assms(1-4) 2(1)]
  have gd: "good (vhist hist s1)" using protocol_grows [OF assms(2) _ assms(3)] r by blast
  have c: "caches_ok (vhist hist s1) s1" using r by blast
  show ?thesis
  proof (cases "b \<noteq> None \<and> the b \<noteq> ve_reserved env")
    case True
    then show ?thesis using 2(2) r by (auto simp: raise_io_def)
  next
    case False
    then have b: "b = None \<or> b = Some (ve_reserved env)" by (cases b) auto
    let ?cached = "if ve_cache_enabled env then seq_cache s1 else None"
    show ?thesis
    proof (cases ?cached)
      case None
      then have "bind_io (read_counter env) (\<lambda>observed. ret (b, observed)) s1 = (x, s')"
        using 2(2) False by (auto simp: bind_io_def peek_def)
      then obtain y s2 where y: "read_counter env s1 = (y, s')" "x = map_sum id (\<lambda>obs. (b, obs)) y"
        by (auto simp: bind_io_def ret_def split: prod.splits sum.splits)
      note rc = read_counter_cases [OF assms(1,2) gd c y(1)]
      have g: "grows E (vhist hist s1) (vhist hist s')" using rc by blast
      have "observed_ok (ve_reserved env) (vhist hist s') b obs" if "x = Inr (b', obs)" for b' obs
        using that y(2) rc r b grows_wrote [OF g] unfolding observed_ok_def
        by (cases y) (auto, blast+)
      then show ?thesis using rc r grows_trans [OF g] y(2) by (cases y) auto
    next
      case (Some obs)
      then have "x = Inr (b, Some obs)" "s' = s1"
        using 2(2) False by (auto simp: bind_io_def peek_def ret_def)
      moreover have "seq_cache s1 = Some obs" using Some by (auto split: if_splits)
      ultimately show ?thesis using r b by (auto simp: observed_ok_def caches_ok_def)
    qed
  qed
qed

subsection \<open>What one request commits\<close>

text \<open>The preconditions of a request make its transaction a step of the protocol.\<close>

lemma preconditions_ordered:
  assumes "good h" "observed_ok reserved h0 b obs" "grows E h0 h"
    "list_all (pre_holds h) (ordered_preconditions (b = None) key obs)"
    "key \<noteq> SEQUENCE_KEY" "key \<noteq> RESERVE_KEY \<and> \<not> starts_with key FAULT_KEY_PREFIX_BYTES" "reserve_in_range reserved"
    "next_position reserved obs < MAX_POSITION"
  shows "ordered_step h key v vs (next_position reserved obs)
     (ordered_ops reserved (b = None) key v vs (next_position reserved obs))"
proof -
  have key: "lookup h key = None"
    using assms(4) by (auto simp: ordered_preconditions_def pre_holds_def)
  have res: "(lookup h RESERVE_KEY = None \<longleftrightarrow> b = None) \<and>
      (case lookup h RESERVE_KEY of None \<Rightarrow> True | Some (v, u) \<Rightarrow> v = int_bytes reserved)"
  proof (cases b)
    case None
    then show ?thesis using assms(4) by (auto simp: ordered_preconditions_def pre_holds_def)
  next
    case (Some r)
    then obtain t where "wrote_at h0 RESERVE_KEY (int_bytes reserved) t"
      using assms(2) by (auto simp: observed_ok_def)
    then have "lookup h RESERVE_KEY = Some (int_bytes reserved, t)"
      using good_reserve_once [OF assms(1)] grows_wrote [OF assms(3)] by blast
    then show ?thesis using Some by simp
  qed
  have seq: "case lookup h SEQUENCE_KEY of None \<Rightarrow> next_position reserved obs = reserved + 1
      | Some (v, u) \<Rightarrow> v = int_bytes (next_position reserved obs - 1)"
  proof (cases obs)
    case None
    then show ?thesis
      using assms(4) by (auto simp: ordered_preconditions_def pre_holds_def next_position_def)
  next
    case (Some p)
    obtain n t where p: "p = (n, t)" by fastforce
    then have w: "wrote_at h SEQUENCE_KEY (int_bytes n) t"
      using assms(2) Some grows_wrote [OF assms(3)] by (auto simp: observed_ok_def)
    obtain v' t' where l: "lookup h SEQUENCE_KEY = Some (v', t')" "t \<le> t'" using wrote_lookup [OF w] by blast
    have "t' \<le> t" using assms(4) Some p l(1) by (auto simp: ordered_preconditions_def pre_holds_def)
    then have "v' = int_bytes n"
      using l lookup_wrote [OF l(1)] wrote_at_unique [OF w] by simp
    then show ?thesis using l(1) Some p by (simp add: next_position_def)
  qed
  show ?thesis
    unfolding ordered_step_def
    by (intro exI [of _ reserved] conjI) (use assms(5-8) key res seq in \<open>auto split: option.splits\<close>)
qed

lemma exec_cases:
  assumes "venv_ok E hist env" "protocol E" "good (vhist hist s)"
    "observed_ok (ve_reserved env) (vhist hist s) b obs"
    "key \<noteq> SEQUENCE_KEY" "key \<noteq> RESERVE_KEY \<and> \<not> starts_with key FAULT_KEY_PREFIX_BYTES" "next_position (ve_reserved env) obs < MAX_POSITION"
    "on_world (im_exec_all (ve_im env)
        (ordered_ops (ve_reserved env) (b = None) key v vs (next_position (ve_reserved env) obs))
        (ordered_preconditions (b = None) key obs)) s = (x, s')"
  shows "case x of
      Inr (Some tx) \<Rightarrow> landed E (vhist hist s) (vhist hist s') key v vs tx (next_position (ve_reserved env) obs)
    | Inr None \<Rightarrow> \<exists>tx. landed E (vhist hist s) (vhist hist s') key v vs tx (next_position (ve_reserved env) obs)
    | Inl e \<Rightarrow> \<not> is_budget e \<and> (grows E (vhist hist s) (vhist hist s') \<or> \<not> precondition_failed e \<and>
        (\<exists>tx. landed E (vhist hist s) (vhist hist s') key v vs tx (next_position (ve_reserved env) obs)))"
proof -
  let ?n = "next_position (ve_reserved env) obs"
  let ?ops = "ordered_ops (ve_reserved env) (b = None) key v vs ?n"
  let ?pre = "ordered_preconditions (b = None) key obs"
  obtain w' where w: "im_exec_all (ve_im env) ?ops ?pre (world s) = (x, w')" "s' = s\<lparr>world := w'\<rparr>"
    using assms(8) by (auto simp: on_world_def split: prod.splits)
  have ex: "exec_ok E hist (ve_im env)" and range: "reserve_in_range (ve_reserved env)"
    using assms(1) by (simp_all add: venv_ok_def immudb_ok_def)
  have landed: "landed E (vhist hist s) (vhist hist s') key v vs tx ?n"
    if "grows E (hist (world s)) h1" "list_all (pre_holds h1) ?pre" "tx = next_tx h1"
      "grows E (h1 @ [?ops]) (hist w')" for h1 tx
  proof -
    have "good h1" using protocol_grows [OF assms(2) that(1)] assms(3) by (simp add: vhist_def)
    moreover have "grows E (vhist hist s) h1" using that(1) by (simp add: vhist_def)
    ultimately have "ordered_step h1 key v vs ?n ?ops"
      using preconditions_ordered [OF _ assms(4) _ that(2) assms(5,6) range assms(7)] by blast
    then show ?thesis using that unfolding landed_def w(2) vhist_def by auto
  qed
  show ?thesis
    using ex [unfolded exec_ok_def, rule_format, OF w(1)] landed w(2)
    by (auto simp: Let_def vhist_def split: sum.splits option.splits)
qed

lemma exec_binds:
  assumes "venv_ok E hist env" "observed_ok (ve_reserved env) (vhist hist s) b obs"
    "key \<noteq> SEQUENCE_KEY" "key \<noteq> RESERVE_KEY \<and> \<not> starts_with key FAULT_KEY_PREFIX_BYTES"
    "on_world (im_exec_all (ve_im env)
        (ordered_ops (ve_reserved env) (b = None) key v vs n) ps) s = (Inr (Some tx), s')"
  shows "\<exists>t. wrote_at (vhist hist s') RESERVE_KEY (int_bytes (ve_reserved env)) t"
proof -
  let ?ops = "ordered_ops (ve_reserved env) (b = None) key v vs n"
  obtain w' where w: "im_exec_all (ve_im env) ?ops ps (world s) = (Inr (Some tx), w')" "s' = s\<lparr>world := w'\<rparr>"
    using assms(5) by (auto simp: on_world_def split: prod.splits)
  have "exec_ok E hist (ve_im env)" using assms(1) by (simp add: venv_ok_def immudb_ok_def)
  from this [unfolded exec_ok_def, rule_format, OF w(1)]
  obtain h1 where h1: "grows E (hist (world s)) h1" "grows E (h1 @ [?ops]) (hist w')" by (auto simp: Let_def)
  show ?thesis
  proof (cases b)
    case None
    then have "wrote_at (h1 @ [?ops]) RESERVE_KEY (int_bytes (ve_reserved env)) (next_tx h1)"
      using assms(3,4) by (auto simp: wrote_at_snoc ordered_ops_values)
    then show ?thesis using grows_wrote [OF h1(2)] w(2) by auto
  next
    case (Some r)
    then obtain t where "wrote_at (hist (world s)) RESERVE_KEY (int_bytes (ve_reserved env)) t"
      using assms(2) by (auto simp: observed_ok_def vhist_def)
    then have "wrote_at (h1 @ [?ops]) RESERVE_KEY (int_bytes (ve_reserved env)) t"
      using grows_wrote [OF h1(1)] by (simp add: wrote_at_snoc)
    then show ?thesis using grows_wrote [OF h1(2)] w(2) by auto
  qed
qed

subsection \<open>The loop\<close>

definition commit_ok ::
  "(history \<Rightarrow> tx \<Rightarrow> bool) \<Rightarrow> history \<Rightarrow> history \<Rightarrow> bytes \<Rightarrow> bytes \<Rightarrow> bytes \<Rightarrow> bool \<Rightarrow> nat \<Rightarrow>
   commit_error + int \<times> int \<times> nat \<Rightarrow> bool" where
  "commit_ok E h0 h' key value view_set issued most r \<longleftrightarrow>
     (case r of
        Inr (tx, seq, n) \<Rightarrow> landed E h0 h' key value view_set tx seq \<and> n \<le> most
      | Inl (Plain e) \<Rightarrow> \<not> issued \<and> grows E h0 h'
      | Inl (KeyExists k) \<Rightarrow> k = key \<and> grows E h0 h' \<and> (\<exists>v t. wrote_at h' key v t)
      | Inl (Uncertain e next n) \<Rightarrow>
          n \<le> most \<and> (grows E h0 h' \<or>
            \<not> is_budget e \<and> (\<exists>tx seq. next = Some seq \<and> landed E h0 h' key value view_set tx seq)))"

lemma commit_ok_earlier:
  assumes "grows E h h0" "commit_ok E h0 h' key v vs issued most r" "issued' \<Longrightarrow> issued"
  shows "commit_ok E h h' key v vs issued' most r"
  using assms grows_trans [of E h0 h' h] landed_grows [OF assms(1)]
  by (auto simp: commit_ok_def split: sum.splits commit_error.splits) blast+

definition loop_post where
  "loop_post E hist env h0 key v vs issued most r s s' \<longleftrightarrow>
     good (vhist hist s') \<and> caches_ok (vhist hist s') s' \<and> writer_keys s' = writer_keys s \<and>
     (\<exists>a. r = Inr a \<and> commit_ok E h0 (vhist hist s') key v vs issued most a)"

lemma ordered_try_cases:
  assumes "venv_ok E hist env" "protocol E" "good (vhist hist s)" "caches_ok (vhist hist s) s"
    "key \<noteq> SEQUENCE_KEY" "key \<noteq> RESERVE_KEY \<and> \<not> starts_with key FAULT_KEY_PREFIX_BYTES" "ordered_try env key v vs s = (x, s')"
  shows "good (vhist hist s') \<and> caches_ok (vhist hist s') s' \<and> writer_keys s' = writer_keys s \<and>
    (\<exists>t. x = Inr t \<and> (case t of
       TryRaised exc next \<Rightarrow> grows E (vhist hist s) (vhist hist s')
     | TryIssued next binds (Inl e) \<Rightarrow> \<not> is_budget e \<and> (grows E (vhist hist s) (vhist hist s') \<or>
         \<not> precondition_failed e \<and> (\<exists>tx. landed E (vhist hist s) (vhist hist s') key v vs tx next))
     | TryIssued next binds (Inr None) \<Rightarrow> \<exists>tx. landed E (vhist hist s) (vhist hist s') key v vs tx next
     | TryIssued next binds (Inr (Some tx)) \<Rightarrow> landed E (vhist hist s) (vhist hist s') key v vs tx next \<and>
         (\<exists>u. wrote_at (vhist hist s') RESERVE_KEY (int_bytes (ve_reserved env)) u)))"
proof -
  obtain ob s1 where ob: "observe env s = (ob, s1)" by fastforce
  note o1 = observe_cases [OF assms(1-4) ob]
  have g1: "grows E (vhist hist s) (vhist hist s1)" using o1 by blast
  have gd1: "good (vhist hist s1)" by (rule protocol_grows [OF assms(2) g1 assms(3)])
  show ?thesis
  proof (cases "\<exists>e. ob = Inl e \<or> (\<exists>b obs. ob = Inr (b, obs) \<and> next_position (ve_reserved env) obs \<ge> MAX_POSITION)")
    case True
    then show ?thesis using assms(7) ob o1 g1 gd1
      by (auto simp: ordered_try_def attempt_def ret_def Let_def)
  next
    case False
    then obtain b obs where p: "ob = Inr (b, obs)" "next_position (ve_reserved env) obs < MAX_POSITION"
      by (cases ob) (auto simp: not_le)
    have obs: "observed_ok (ve_reserved env) (vhist hist s1) b obs" using o1 p by blast
    let ?n = "next_position (ve_reserved env) obs"
    obtain y s2 where y: "on_world (im_exec_all (ve_im env)
        (ordered_ops (ve_reserved env) (b = None) key v vs ?n) (ordered_preconditions (b = None) key obs)) s1 = (y, s2)"
      by fastforce
    note ex = exec_cases [OF assms(1,2) gd1 obs assms(5,6) p(2) y]
    have run: "x = Inr (TryIssued ?n (b = None) y)" "s' = s2"
      using assms(7) ob p y by (simp_all add: ordered_try_def attempt_def ret_def Let_def)
    have gd2: "good (vhist hist s2)"
      using ex protocol_grows [OF assms(2) _ gd1] landed_good [OF assms(2) gd1]
      by (auto split: sum.splits option.splits)
    have "grows E (vhist hist s1) (vhist hist s2) \<or> (\<exists>tx. landed E (vhist hist s1) (vhist hist s2) key v vs tx ?n)"
      using ex by (auto split: sum.splits option.splits)
    then have up: "wrote_at (vhist hist s1) k u t \<Longrightarrow> wrote_at (vhist hist s2) k u t" for k u t
      using landed_up grows_wrote by blast
    have c2: "caches_ok (vhist hist s2) s2"
      using o1 up on_world_frame [OF y] unfolding caches_ok_def by metis
    have keys: "writer_keys s2 = writer_keys s" using on_world_frame [OF y] o1 by simp
    show ?thesis
      using run gd2 c2 keys ex landed_grows [OF g1] grows_trans [OF _ g1]
        exec_binds [OF assms(1) obs assms(5,6) y [THEN trans]]
      by (auto split: sum.split option.split) blast+
  qed
qed

text \<open>The three ways an attempt ends, and the retry.\<close>

lemma ordered_loop_ok:
  assumes "venv_ok E hist env" "protocol E" "key \<noteq> SEQUENCE_KEY" "key \<noteq> RESERVE_KEY \<and> \<not> starts_with key FAULT_KEY_PREFIX_BYTES"
  shows "good (vhist hist s) \<Longrightarrow> caches_ok (vhist hist s) s \<Longrightarrow>
    ordered_loop env key v vs left attempts issued last_next s = (r, s') \<Longrightarrow>
    loop_post E hist env (vhist hist s) key v vs issued (attempts + left) r s s'"
proof (induction left arbitrary: attempts issued last_next s)
  case 0
  then show ?case
    by (auto simp: loop_post_def ret_def escape_def commit_ok_def intro: grows.same)
next
  case (Suc left)
  obtain q s1 where q: "ordered_try env key v vs s = (q, s1)" by fastforce
  note o1 = ordered_try_cases [OF assms(1,2) Suc.prems(1,2) assms(3,4) q]
  obtain t where t: "q = Inr t" using o1 by blast
  note run = Suc.prems(3)[unfolded ordered_loop.simps bind_io_def q t, simplified]
  show ?case
  proof (cases t)
    case (TryRaised exc nx)
    then show ?thesis using run o1 t by (auto simp: loop_post_def ret_def escape_def commit_ok_def)
  next
    case (TryIssued n binds y)
    show ?thesis
    proof (cases y)
      case (Inr resp)
      show ?thesis
      proof (cases resp)
        case None
        then show ?thesis using run o1 t TryIssued Inr
          by (auto simp: loop_post_def ret_def commit_ok_def)
      next
        case (Some tx)
        have l: "landed E (vhist hist s) (vhist hist s1) key v vs tx n"
          "\<exists>u. wrote_at (vhist hist s1) RESERVE_KEY (int_bytes (ve_reserved env)) u"
          using o1 t TryIssued Inr Some by auto
        have s': "vhist hist s' = vhist hist s1" "seq_cache s' = Some (n, tx)" "writer_keys s' = writer_keys s"
          "reserve_cache s' = (if binds then Some (ve_reserved env) else reserve_cache s1)"
          "r = Inr (Inr (tx, n, Suc attempts))"
          using run t TryIssued Inr Some o1 by (auto simp: bind_io_def poke_def ret_def split: if_splits)
        have "caches_ok (vhist hist s') s'"
          using landed_wrote [OF l(1)] l(2) o1 unfolding caches_ok_def s' by auto
        then show ?thesis
          using l(1) o1 by (simp add: loop_post_def s' commit_ok_def)
      qed
    next
      case (Inl e)
      show ?thesis
      proof (cases "precondition_failed e")
        case False
        then show ?thesis using run o1 t TryIssued Inl
          by (auto simp: loop_post_def ret_def commit_ok_def)
      next
        case True
        have g2: "grows E (vhist hist s) (vhist hist s1)" using o1 t TryIssued Inl True by auto
        obtain y s3 where y: "record_key_present env key s1 = (y, s3)" by fastforce
        obtain g where g: "on_world (im_get (ve_im env) key) s1 = (g, s3)"
          "y = Inr (case g of Inl _ \<Rightarrow> False | Inr got \<Rightarrow> got \<noteq> None)"
          using y by (auto simp: record_key_present_def attempt_def ret_def split: prod.splits sum.splits)
        note get = on_world_get [OF assms(1) g(1)]
        have g3: "grows E (vhist hist s) (vhist hist s3)" by (rule grows_trans [OF get(1) g2])
        have gd3: "good (vhist hist s3)" by (rule protocol_grows [OF assms(2) g3 Suc.prems(1)])
        have c3: "caches_ok (vhist hist s3) s3"
          using caches_ok_grows [OF get(1), of s1] caches_ok_world [OF g(1)] o1 by blast
        have k3: "writer_keys s3 = writer_keys s" using o1 on_world_frame [OF g(1)] by simp
        show ?thesis
        proof (cases "\<exists>u t. g = Inr (Some (u, t))")
          case present: True
          then have "y = Inr True" using g(2) by auto
          then have "r = Inr (Inl (KeyExists key)) \<and> s' = s3"
            using run t TryIssued Inl True y by (auto simp: bind_io_def ret_def)
          then show ?thesis using present get(2) g3 gd3 c3 k3
            by (auto simp: loop_post_def commit_ok_def)
        next
          case none: False
          let ?s4 = "s3\<lparr>seq_cache := None, reserve_cache := None\<rparr>"
          have "y = Inr False" using none g(2) by (auto split: sum.splits)
          then have "ordered_loop env key v vs left (Suc attempts) True (Some n) ?s4 = (r, s')"
            using run t TryIssued Inl True y by (auto simp: bind_io_def poke_def)
          from Suc.IH [OF _ _ this]
          have "loop_post E hist env (vhist hist ?s4) key v vs True (Suc attempts + left) r ?s4 s'"
            using gd3 by (simp add: caches_ok_def)
          then show ?thesis
            using commit_ok_earlier [OF g3, where issued = True and issued' = issued] k3
            by (auto simp: loop_post_def)
        qed
      qed
    qed
  qed
qed

lemma ordered_commit_ok:
  assumes "venv_ok E hist env" "protocol E" "key \<noteq> SEQUENCE_KEY" "key \<noteq> RESERVE_KEY \<and> \<not> starts_with key FAULT_KEY_PREFIX_BYTES"
    "good (vhist hist s)" "caches_ok (vhist hist s) s" "ordered_commit env key v vs s = (r, s')"
  shows "loop_post E hist env (vhist hist s) key v vs False (nat (ve_max_attempts env)) r s s'"
  using ordered_loop_ok [OF assms(1-6) assms(7) [unfolded ordered_commit_def]] by simp

section \<open>Records are written once\<close>

lemma good_indexed_once:
  assumes "good h" "(p, i, s, k) \<in> set (positions h)" "wrote_at h k v t"
  shows "lookup h k = Some (v, t) \<and> t = i"
  using assms
proof (induction rule: good.induct)
  case (snoc h x)
  have old: ?case if inh: "(p, i, s, k) \<in> set (positions h)"
  proof -
    have nk: "tx_value x k = None"
      using snoc.hyps(2) unfolding good_step_def
    proof
      assume "plain_step h x"
      then show ?thesis using inh positions_members by (intro plain_step_values) blast+
    next
      assume "\<exists>key value view_set n. ordered_step h key value view_set n x"
      then obtain key v vs n R where ob: "x = ordered_ops R (lookup h RESERVE_KEY = None) key v vs n"
        "key \<noteq> SEQUENCE_KEY" "key \<noteq> RESERVE_KEY" "lookup h key = None" unfolding ordered_step_def by blast
      have pl: "placed h (p, i, s, k)" using good_positions [OF snoc.hyps(1)] inh by blast
      then have "k \<noteq> key" using ob(4) by (auto simp: placed_def)
      then show ?thesis using ob pl by (simp add: ordered_ops_values placed_def)
    qed
    then have "wrote_at h k v t" using snoc.prems(2) by (simp add: wrote_at_snoc)
    then show ?thesis using snoc.IH [OF inh] nk by (simp add: lookup_snoc)
  qed
  from snoc.hyps(2) show ?case unfolding good_step_def
  proof
    assume "plain_step h x"
    then show ?thesis using old snoc.prems(1) by (simp add: positions_snoc tx_positions_plain)
  next
    assume "\<exists>key value view_set n. ordered_step h key value view_set n x"
    then obtain key v' vs n where o1: "ordered_step h key v' vs n x" by blast
    then obtain R where ob: "x = ordered_ops R (lookup h RESERVE_KEY = None) key v' vs n"
      "key \<noteq> SEQUENCE_KEY" "key \<noteq> RESERVE_KEY" "lookup h key = None" unfolding ordered_step_def by blast
    show ?thesis
    proof (cases "(p, i, s, k) \<in> set (positions h)")
      case False
      then have "k = key" "i = next_tx h" using snoc.prems(1) ordered_step_positions [OF o1] by auto
      then show ?thesis
        using snoc.prems(2) ob by (auto simp: wrote_at_snoc unwritten_iff lookup_snoc ordered_ops_values)
    qed (rule old)
  qed
qed simp

text \<open>A fault record is a plain step: no indexed record has a fault key.\<close>

lemma fault_prefix_keys: "\<not> starts_with SEQUENCE_KEY FAULT_KEY_PREFIX_BYTES" "\<not> starts_with RESERVE_KEY FAULT_KEY_PREFIX_BYTES"
  by (simp_all add: SEQUENCE_KEY_def RESERVE_KEY_def FAULT_KEY_PREFIX_BYTES_def FAULT_KEY_PREFIX_def
      encode_ascii_def lit_def)

lemma fault_write_plain: "good h \<Longrightarrow> fault_write t \<Longrightarrow> plain_step h t"
  using good_positions [of h] fault_prefix_keys
  by (fastforce simp: fault_write_def plain_step_def positions_members placed_def)

lemma good_with_faults:
  "grows (with_faults E) h h' \<Longrightarrow> protocol E \<Longrightarrow> good h \<Longrightarrow> good h'"
proof (induction rule: grows.induct)
  case (step h h' t)
  then show ?case
    by (auto simp: with_faults_def protocol_def good_step_def intro!: good.snoc dest: fault_write_plain)
qed

section \<open>Properties of the commit\<close>

text \<open>
  C3: whatever other verifiers do between its calls, as long as they follow the same
  protocol, an ordered commit leaves a ledger whose positions, in commit order, are strictly
  increasing together with their transactions; when it returns, its record is in the ledger at
  the transaction it names, under the position it names, within the allowed attempts; when it
  raises before a request was issued, it wrote nothing.
\<close>

theorem ordered_commit_keeps_the_order:
  assumes "venv_ok E hist env" "protocol E" "good (vhist hist s)" "caches_ok (vhist hist s) s"
    and "key \<noteq> SEQUENCE_KEY" "key \<noteq> RESERVE_KEY" "\<not> starts_with key FAULT_KEY_PREFIX_BYTES"
    and "ordered_commit env key value view_set s = (r, s')"
  shows "good (vhist hist s') \<and> caches_ok (vhist hist s') s' \<and> sorted_wrt before (positions (vhist hist s')) \<and>
    (case r of
       Inr (Inr (tx, seq, n)) \<Rightarrow> wrote_at (vhist hist s') key value tx \<and>
         (of_int seq, tx, view_set, key) \<in> set (positions (vhist hist s')) \<and> n \<le> nat (ve_max_attempts env)
     | Inr (Inl (Plain e)) \<Rightarrow> grows E (vhist hist s) (vhist hist s')
     | Inr (Inl (KeyExists k)) \<Rightarrow> grows E (vhist hist s) (vhist hist s') \<and> (\<exists>v t. wrote_at (vhist hist s') key v t)
     | Inr (Inl (Uncertain e next n)) \<Rightarrow> n \<le> nat (ve_max_attempts env)
     | Inl e \<Rightarrow> False)"
proof -
  have p: "loop_post E hist env (vhist hist s) key value view_set False (nat (ve_max_attempts env)) r s s'"
    using ordered_commit_ok [OF assms(1,2,5) _ assms(3,4,8)] assms(6,7) by blast
  then obtain a where a: "r = Inr a" "commit_ok E (vhist hist s) (vhist hist s') key value view_set False
      (nat (ve_max_attempts env)) a" "good (vhist hist s')" "caches_ok (vhist hist s') s'"
    unfolding loop_post_def by blast
  then show ?thesis
    using good_positions [OF a(3)]
    by (auto simp: commit_ok_def split: sum.splits commit_error.splits dest: landed_wrote)
qed

lemma test_state_start:
  "good (vhist fst (test_state [] fs))" "caches_ok (vhist fst (test_state [] fs)) (test_state [] fs)"
  "protocol (\<lambda>_ _. False)"
  by (simp_all add: vhist_def test_state_def good.empty caches_ok_def protocol_def)

theorem ordered_commit_keeps_the_order_witness:
  "\<exists>r s'. ordered_commit test_env ''tool_call:a'' ''{}'' ''ail_view:decision:v1'' (test_state [] []) = (r, s') \<and>
     good (vhist fst s') \<and> sorted_wrt before (positions (vhist fst s'))"
proof -
  obtain r s' where r: "ordered_commit test_env ''tool_call:a'' ''{}'' ''ail_view:decision:v1'' (test_state [] []) = (r, s')"
    by fastforce
  show ?thesis
    using ordered_commit_keeps_the_order [OF test_env_ok test_state_start(3,1,2) _ _ _ r] r
    by (auto simp: SEQUENCE_KEY_def RESERVE_KEY_def FAULT_KEY_PREFIX_BYTES_def FAULT_KEY_PREFIX_def
      encode_ascii_def lit_def)
qed

end
