(* ===== verification/OrderedRoute.thy ===== *)
theory OrderedRoute
  imports OrderedLedger
begin

text \<open>
  What \<open>POST /write-ordered\<close> answers: its three-valued \<open>committed\<close> against the
  history of the ledger, and that an uncontended write goes through.
\<close>

section \<open>The parts of the route\<close>

text \<open>Other writers do not write these bytes under this key.\<close>

definition others_silent :: "(history \<Rightarrow> tx \<Rightarrow> bool) \<Rightarrow> bytes \<Rightarrow> bytes \<Rightarrow> bool" where
  "others_silent E key value \<longleftrightarrow> (\<forall>h t. E h t \<longrightarrow> tx_value t key \<noteq> Some value)"

definition unwritten :: "history \<Rightarrow> bytes \<Rightarrow> bytes \<Rightarrow> bool" where
  "unwritten h key value \<longleftrightarrow> (\<forall>t. \<not> wrote_at h key value t)"

lemma unwritten_grows:
  "grows E h h' \<Longrightarrow> others_silent E key value \<Longrightarrow> unwritten h key value \<Longrightarrow> unwritten h' key value"
  by (induction rule: grows.induct) (auto simp: unwritten_def wrote_at_snoc others_silent_def)

definition indexed :: "history \<Rightarrow> bytes \<Rightarrow> bytes \<Rightarrow> bytes \<Rightarrow> bool" where
  "indexed h view_set key value \<longleftrightarrow> (\<exists>p i. (p, i, view_set, key) \<in> set (positions h) \<and> wrote_at h key value i)"

lemma landed_indexed: "landed E h0 h' key v vs tx seq \<Longrightarrow> indexed h' vs key v"
  using landed_wrote by (fastforce simp: indexed_def)

lemma positions_append: "set (positions h) \<subseteq> set (positions (h @ ts))"
  by (induction ts rule: rev_induct) (auto simp: positions_snoc simp flip: append_assoc)

lemma indexed_grows: "grows E h h' \<Longrightarrow> indexed h vs key v \<Longrightarrow> indexed h' vs key v"
  using grows_prefix [of E h h'] positions_append [of h] grows_wrote [of E h h'] unfolding indexed_def by blast

lemma indexed_only: "good h \<Longrightarrow> indexed h vs key v \<Longrightarrow> wrote_at h key v' t \<Longrightarrow> v' = v"
  unfolding indexed_def by (metis good_indexed_once option.inject prod.inject)

lemma zadd_positions: "ZAdd s p k \<in> set (concat h) \<Longrightarrow> \<exists>i. (p, i, s, k) \<in> set (positions h)"
proof (induction h rule: rev_induct)
  case (snoc t h)
  then show ?case by (force simp: positions_snoc tx_positions_def)
qed simp

text \<open>The answers about one ordered write.\<close>

definition ordered_answer_true :: "history \<Rightarrow> bytes \<Rightarrow> bytes \<Rightarrow> bytes \<Rightarrow> ordered_response \<Rightarrow> bool" where
  "ordered_answer_true h view_set key value r \<longleftrightarrow>
     (case or_committed r of
        Some True \<Rightarrow> (\<exists>t. or_tx_id r = Some t \<and> wrote_at h key value t \<and>
          (\<forall>p. or_seq r = Some p \<longrightarrow> (of_int p, t, view_set, key) \<in> set (positions h)))
      | Some False \<Rightarrow> or_tx_id r = None \<and> or_seq r = None \<and> unwritten h key value
      | None \<Rightarrow> or_tx_id r = None \<and> or_seq r = None) \<and>
     (or_verified r \<longrightarrow> or_committed r = Some True \<and> or_seq r \<noteq> None)"

lemma confirm_position_sound:
  "confirm_position key n es = Some p \<Longrightarrow> p = n \<and> (Some key, Some (of_int n)) \<in> set es"
  by (induction key n es rule: confirm_position.induct) (auto split: if_splits option.splits)

lemma committed_position_for_cases:
  assumes "venv_ok E hist env" "committed_position_for env vs key attempted s = (r, s')"
  shows "grows E (vhist hist s) (vhist hist s') \<and>
    (\<exists>q. r = Inr q \<and> (\<forall>p. q = Some p \<longrightarrow> (\<exists>i. (of_int p, i, vs, key) \<in> set (positions (vhist hist s')))))"
proof (cases attempted)
  case None
  then show ?thesis using assms(2) by (auto simp: committed_position_for_def ret_def grows.same)
next
  case (Some n)
  obtain g s1 where g: "on_world (im_zscan (ve_im env) vs (of_int n) (of_int n) 100) s = (g, s1)" by fastforce
  have g1: "grows E (vhist hist s) (vhist hist s1)"
    using keeps_client_reads(3) [OF assms(1)] g by (rule keepsD)
  obtain w' where w: "im_zscan (ve_im env) vs (of_int n) (of_int n) 100 (world s) = (g, w')" "s1 = s\<lparr>world := w'\<rparr>"
    using g by (auto simp: on_world_def split: prod.splits)
  have z: "zscan_ok E hist (ve_im env)" using assms(1) by (simp add: venv_ok_def immudb_ok_def)
  have zadd: "ZAdd vs (of_int n) key \<in> set (concat (hist w'))"
    if "g = Inr es" "(Some key, Some (of_int n)) \<in> set es" for es
    using z [unfolded zscan_ok_def] w(1) that by blast
  have run: "s' = s1" "r = Inr (case g of Inl _ \<Rightarrow> None | Inr es \<Rightarrow> confirm_position key n es)"
    using assms(2) Some g by (auto simp: committed_position_for_def attempt_def ret_def split: sum.splits)
  have "\<exists>i. (of_int p, i, vs, key) \<in> set (positions (vhist hist s1))"
    if "(case g of Inl _ \<Rightarrow> None | Inr es \<Rightarrow> confirm_position key n es) = Some p" for p
    using that confirm_position_sound [of key n _ p] zadd zadd_positions [of vs "of_int n" key "hist w'"] w(2)
    by (auto split: sum.splits)
  then show ?thesis using run g1 by auto
qed

text \<open>After a lost response: the record landed, or its bytes are not in the ledger.\<close>

lemma ordered_uncertain_true:
  assumes "venv_ok E hist env" "protocol E" "others_silent E key value" "good (vhist hist s)"
    "unwritten (vhist hist s) key value \<or> \<not> is_budget cause \<and> indexed (vhist hist s) vs key value"
    "ordered_uncertain env key value vs cause attempted n s = (x, s')"
  shows "grows E (vhist hist s) (vhist hist s') \<and>
    (\<exists>r. x = Inr r \<and> ordered_answer_true (vhist hist s') vs key value r \<and> or_fault_record r = None)"
proof -
  obtain q s1 where q: "committed_tx_for_value env key value s = (q, s1)" by fastforce
  obtain p where p: "q = Inr p" "grows E (vhist hist s) (vhist hist s1)"
    "\<And>t. p = PRESENT t \<Longrightarrow> wrote_at (vhist hist s1) key value t"
    "p = ABSENT \<Longrightarrow> \<exists>v' t. v' \<noteq> value \<and> wrote_at (vhist hist s1) key v' t"
    using committed_tx_for_value_cases [OF assms(1) q] by metis
  have gd1: "good (vhist hist s1)" by (rule protocol_grows [OF assms(2) p(2) assms(4)])
  have st: "unwritten (vhist hist s1) key value \<or> \<not> is_budget cause \<and> indexed (vhist hist s1) vs key value"
    using assms(5) unwritten_grows [OF p(2) assms(3)] indexed_grows [OF p(2)] by blast
  note run = assms(6)[unfolded ordered_uncertain_def bind_io_def q p(1), simplified]
  show ?thesis
  proof (cases p)
    case (PRESENT t)
    obtain c s2 where c: "committed_position_for env vs key attempted s1 = (c, s2)" by fastforce
    note pos = committed_position_for_cases [OF assms(1) c]
    have g2: "grows E (vhist hist s1) (vhist hist s2)" using pos by blast
    have w: "wrote_at (vhist hist s2) key value t" using grows_wrote [OF g2 p(3) [OF PRESENT]] .
    have "i = t" if "(pp, i, vs, key) \<in> set (positions (vhist hist s2))" for pp i
      using good_indexed_once [OF protocol_grows [OF assms(2) g2 gd1] that w] by simp
    then show ?thesis
      using run PRESENT c pos w grows_trans [OF g2 p(2)]
      by (auto simp: ret_def ordered_unverified_def ordered_answer_true_def)
  next
    case ABSENT
    then have "unwritten (vhist hist s1) key value"
      using st p(4) indexed_only [OF gd1] by blast
    then show ?thesis using run ABSENT p(2)
      by (auto simp: ret_def ordered_unverified_def ordered_answer_true_def)
  next
    case NOT_FOUND
    then show ?thesis using run st p(2)
      by (cases "is_budget cause") (auto simp: ret_def ordered_unverified_def ordered_answer_true_def)
  next
    case UNKNOWN
    then show ?thesis using run p(2)
      by (auto simp: ret_def ordered_unverified_def ordered_answer_true_def)
  qed
qed

text \<open>The history after the proof of a committed record: a fault record may have been added.\<close>

lemma ordered_prove_true:
  assumes "venv_ok E hist env" "writer_held_ok env s" "wrote_at (vhist hist s) key value tx"
    "(of_int seq, tx, vs, key) \<in> set (positions (vhist hist s))"
    "ordered_prove env key value view tx seq n s = (x, s')"
  shows "grows (with_faults E) (vhist hist s) (vhist hist s') \<and>
    (\<exists>r. x = Inr r \<and> or_seq r = Some seq \<and> ordered_answer_true (vhist hist s') vs key value r \<and>
      (\<forall>k. or_fault_record r = Some k \<longrightarrow> (\<exists>c. fault_on_ledger env (vhist hist s') key value (Some seq) (Some view)
         c (lit ''proof verification failed'') k)))"
proof -
  obtain g s1 where g: "on_world (im_verified_get (ve_im env) key) s = (g, s1)" by fastforce
  have g1: "grows E (vhist hist s) (vhist hist s1)"
    using keeps_client_reads(2) [OF assms(1)] g by (rule keepsD)
  have held: "writer_held_ok env s1" using assms(2) on_world_frame [OF g] by (simp add: writer_held_ok_def)
  have stay: "wrote_at h' key value tx \<and> (of_int seq, tx, vs, key) \<in> set (positions h')"
    if "grows F (vhist hist s) h'" for F h'
    using grows_wrote [OF that assms(3)] grows_prefix [OF that] positions_append [of "vhist hist s"] assms(4) by blast
  note run = assms(5)[unfolded ordered_prove_def attempt_def g, simplified]
  show ?thesis
  proof (cases "\<exists>e. g = Inl e \<and> is_proof_error e")
    case False
    then show ?thesis using run stay [OF g1] grows_with_faults [OF g1]
      by (auto simp: ret_def ordered_unverified_def ordered_answer_true_def split: sum.splits)
  next
    case True
    then obtain e where e: "g = Inl e" "is_proof_error e" by blast
    obtain f s2 where f: "write_fault_record env key value (Some tx) (Some seq) (Some view) (error_class_of e)
        (lit ''proof verification failed'') s1 = (f, s2)" by fastforce
    note w = write_fault_record_cases [OF assms(1) held f]
    have g2: "grows (with_faults E) (vhist hist s) (vhist hist s2)"
      using w grows_trans grows_with_faults [OF g1] by blast
    then show ?thesis using run e f w stay [OF g2]
      by (auto simp: bind_io_def ret_def ordered_answer_true_def intro!: exI [of _ "error_class_of e"])
  qed
qed

lemma ordered_outcome_true:
  assumes "venv_ok E hist env" "protocol E" "others_silent E key value" "good (vhist hist s)"
    "caches_ok (vhist hist s) s" "writer_held_ok env s" "unwritten (vhist hist s) key value"
    "key \<noteq> SEQUENCE_KEY" "key \<noteq> RESERVE_KEY \<and> \<not> starts_with key FAULT_KEY_PREFIX_BYTES"
    "ordered_outcome env key value view vs s = (x, s')"
  shows "good (vhist hist s') \<and> (x = Inr (Inl (HTTPException 409)) \<or>
    (\<exists>r. x = Inr (Inr r) \<and> ordered_answer_true (vhist hist s') vs key value r \<and>
      (\<forall>k. or_fault_record r = Some k \<longrightarrow> (\<exists>c. fault_on_ledger env (vhist hist s') key value (or_seq r) (Some view)
         c (lit ''proof verification failed'') k))))"
proof -
  obtain c s1 where c: "get_client env s = (c, s1)" by fastforce
  have g1: "grows E (vhist hist s) (vhist hist s1)"
    using keeps_get_client [OF assms(1)] c by (rule keepsD)
  have gd1: "good (vhist hist s1)" by (rule protocol_grows [OF assms(2) g1 assms(4)])
  have un1: "unwritten (vhist hist s1) key value" by (rule unwritten_grows [OF g1 assms(3,7)])
  have held1: "writer_held_ok env s1"
    using assms(6) get_client_frame [OF c] by (simp add: writer_held_ok_def)
  have c1: "caches_ok (vhist hist s1) s1"
    using caches_ok_grows [OF g1 assms(5)] get_client_frame [OF c] by (simp add: caches_ok_def)
  show ?thesis
  proof (cases c)
    case (Inl e)
    then show ?thesis using assms(10) c gd1 un1
      by (auto simp: ordered_outcome_def attempt_def ret_def ordered_unverified_def ordered_answer_true_def)
  next
    case (Inr u)
    obtain q s2 where q: "ordered_commit env key value vs s1 = (q, s2)" by fastforce
    have "loop_post E hist env (vhist hist s1) key value vs False (nat (ve_max_attempts env)) q s1 s2"
      by (rule ordered_commit_ok [OF assms(1,2,8,9) gd1 c1 q])
    then obtain a where a: "q = Inr a" "commit_ok E (vhist hist s1) (vhist hist s2) key value vs False
        (nat (ve_max_attempts env)) a" "good (vhist hist s2)" "writer_keys s2 = writer_keys s1"
      unfolding loop_post_def by blast
    have held2: "writer_held_ok env s2" using held1 a(4) by (simp add: writer_held_ok_def)
    note run = assms(10)[unfolded ordered_outcome_def attempt_def c Inr bind_io_def, simplified, unfolded q a(1), simplified]
    show ?thesis
    proof (cases a)
      case (Inl ce)
      show ?thesis
      proof (cases ce)
        case (Plain e)
        then have "unwritten (vhist hist s2) key value"
          using a(2) Inl unwritten_grows [OF _ assms(3) un1] by (simp add: commit_ok_def)
        then show ?thesis using run Inl Plain a(3)
          by (auto simp: ret_def ordered_unverified_def ordered_answer_true_def)
      next
        case (KeyExists k)
        then show ?thesis using run Inl a(3) by (auto simp: ret_def)
      next
        case (Uncertain e nx n)
        have st: "unwritten (vhist hist s2) key value \<or> \<not> is_budget e \<and> indexed (vhist hist s2) vs key value"
          using a(2) Inl Uncertain unwritten_grows [OF _ assms(3) un1]
          by (auto simp: commit_ok_def intro: landed_indexed)
        obtain y s3 where y: "ordered_uncertain env key value vs e nx n s2 = (y, s3)" by fastforce
        note un = ordered_uncertain_true [OF assms(1-3) a(3) st y]
        have "good (vhist hist s3)" using un protocol_grows [OF assms(2) _ a(3)] by blast
        then show ?thesis using run Inl Uncertain y un by (auto simp: ret_def)
      qed
    next
      case (Inr t)
      obtain tx seq n where t: "t = (tx, seq, n)" by (cases t)
      have l: "landed E (vhist hist s1) (vhist hist s2) key value vs tx seq"
        using a(2) Inr t by (simp add: commit_ok_def)
      obtain y s3 where y: "ordered_prove env key value view tx seq n s2 = (y, s3)" by fastforce
      note pr = ordered_prove_true [OF assms(1) held2 _ _ y, of vs] 
      have "good (vhist hist s3)"
        using pr landed_wrote [OF l] good_with_faults [OF _ assms(2) a(3)] by blast
      then show ?thesis using run Inr t y pr landed_wrote [OF l] by (auto simp: ret_def)
    qed
  qed
qed

section \<open>Properties\<close>

text \<open>
  C4: what \<open>POST /write-ordered\<close> answers is so, whatever other verifiers following the
  protocol do meanwhile: committed means the bytes are in the ledger at the transaction it
  names, and under the position when it names one; not committed means these bytes are nowhere
  in the ledger; a verified write is committed and positioned; a fault record it names is in
  the ledger; and the ledger's order is kept.
\<close>

theorem write_ordered_answers_truthfully:
  assumes "venv_ok E hist env" "protocol E" "others_silent E key value"
    and "good (vhist hist s)" "caches_ok (vhist hist s) s" "writer_held_ok env s"
    and "unwritten (vhist hist s) key value" "key \<noteq> SEQUENCE_KEY" "key \<noteq> RESERVE_KEY"
    and "b64decode (oq_key payload) = Some key" "b64decode (oq_value payload) = Some value"
    and "oq_view payload = view" "map_of VIEW_SETS view = Some view_set"
  shows "case write_ordered env x_api_key payload s of
      (Inr (Inr r), s') \<Rightarrow> good (vhist hist s') \<and> ordered_answer_true (vhist hist s') view_set key value r \<and>
        (\<forall>k. or_fault_record r = Some k \<longrightarrow> (\<exists>c. fault_on_ledger env (vhist hist s') key value (or_seq r)
           (Some view) c (lit ''proof verification failed'') k))
    | (Inr (Inl e), s') \<Rightarrow> good (vhist hist s') \<and> (s' = s \<or> e = HTTPException 409)
    | (Inl e, s') \<Rightarrow> False"
proof (cases "require_write_key env x_api_key = Inr () \<and> refuse_reason_for_ordered_write key value = None")
  case False
  then show ?thesis
    using assms(4,10-13) by (auto simp: write_ordered_def ret_def split: sum.splits option.splits)
next
  case True
  then have nf: "\<not> starts_with key FAULT_KEY_PREFIX_BYTES"
    by (auto simp: refuse_reason_for_ordered_write_def split: if_splits)
  obtain x s' where x: "ordered_outcome env key value view view_set s = (x, s')" by fastforce
  have "write_ordered env x_api_key payload s = (x, s')"
    using True x assms(10-13) by (simp add: write_ordered_def)
  then show ?thesis
    using ordered_outcome_true [OF assms(1-8) _ x] assms(9) nf by auto
qed

theorem write_ordered_answers_truthfully_witness:
  "case write_ordered test_env (lit ''w'')
       \<lparr>oq_key = b64encode ''tool_call:1'', oq_value = b64encode ''{}'', oq_view = lit ''decision''\<rparr>
       (test_state [] [Some (RpcError ''deadline'', True)]) of
      (Inr (Inr r), s') \<Rightarrow> good (vhist fst s') \<and>
        ordered_answer_true (vhist fst s') ''ail_view:decision:v1'' ''tool_call:1'' ''{}'' r \<and>
        (\<forall>k. or_fault_record r = Some k \<longrightarrow> (\<exists>c. fault_on_ledger test_env (vhist fst s') ''tool_call:1'' ''{}'' (or_seq r)
           (Some (lit ''decision'')) c (lit ''proof verification failed'') k))
    | (Inr (Inl e), s') \<Rightarrow> good (vhist fst s') \<and>
        (s' = test_state [] [Some (RpcError ''deadline'', True)] \<or> e = HTTPException 409)
    | (Inl e, s') \<Rightarrow> False"
proof -
  let ?q = "\<lparr>oq_key = b64encode ''tool_call:1'', oq_value = b64encode ''{}'', oq_view = lit ''decision''\<rparr>"
  let ?s = "test_state [] [Some (RpcError ''deadline'', True)]"
  have "others_silent (\<lambda>_ _. False) ''tool_call:1'' ''{}''" by (simp add: others_silent_def)
  moreover have "writer_held_ok test_env ?s" by (simp add: writer_held_ok_def test_state_def)
  moreover have "unwritten (vhist fst ?s) ''tool_call:1'' ''{}''"
    by (simp add: unwritten_def vhist_def test_state_def)
  moreover have "map_of VIEW_SETS (lit ''decision'') = Some ''ail_view:decision:v1''"
    by (simp add: VIEW_SETS_def)
  ultimately show ?thesis
    using write_ordered_answers_truthfully [OF test_env_ok test_state_start(3) _ test_state_start(1,2),
        of "''tool_call:1''" "''{}''" "[Some (RpcError ''deadline'', True)]" ?q "lit ''decision''" "''ail_view:decision:v1''" "lit ''w''"]
    by (simp add: SEQUENCE_KEY_def RESERVE_KEY_def)
qed

end
