(* ===== verification/VerifyPath.thy ===== *)
theory VerifyPath
  imports VerifierState
begin

text \<open>
  The read routes of the verifier (\<open>verifier/main.py\<close>): \<open>GET /state\<close>, the read that
  reports \<open>state_id\<close> and \<open>POST /verify\<close>, over the trust anchor and the client
  library's proof check (\<open>ve_sdk_check\<close>, which answers the entry it proved and the state
  the proof advanced to, or raises).
\<close>

section \<open>Vocabulary\<close>

definition PROOF_MATERIAL_FORMAT :: pystr where
  "PROOF_MATERIAL_FORMAT = lit ''ail-proof-material/2''"

definition SDK_IDENTIFIER :: pystr where
  "SDK_IDENTIFIER = lit ''immudb-py==1.5.0''"

datatype read_source = HeadState | AnchorState

datatype read_status = StateOk | StateUnchecked | StateUnavailable exn

record state_read =
  sr_source :: read_source
  sr_status :: read_status

record anchor_state =
  an_db :: pystr
  an_tx_id :: int
  an_tx_hash :: pystr
  an_signature :: "pystr option"

record verify_request =
  vq_key :: pystr
  vq_anchor :: "anchor_state option"

record source_state =
  so_db :: pystr
  so_tx_id :: int
  so_tx_hash :: pystr
  so_signature :: "pystr option"

record proof_material =
  pm_format :: pystr
  pm_sdk :: pystr
  pm_source_state :: source_state
  pm_verifiable_entry :: pystr
  pm_prove_since_tx :: int
  pm_entry_tx_id :: int
  pm_signing_key_fingerprint :: "pystr option"

datatype verify_detail =
    AnchorNotChecked
  | AnchorNotSigned int exn
  | AnchorPrecedes int int
  | ProofDiverged
  | SignatureFailed
  | KeyNeverWritten
  | VerifyRaised exn
  | ReportingRaised exn

record verify_response =
  vf_verified :: bool
  vf_tx_id :: "int option"
  vf_value :: "pystr option"
  vf_timestamp :: "int option"
  vf_state_id :: "int option"
  vf_detail :: "verify_detail option"
  vf_error_class :: "pystr option"
  vf_proof_material :: "proof_material option"
  vf_state_read :: "state_read option"

section \<open>The ledger's head\<close>

definition head_state :: "('w, 'sk, 'vk) venv \<Rightarrow> ('w, 'sk, 'vk, signed_state \<times> bool) vio" where
  "head_state env =
     bind_io (on_world (im_current_state (ve_im env))) (\<lambda>state.
       case ve_vk env of
         None \<Rightarrow> ret (state, False)
       | Some vk \<Rightarrow> bind_io (lift_io (ve_verify_state env vk state)) (\<lambda>_. ret (state, True)))"

definition signing_key_fingerprint :: "('w, 'sk, 'vk) venv \<Rightarrow> ('w, 'sk, 'vk, pystr option) vio" where
  "signing_key_fingerprint env =
     bind_io (peek fingerprint_cache) (\<lambda>cached.
       if cached \<noteq> None then ret cached
       else if \<not> ve_pubkey_there env then ret None
       else bind_io (lift_io (ve_load_pubkey env)) (\<lambda>vk.
              let fp = lit ''sha256:'' @ hexdigest (sha256 (ve_crypto env) (to_der (ve_crypto env) vk))
              in bind_io (poke (fingerprint_cache_update (\<lambda>_. Some fp))) (\<lambda>_. ret (Some fp))))"

section \<open>\<open>GET /state\<close>\<close>

record current_state_response =
  cs_db :: pystr
  cs_tx_id :: int
  cs_tx_hash :: pystr
  cs_signature :: pystr
  cs_fingerprint :: "pystr option"

definition current_state ::
  "('w, 'sk, 'vk) venv \<Rightarrow> pystr \<Rightarrow> ('w, 'sk, 'vk, http_error + current_state_response) vio" where
  "current_state env x_api_key =
     (case require_read_key env x_api_key of
        Inl e \<Rightarrow> ret (Inl e)
      | Inr _ \<Rightarrow>
          bind_io (get_client env) (\<lambda>_.
            if ve_vk env = None then ret (Inl (HTTPException 503))
            else attempt (head_state env) (\<lambda>r. case r of
                   Inl exc \<Rightarrow> ret (Inl (HTTPException 503))
                 | Inr (state, was_checked) \<Rightarrow>
                     bind_io (signing_key_fingerprint env) (\<lambda>fp.
                       ret (Inr \<lparr>cs_db = st_db state, cs_tx_id = st_tx state,
                                 cs_tx_hash = b64encode (st_hash state),
                                 cs_signature = b64encode (st_sig state), cs_fingerprint = fp\<rparr>)))))"

section \<open>The anchor this process holds\<close>

text \<open>\<open>client._rs.get()\<close> and the \<open>set\<close> the client library calls after a proof.\<close>

definition anchor_get :: "('w, 'sk, 'vk) venv \<Rightarrow> ('w, 'sk, 'vk, signed_state) vio" where
  "anchor_get env =
     bind_io (peek (\<lambda>s. rs_cache (root s))) (\<lambda>held.
       case held of
         Some state \<Rightarrow> ret state
       | None \<Rightarrow>
           attempt (on_world (im_current_state (ve_im env))) (\<lambda>answer s.
             case rs_get (ve_verify_state env) answer (root s) of (r, rs') \<Rightarrow> (r, s\<lparr>root := rs'\<rparr>)))"

definition anchor_set :: "('w, 'sk, 'vk) venv \<Rightarrow> signed_state \<Rightarrow> ('w, 'sk, 'vk, unit) vio" where
  "anchor_set env state s =
     (case rs_set (ve_verify_state env) (ve_save_state env (world s)) state (root s) of
        (r, rs') \<Rightarrow> (r, s\<lparr>root := rs'\<rparr>))"

text \<open>The proof: against the process's anchor, which it may advance, or against a pinned one.\<close>

definition sdk_verified_get ::
  "('w, 'sk, 'vk) venv \<Rightarrow> bool \<Rightarrow> bytes \<Rightarrow> signed_state \<Rightarrow> bytes \<Rightarrow> ('w, 'sk, 'vk, sdk_entry) vio" where
  "sdk_verified_get env pinned ventry source key =
     bind_io (lift_io (ve_sdk_check env ventry source key (ve_vk env))) (\<lambda>(resp, new_state).
       bind_io (if pinned then ret () else anchor_set env new_state) (\<lambda>_. ret resp))"

section \<open>Reading the state that is reported\<close>

definition state_read_of ::
  "('w, 'sk, 'vk) venv \<Rightarrow> anchor_state option \<Rightarrow> ('w, 'sk, 'vk, int option \<times> state_read) vio" where
  "state_read_of env anchor =
     (let source = (if anchor = None then HeadState else AnchorState)
      in attempt
           (if anchor = None
            then bind_io (head_state env) (\<lambda>(state, was_checked).
                   ret (st_tx state, if was_checked then StateOk else StateUnchecked))
            else bind_io (anchor_get env) (\<lambda>state.
                   ret (st_tx state, if ve_vk env = None then StateUnchecked else StateOk)))
           (\<lambda>r. case r of
              Inl exc \<Rightarrow> ret (None, \<lparr>sr_source = source, sr_status = StateUnavailable exc\<rparr>)
            | Inr (tx, status) \<Rightarrow> ret (Some tx, \<lparr>sr_source = source, sr_status = status\<rparr>)))"

section \<open>\<open>POST /verify\<close>\<close>

definition verify_failed :: "verify_detail \<Rightarrow> string \<Rightarrow> verify_response" where
  "verify_failed d error_class =
     \<lparr>vf_verified = False, vf_tx_id = None, vf_value = None, vf_timestamp = None, vf_state_id = None,
      vf_detail = Some d, vf_error_class = Some (lit error_class), vf_proof_material = None,
      vf_state_read = None\<rparr>"

definition supplied_anchor :: "anchor_state \<Rightarrow> exn + signed_state" where
  "supplied_anchor a =
     bind_sum (of_option ValueError (b64decode (an_tx_hash a))) (\<lambda>h.
       bind_sum (of_option ValueError
           (b64decode (case an_signature a of None \<Rightarrow> [] | Some s \<Rightarrow> s))) (\<lambda>sg.
         Inr \<lparr>st_db = an_db a, st_tx = an_tx_id a, st_hash = h, st_sig = sg\<rparr>))"

text \<open>The state the proof runs against: a refusal of the supplied anchor, or the state and
  whether it is pinned.\<close>

definition choose_source ::
  "('w, 'sk, 'vk) venv \<Rightarrow> anchor_state option \<Rightarrow>
   ('w, 'sk, 'vk, verify_response + signed_state \<times> bool) vio" where
  "choose_source env anchor =
     (case anchor of
        None \<Rightarrow> bind_io (anchor_get env) (\<lambda>state. ret (Inr (state, False)))
      | Some a \<Rightarrow>
          bind_io (lift_io (supplied_anchor a)) (\<lambda>state.
            case ve_vk env of
              None \<Rightarrow> ret (Inl (verify_failed AnchorNotChecked ''anchor_signature_failure''))
            | Some vk \<Rightarrow>
                (case ve_verify_state env vk state of
                   Inl exc \<Rightarrow>
                     ret (Inl (verify_failed (AnchorNotSigned (an_tx_id a) exc) ''anchor_signature_failure''))
                 | Inr _ \<Rightarrow> ret (Inr (state, True)))))"

text \<open>The body of the route's \<open>try\<close>.\<close>

definition prove_record ::
  "('w, 'sk, 'vk) venv \<Rightarrow> bytes \<Rightarrow> anchor_state option \<Rightarrow>
   ('w, 'sk, 'vk, verify_response + signed_state \<times> bytes \<times> sdk_entry) vio" where
  "prove_record env key anchor =
     bind_io (get_client env) (\<lambda>_.
       bind_io (choose_source env anchor) (\<lambda>chosen. case chosen of
         Inl refused \<Rightarrow> ret (Inl refused)
       | Inr (source, pinned) \<Rightarrow>
           bind_io (on_world (ve_verifiable_get env key (st_tx source))) (\<lambda>ventry.
             bind_io (sdk_verified_get env pinned ventry source key) (\<lambda>resp.
               if anchor \<noteq> None \<and> en_id resp > st_tx source
               then ret (Inl (verify_failed (AnchorPrecedes (st_tx source) (en_id resp))
                                ''anchor_precedes_record''))
               else ret (Inr (source, ventry, resp))))))"

text \<open>Its \<open>except\<close> clauses, in their order.\<close>

definition ends_with :: "string \<Rightarrow> string \<Rightarrow> bool" where
  "ends_with s e \<longleftrightarrow> starts_with (rev s) (rev e)"

definition proof_error :: "exn \<Rightarrow> verify_response" where
  "proof_error exc =
     (case exc of
        ErrCorruptedData _ \<Rightarrow> verify_failed ProofDiverged ''consistency_failure''
      | BadSignatureError _ \<Rightarrow> verify_failed SignatureFailed ''signature_failure''
      | RpcError details \<Rightarrow>
          if ends_with details ''key not found'' then verify_failed KeyNeverWritten ''not_found''
          else verify_failed (VerifyRaised exc) ''unknown''
      | _ \<Rightarrow> verify_failed (VerifyRaised exc) ''unknown'')"

definition verified_response ::
  "('w, 'sk, 'vk) venv \<Rightarrow> signed_state \<Rightarrow> bytes \<Rightarrow> sdk_entry \<Rightarrow> int option \<Rightarrow> state_read \<Rightarrow>
   ('w, 'sk, 'vk, verify_response) vio" where
  "verified_response env source ventry resp state_id state_read =
     bind_io (signing_key_fingerprint env) (\<lambda>fp.
       ret \<lparr>vf_verified = True, vf_tx_id = Some (en_id resp),
            vf_value = Some (b64encode (en_value resp)), vf_timestamp = Some (en_timestamp resp),
            vf_state_id = state_id, vf_detail = None, vf_error_class = None,
            vf_proof_material = Some
              \<lparr>pm_format = PROOF_MATERIAL_FORMAT, pm_sdk = SDK_IDENTIFIER,
               pm_source_state =
                 \<lparr>so_db = st_db source, so_tx_id = st_tx source,
                  so_tx_hash = b64encode (st_hash source),
                  so_signature = (if st_sig source = [] then None else Some (b64encode (st_sig source)))\<rparr>,
               pm_verifiable_entry = b64encode ventry, pm_prove_since_tx = st_tx source,
               pm_entry_tx_id = en_id resp, pm_signing_key_fingerprint = fp\<rparr>,
            vf_state_read = Some state_read\<rparr>)"

definition verify_key ::
  "('w, 'sk, 'vk) venv \<Rightarrow> bytes \<Rightarrow> anchor_state option \<Rightarrow> ('w, 'sk, 'vk, verify_response) vio" where
  "verify_key env key anchor =
     attempt (prove_record env key anchor) (\<lambda>r. case r of
       Inl exc \<Rightarrow> ret (proof_error exc)
     | Inr (Inl refused) \<Rightarrow> ret refused
     | Inr (Inr (source, ventry, resp)) \<Rightarrow>
         bind_io (state_read_of env anchor) (\<lambda>(state_id, state_read).
           attempt (verified_response env source ventry resp state_id state_read) (\<lambda>v. case v of
             Inr response \<Rightarrow> ret response
           | Inl exc \<Rightarrow>
               ret \<lparr>vf_verified = True, vf_tx_id = Some (en_id resp), vf_value = None,
                    vf_timestamp = None, vf_state_id = state_id,
                    vf_detail = Some (ReportingRaised exc), vf_error_class = None,
                    vf_proof_material = None, vf_state_read = Some state_read\<rparr>)))"

definition verify_route ::
  "('w, 'sk, 'vk) venv \<Rightarrow> pystr \<Rightarrow> verify_request \<Rightarrow> ('w, 'sk, 'vk, http_error + verify_response) vio" where
  "verify_route env x_api_key payload =
     (case require_read_key env x_api_key of
        Inl e \<Rightarrow> ret (Inl e)
      | Inr _ \<Rightarrow>
          (case b64decode (vq_key payload) of
             None \<Rightarrow> ret (Inl (HTTPException 500))
           | Some key \<Rightarrow> bind_io (verify_key env key (vq_anchor payload)) (\<lambda>r. ret (Inr r))))"

section \<open>What a verdict rests on\<close>

text \<open>Steps that leave the held anchor alone.\<close>

definition keeps_root :: "(('w, 'sk, 'vk) vstate, 'a) io \<Rightarrow> bool" where
  "keeps_root m \<longleftrightarrow> (\<forall>s r s'. m s = (r, s') \<longrightarrow> root s' = root s)"

lemma keeps_rootD: "keeps_root m \<Longrightarrow> m s = (r, s') \<Longrightarrow> root s' = root s"
  by (simp add: keeps_root_def)

lemma keeps_root_basic:
  "keeps_root (ret x)" "keeps_root (lift_io q)" "keeps_root (peek f)" "keeps_root (on_world m)"
  "keeps_root (poke (fingerprint_cache_update g))"
  by (auto simp: keeps_root_def ret_def lift_io_def peek_def poke_def dest: on_world_frame)

lemma keeps_root_bind:
  "keeps_root m \<Longrightarrow> (\<And>x. keeps_root (f x)) \<Longrightarrow> keeps_root (bind_io m f)"
  unfolding keeps_root_def by (intro allI impI, elim bind_ioE) fastforce+

lemma keeps_root_attempt:
  "keeps_root m \<Longrightarrow> (\<And>x. keeps_root (f x)) \<Longrightarrow> keeps_root (attempt m f)"
  unfolding keeps_root_def by (intro allI impI, elim attemptE) fastforce

lemma keeps_root_cases:
  "keeps_root m \<Longrightarrow> keeps_root m' \<Longrightarrow> keeps_root (if b then m else m')"
  "keeps_root m \<Longrightarrow> (\<And>y. keeps_root (f y)) \<Longrightarrow> keeps_root (case x of None \<Rightarrow> m | Some y \<Rightarrow> f y)"
  "(\<And>y. keeps_root (g y)) \<Longrightarrow> (\<And>y. keeps_root (h y)) \<Longrightarrow> keeps_root (case z of Inl y \<Rightarrow> g y | Inr y \<Rightarrow> h y)"
  "(\<And>u v. keeps_root (k u v)) \<Longrightarrow> keeps_root (case p of (u, v) \<Rightarrow> k u v)"
  by (auto split: option.split sum.split prod.split)

lemmas keeps_root_intros = keeps_root_basic keeps_root_cases keeps_root_bind keeps_root_attempt

lemma keeps_root_head_state: "keeps_root (head_state env)"
  unfolding head_state_def by (intro keeps_root_intros)

lemma keeps_root_fingerprint: "keeps_root (signing_key_fingerprint env)"
  unfolding signing_key_fingerprint_def Let_def by (intro keeps_root_intros)

lemma anchor_get_held:
  "rs_cache (root s) = Some st \<Longrightarrow> anchor_get env s = (Inr st, s)"
  by (simp add: anchor_get_def bind_io_def peek_def ret_def)

lemma state_read_of_root:
  assumes "state_read_of env anchor s = (r, s')" "anchor = None \<or> rs_cache (root s) \<noteq> None"
  shows "root s' = root s \<and> (\<exists>x. r = Inr x)"
  using assms keeps_rootD [OF keeps_root_head_state, of env s]
  by (cases anchor)
    (auto simp: state_read_of_def Let_def attempt_def bind_io_def ret_def anchor_get_held
      split: prod.splits sum.splits)

lemma state_read_of_answers: "\<exists>x s'. state_read_of env anchor s = (Inr x, s')"
  by (auto simp: state_read_of_def Let_def attempt_def ret_def split: prod.splits sum.splits)

lemma verified_response_root: "keeps_root (verified_response env source ventry resp sid sr)"
  unfolding verified_response_def by (intro keeps_root_intros keeps_root_fingerprint)

definition material_matches :: "signed_state \<Rightarrow> bytes \<Rightarrow> sdk_entry \<Rightarrow> proof_material \<Rightarrow> bool" where
  "material_matches source ventry resp pm \<longleftrightarrow>
     pm_prove_since_tx pm = st_tx source \<and> pm_entry_tx_id pm = en_id resp \<and>
     pm_verifiable_entry pm = b64encode ventry \<and> so_tx_id (pm_source_state pm) = st_tx source \<and>
     so_tx_hash (pm_source_state pm) = b64encode (st_hash source)"

lemma verified_response_cases:
  "verified_response env source ventry resp sid sr s = (r, s') \<Longrightarrow> r = Inr v \<Longrightarrow>
   vf_verified v \<and> vf_tx_id v = Some (en_id resp) \<and> vf_value v = Some (b64encode (en_value resp)) \<and>
   vf_error_class v = None \<and> (\<exists>pm. vf_proof_material v = Some pm \<and> material_matches source ventry resp pm)"
  by (auto simp: verified_response_def material_matches_def bind_io_def ret_def split: prod.splits sum.splits)

text \<open>
  The states an unanchored request is proved against: the anchor the process holds, or what its
  state file holds when it opens the connection; failing both, a state of the ledger that is empty
  or was checked under the key.
\<close>

definition held_or_checked :: "('w, 'sk, 'vk) venv \<Rightarrow> signed_state option \<Rightarrow> 'vk option \<Rightarrow> signed_state \<Rightarrow> bool" where
  "held_or_checked env held key source \<longleftrightarrow>
     (case held of Some st \<Rightarrow> source = st | None \<Rightarrow> trusted (ve_verify_state env) key source)"

definition own_source ::
  "('w, 'sk, 'vk) venv \<Rightarrow> ('w, 'sk, 'vk) vstate \<Rightarrow> signed_state \<Rightarrow> bool" where
  "own_source env s source \<longleftrightarrow>
     (if client_held s then held_or_checked env (rs_cache (root s)) (rs_key (root s)) source
      else \<exists>key. state_verifying_key env = Inr key \<and>
             held_or_checked env (rs_stored (ve_db env) (root s)) key source)"

lemma anchor_init_source:
  assumes "anchor_init env s = (Inr u, s')"
  shows "\<exists>st. rs_cache (root s') = Some st \<and>
    held_or_checked env (rs_stored (ve_db env) (root s)) (rs_key (root s)) st"
  using assms
  by (cases "rs_stored (ve_db env) (root s)")
    (auto simp: anchor_init_def bind_io_def peek_def attempt_def ret_def on_world_def rs_init_def rs_head_def
      rs_stored_def held_or_checked_def Let_def bind_sum_Inr_iff
      split: prod.splits sum.splits state_file.splits if_splits dest!: checked_Inr)

lemma get_client_source:
  assumes "get_client env s = (Inr u, s')" "\<not> client_held s"
  shows "\<exists>st. rs_cache (root s') = Some st \<and> own_source env s st"
proof -
  obtain key s1 where k: "state_verifying_key env = Inr key" "anchor_init env s1 = (Inr u, s')"
    "root s1 = new_root_service (rs_file (root s)) key"
    using assms
    by (auto simp: get_client_def log_in_def bind_io_def peek_def poke_def ret_def lift_io_def
        split: sum.splits prod.splits dest!: on_world_frame)
  from anchor_init_source [OF k(2)] show ?thesis
    using k(1,3) assms(2) by (auto simp: own_source_def new_root_service_def rs_stored_def)
qed

lemma anchor_get_source:
  "anchor_get env s = (Inr source, s') \<Longrightarrow> held_or_checked env (rs_cache (root s)) (rs_key (root s)) source"
  by (cases "rs_cache (root s)")
    (auto simp: anchor_get_def bind_io_def peek_def ret_def attempt_def rs_get_def held_or_checked_def
      split: prod.splits sum.splits dest!: on_world_frame rs_head_Inr)

lemma unanchored_source:
  assumes "get_client env s = (Inr u, s1)" "anchor_get env s1 = (Inr source, s2)"
  shows "own_source env s source"
proof (cases "client_held s")
  case True
  then have "s1 = s" using assms(1) by (simp add: get_client_def bind_io_def peek_def ret_def)
  then show ?thesis using anchor_get_source [OF assms(2)] True by (simp add: own_source_def)
next
  case False
  then obtain st where st: "rs_cache (root s1) = Some st" "own_source env s st"
    using get_client_source [OF assms(1)] by blast
  then show ?thesis using anchor_get_held [OF st(1), of env] assms(2) by simp
qed

text \<open>What a proof that went through has established.\<close>

definition established ::
  "('w, 'sk, 'vk) venv \<Rightarrow> ('w, 'sk, 'vk) vstate \<Rightarrow> bytes \<Rightarrow> anchor_state option \<Rightarrow> signed_state \<Rightarrow> bytes \<Rightarrow> sdk_entry \<Rightarrow> bool" where
  "established env s key anchor source ventry resp \<longleftrightarrow>
     (\<exists>new. ve_sdk_check env ventry source key (ve_vk env) = Inr (resp, new)) \<and>
     (anchor = None \<longrightarrow> own_source env s source) \<and>
     (\<forall>a. anchor = Some a \<longrightarrow> supplied_anchor a = Inr source \<and> en_id resp \<le> an_tx_id a \<and>
        (\<exists>vk. ve_vk env = Some vk \<and> ve_verify_state env vk source = Inr ()))"

lemma supplied_anchor_tx: "supplied_anchor a = Inr st \<Longrightarrow> st_tx st = an_tx_id a"
  by (auto simp: supplied_anchor_def bind_sum_Inr_iff of_option_def split: option.splits)

lemma choose_source_cases:
  assumes "choose_source env anchor s = (Inr (Inr (source, pinned)), s')"
  shows "pinned = (anchor \<noteq> None) \<and> (\<forall>a. anchor = Some a \<longrightarrow> supplied_anchor a = Inr source \<and>
    (\<exists>vk. ve_vk env = Some vk \<and> ve_verify_state env vk source = Inr ()))"
  using assms
  by (cases anchor)
    (auto simp: choose_source_def bind_io_def ret_def lift_io_def split: prod.splits sum.splits option.splits)

lemma prove_record_established:
  assumes "prove_record env key anchor s = (Inr (Inr (source, ventry, resp)), s')"
  shows "established env s key anchor source ventry resp"
proof -
  obtain u s1 pinned s2 s3 where p: "choose_source env anchor s1 = (Inr (Inr (source, pinned)), s2)"
    "sdk_verified_get env pinned ventry source key s3 = (Inr resp, s')"
    "\<not> (anchor \<noteq> None \<and> en_id resp > st_tx source)" "get_client env s = (Inr u, s1)"
    using assms by (auto simp: prove_record_def bind_io_def ret_def split: prod.splits sum.splits if_splits)
  have "\<exists>new. ve_sdk_check env ventry source key (ve_vk env) = Inr (resp, new)"
    using p(2) by (auto simp: sdk_verified_get_def bind_io_def ret_def lift_io_def split: prod.splits sum.splits if_splits)
  moreover have "own_source env s source" if "anchor = None"
    using p(1) that unanchored_source [OF p(4)]
    by (auto simp: choose_source_def bind_io_def ret_def split: prod.splits sum.splits)
  ultimately show ?thesis
    using choose_source_cases [OF p(1)] p(3) supplied_anchor_tx
    by (fastforce simp: established_def)
qed

definition verdict_classes :: "pystr list" where
  "verdict_classes = map lit [''anchor_signature_failure'', ''anchor_precedes_record'',
     ''consistency_failure'', ''signature_failure'', ''not_found'', ''unknown'']"

definition is_refusal :: "verify_response \<Rightarrow> bool" where
  "is_refusal r \<longleftrightarrow> \<not> vf_verified r \<and> vf_tx_id r = None \<and> vf_value r = None \<and> vf_proof_material r = None \<and>
     (\<exists>c \<in> set verdict_classes. vf_error_class r = Some c)"

lemma refusal_intros:
  "is_refusal (verify_failed d ''anchor_signature_failure'')" "is_refusal (verify_failed d ''anchor_precedes_record'')"
  "is_refusal (verify_failed d ''consistency_failure'')" "is_refusal (verify_failed d ''signature_failure'')"
  "is_refusal (verify_failed d ''not_found'')" "is_refusal (verify_failed d ''unknown'')"
  by (simp_all add: is_refusal_def verify_failed_def verdict_classes_def)

lemma proof_error_refusal: "is_refusal (proof_error exc)"
  by (auto simp: proof_error_def refusal_intros split: exn.splits)

lemma prove_record_refusal:
  "prove_record env key anchor s = (Inr (Inl r), s') \<Longrightarrow> is_refusal r"
  by (auto simp: prove_record_def choose_source_def bind_io_def ret_def lift_io_def refusal_intros
      split: prod.splits sum.splits option.splits if_splits)

section \<open>Properties\<close>

text \<open>
  C10: \<open>POST /verify\<close> always answers. A positive verdict rests on a proof that checked out
  for this key. Its source is, for a supplied anchor, that anchor, signed by the configured key and
  not preceding the record; otherwise the anchor the process holds or reads from its state file,
  which is not checked again, and with neither a state that is empty or was checked under the key.
  The material the verdict carries is that of the state the proof ran against. Any other answer is
  one of six refusals and carries no value.
\<close>

theorem verdict_rests_on_a_proof:
  "\<exists>r s'. verify_key env key anchor s = (Inr r, s') \<and>
     (is_refusal r \<or>
      vf_verified r \<and> vf_error_class r = None \<and>
      (\<exists>source ventry resp. established env s key anchor source ventry resp \<and> vf_tx_id r = Some (en_id resp) \<and>
         vf_value r \<in> {None, Some (b64encode (en_value resp))} \<and>
         (case vf_proof_material r of None \<Rightarrow> True | Some pm \<Rightarrow> material_matches source ventry resp pm)))"
proof -
  obtain q s1 where q: "prove_record env key anchor s = (q, s1)" by fastforce
  show ?thesis
  proof (cases "\<exists>source ventry resp. q = Inr (Inr (source, ventry, resp))")
    case False
    then show ?thesis
      using q proof_error_refusal prove_record_refusal [of env key anchor s _ s1]
      by (auto simp: verify_key_def attempt_def ret_def split: sum.splits)
  next
    case True
    then obtain source ventry resp where p: "q = Inr (Inr (source, ventry, resp))" by blast
    have e: "established env s key anchor source ventry resp"
      using q unfolding p by (rule prove_record_established)
    obtain sid sr s2 where sr: "state_read_of env anchor s1 = (Inr (sid, sr), s2)"
      using state_read_of_answers [of env anchor s1] by auto
    obtain v s3 where v: "verified_response env source ventry resp sid sr s2 = (v, s3)" by fastforce
    show ?thesis
    proof (cases v)
      case (Inl exc)
      then show ?thesis using q p sr v e
        by (auto simp: verify_key_def attempt_def bind_io_def ret_def)
    next
      case (Inr r)
      then have "verify_key env key anchor s = (Inr r, s3)"
        using q p sr v by (simp add: verify_key_def attempt_def bind_io_def ret_def)
      then show ?thesis using verified_response_cases [OF v Inr] e by fastforce
    qed
  qed
qed

text \<open>
  C13: an anchor a caller supplies is never persisted: with a connection and an anchor held, a
  verification against a supplied one leaves the held one, in memory and in its file, as it was.
\<close>

theorem supplied_anchor_is_not_persisted:
  assumes "client_held s" "rs_cache (root s) \<noteq> None" "verify_key env key (Some a) s = (r, s')"
  shows "root s' = root s"
proof -
  obtain q s1 where q: "prove_record env key (Some a) s = (q, s1)" by fastforce
  have c: "get_client env s = (Inr (), s)"
    using assms(1) by (simp add: get_client_def bind_io_def peek_def ret_def)
  have k: "keeps_root (choose_source env (Some a))"
    unfolding choose_source_def by (simp, intro keeps_root_intros)
  have m: "keeps_root (sdk_verified_get env True ventry source key)" for ventry source
    unfolding sdk_verified_get_def by (simp, intro keeps_root_intros)
  have "root s1 = root s"
    using q unfolding prove_record_def
  proof (cases rule: bind_ioE)
    case (2 u s0)
    have s0: "s0 = s" using 2(1) c by simp
    from 2(2) show ?thesis
    proof (cases rule: bind_ioE)
      case (1 e)
      then show ?thesis using keeps_rootD [OF k] s0 by blast
    next
      case (2 chosen s2)
      have r2: "root s2 = root s" using keeps_rootD [OF k 2(1)] s0 by simp
      show ?thesis
      proof (cases chosen)
        case (Inl x)
        then show ?thesis using 2(2) r2 by (simp add: ret_def)
      next
        case (Inr sp)
        obtain source pinned where sp: "sp = (source, pinned)" by fastforce
        then have "pinned" using choose_source_cases 2(1) Inr by fastforce
        then have "keeps_root (case chosen of
           Inl refused \<Rightarrow> ret (Inl refused)
         | Inr (source, pinned) \<Rightarrow>
           bind_io (on_world (ve_verifiable_get env key (st_tx source))) (\<lambda>ventry.
             bind_io (sdk_verified_get env pinned ventry source key) (\<lambda>resp.
               if Some a \<noteq> None \<and> en_id resp > st_tx source
               then ret (Inl (verify_failed (AnchorPrecedes (st_tx source) (en_id resp))
                                ''anchor_precedes_record''))
               else ret (Inr (source, ventry, resp)))))"
          unfolding Inr sp by (simp, intro keeps_root_intros m)
        then show ?thesis using 2(2) r2 by (auto dest: keeps_rootD)
      qed
    qed
  qed (use c in simp)
  moreover have "root s' = root s1" if h: "rs_cache (root s1) \<noteq> None"
  proof (cases "\<exists>source ventry resp. q = Inr (Inr (source, ventry, resp))")
    case False
    then show ?thesis using assms(3) q by (auto simp: verify_key_def attempt_def ret_def split: sum.splits)
  next
    case True
    then obtain source ventry resp where p: "q = Inr (Inr (source, ventry, resp))" by blast
    obtain sid sr s2 where sr: "state_read_of env (Some a) s1 = (Inr (sid, sr), s2)"
      using state_read_of_answers [of env "Some a" s1] by auto
    obtain v s3 where v: "verified_response env source ventry resp sid sr s2 = (v, s3)" by fastforce
    have "s' = s3"
      using assms(3) q p sr v by (auto simp: verify_key_def attempt_def bind_io_def ret_def split: sum.splits)
    then show ?thesis
      using state_read_of_root [OF sr] h keeps_rootD [OF verified_response_root v] by simp
  qed
  ultimately show ?thesis using assms(2) by simp
qed

theorem supplied_anchor_is_not_persisted_witness:
  "let s = test_state [] []\<lparr>root := (new_root_service Missing None)\<lparr>rs_cache := Some (state_at 1)\<rparr>\<rparr>;
       env = test_env\<lparr>ve_vk := Some []\<rparr>
   in root (snd (verify_key env ''k'' (Some \<lparr>an_db = [], an_tx_id = 9, an_tx_hash = [], an_signature = None\<rparr>) s)) = root s"
  unfolding Let_def
  by (rule supplied_anchor_is_not_persisted [OF _ _ prod.collapse [symmetric]])
    (simp_all add: test_state_def)

text \<open>
  C14: a state \<open>GET /state\<close> serves is one the configured key signed, and only a caller with
  the read credential is served one.
\<close>

theorem served_state_is_signed:
  assumes "current_state env x_api_key s = (Inr (Inr r), s')"
  shows "x_api_key = ve_read_key env \<and> x_api_key \<noteq> [] \<and>
    (\<exists>vk state. ve_vk env = Some vk \<and> ve_verify_state env vk state = Inr () \<and> cs_tx_id r = st_tx state \<and>
       cs_tx_hash r = b64encode (st_hash state) \<and> cs_signature r = b64encode (st_sig state))"
proof -
  have auth: "require_read_key env x_api_key = Inr ()"
    using assms by (auto simp: current_state_def ret_def split: sum.splits)
  obtain state c s1 s2 where h: "head_state env s1 = (Inr (state, c), s2)" "ve_vk env \<noteq> None"
    "cs_tx_id r = st_tx state" "cs_tx_hash r = b64encode (st_hash state)" "cs_signature r = b64encode (st_sig state)"
    using assms auth
    by (auto simp: current_state_def bind_io_def attempt_def ret_def split: prod.splits sum.splits if_splits)
  then obtain vk where vk: "ve_vk env = Some vk" by blast
  have "ve_verify_state env vk state = Inr ()"
    using h(1) vk by (auto simp: head_state_def bind_io_def ret_def lift_io_def split: prod.splits sum.splits)
  then show ?thesis using h vk auth by (auto simp: require_read_key_iff)
qed

theorem served_state_is_signed_witness:
  "\<exists>r s'. current_state (test_env\<lparr>ve_vk := Some []\<rparr>) (lit ''r'') (test_state [] []) = (Inr (Inr r), s') \<and>
     cs_tx_id r = 0 \<and> lit ''r'' \<noteq> []"
proof -
  obtain r s' where r: "current_state (test_env\<lparr>ve_vk := Some []\<rparr>) (lit ''r'') (test_state [] []) = (Inr (Inr r), s')"
    "cs_tx_id r = 0"
    by (simp add: current_state_def require_read_key_def test_env_def test_state_def get_client_def bind_io_def
        peek_def ret_def attempt_def head_state_def on_world_def mem_def lift_io_def signing_key_fingerprint_def
        lit_def)
  show ?thesis using served_state_is_signed [OF r(1)] r by auto
qed

end
