(* ===== verification/ControlState.thy ===== *)
theory ControlState
  imports FaultKey
begin

text \<open>
  The control plane process (\<open>control_plane/main.py\<close>) and what it calls. It reads the
  ledger through the REST gateway and the verifier through HTTP, so what it gets back is a status
  and a JSON text that need not have the shape it expects; the accessors here raise where
  Python's do. Its database (erasable content, anchors, tenants), its signing key and its two
  caches are fields of \<open>cstate\<close>, everything it is handed at start or calls is a field of
  \<open>cenv\<close>.
\<close>

section \<open>Replies and their JSON\<close>

record reply =
  re_status :: nat
  re_body :: "json option"

abbreviation attribute_error :: exn where
  "attribute_error \<equiv> Foreign ''AttributeError'' []"

text \<open>\<open>resp.raise_for_status()\<close> and \<open>resp.json()\<close>\<close>

definition raise_for_status :: "reply \<Rightarrow> exn + unit" where
  "raise_for_status re =
     (if 200 \<le> re_status re \<and> re_status re < 300 then Inr () else Inl (HTTPStatusError (int (re_status re))))"

definition json_body :: "reply \<Rightarrow> exn + json" where
  "json_body re = of_option ValueError (re_body re)"

definition checked_body :: "reply \<Rightarrow> exn + json" where
  "checked_body re = bind_sum (raise_for_status re) (\<lambda>_. json_body re)"

text \<open>\<open>value.get(key, default)\<close>, \<open>value.get(key)\<close> and \<open>value[key]\<close>\<close>

definition get_default :: "json \<Rightarrow> string \<Rightarrow> json \<Rightarrow> exn + json" where
  "get_default v key d =
     (case v of
        JObj kvs \<Rightarrow> Inr (case dict_get kvs (lit key) of None \<Rightarrow> d | Some x \<Rightarrow> x)
      | _ \<Rightarrow> Inl attribute_error)"

definition get_field :: "json \<Rightarrow> string \<Rightarrow> exn + json" where
  "get_field v key = get_default v key JNull"

definition item :: "json \<Rightarrow> string \<Rightarrow> exn + json" where
  "item v key =
     (case v of
        JObj kvs \<Rightarrow> of_option (KeyError (lit key)) (dict_get kvs (lit key))
      | _ \<Rightarrow> Inl TypeError)"

text \<open>\<open>d.get(key)\<close> of a value known to be a dict.\<close>

definition dget :: "dict \<Rightarrow> string \<Rightarrow> json" where
  "dget kvs key = (case dict_get kvs (lit key) of None \<Rightarrow> JNull | Some x \<Rightarrow> x)"

lemma get_field_obj [simp]: "get_field (JObj d) key = Inr (dget d key)"
  by (simp add: get_field_def get_default_def dget_def)

text \<open>\<open>for x in value\<close>\<close>

fun py_iter :: "json \<Rightarrow> exn + json list" where
  "py_iter (JArr xs) = Inr xs"
| "py_iter (JStr s) = Inr (map (\<lambda>c. JStr [c]) s)"
| "py_iter (JObj kvs) = Inr (map (\<lambda>(k, v). JStr k) kvs)"
| "py_iter _ = Inl TypeError"

text \<open>\<open>len(value)\<close>; the bool of it is \<open>truthy\<close>.\<close>

fun py_len :: "json \<Rightarrow> exn + nat" where
  "py_len (JArr xs) = Inr (length xs)"
| "py_len (JStr s) = Inr (length s)"
| "py_len (JObj kvs) = Inr (length kvs)"
| "py_len _ = Inl TypeError"

text \<open>\<open>v or {}\<close>, \<open>v or ""\<close>\<close>

definition or_empty :: "json \<Rightarrow> json" where
  "or_empty v = (if truthy v then v else JObj [])"

definition or_text :: "json \<Rightarrow> json" where
  "or_text v = (if truthy v then v else JStr [])"

text \<open>The text of a URL without its trailing slashes; a value that is not text has no \<open>rstrip\<close>.\<close>

definition rstrip_slash :: "json \<Rightarrow> exn + pystr" where
  "rstrip_slash v =
     (case v of JStr s \<Rightarrow> Inr (rev (dropWhile (\<lambda>c. c = 47) (rev s))) | _ \<Rightarrow> Inl attribute_error)"

text \<open>\<open>entries[0]\<close> of a value that is truthy\<close>

fun first_entry :: "json \<Rightarrow> exn + json" where
  "first_entry (JArr (x # xs)) = Inr x"
| "first_entry (JStr (c # cs)) = Inr (JStr [c])"
| "first_entry (JObj kvs) = Inl (KeyError (lit ''0''))"
| "first_entry _ = Inl TypeError"

text \<open>\<open>json.loads(base64.b64decode(v).decode())\<close>\<close>

definition decode_json :: "json \<Rightarrow> exn + json" where
  "decode_json v = (case b64decode_json v of None \<Rightarrow> Inl ValueError | Some b \<Rightarrow> of_option ValueError (loads_bytes b))"

section \<open>State and environment\<close>

text \<open>A row of the anchors table.\<close>

record anchor_row =
  ar_tx_id :: int
  ar_db :: pystr
  ar_tx_hash :: pystr
  ar_signature :: pystr
  ar_log_url :: pystr
  ar_log_url_source :: pystr
  ar_log_index :: pystr
  ar_key_fingerprint :: pystr
  ar_payload_format :: pystr
  ar_entry_json :: pystr

record tenant =
  tn_id :: pystr
  tn_name :: pystr
  tn_gdpr :: bool
  tn_soc2 :: bool
  tn_finops :: bool
  tn_hipaa :: bool
  tn_cost_centers :: pystr
  tn_regions :: pystr
  tn_purposes :: pystr

record ('w, 'sk, 'vk) cstate =
  cworld :: 'w
  contents :: "(pystr \<times> pystr) list"
  anchors :: "anchor_row list"
  tenants :: "tenant list"
  cwriter_keys :: "('sk \<times> 'vk) option"
  bound_reserve_cache :: "int option"
  fault_key_loaded :: bool
  fault_key_cache :: "'vk option"

text \<open>One page of a key range, as \<open>POST /api/v2/db/scan\<close> takes it.\<close>

record scan_request =
  sq_seek :: bytes
  sq_inclusive :: bool
  sq_end :: bytes
  sq_limit :: nat

record ('w, 'sk, 'vk) cenv =
  ce_crypto :: "('sk, 'vk) crypto"
  ce_repr :: "json \<Rightarrow> pystr"
  ce_float :: "json \<Rightarrow> exn + rat"
  ce_truncate :: "pystr \<Rightarrow> exn + int"
  ce_read_key :: pystr
  ce_write_key :: pystr
  ce_key_path :: string
  ce_path_exists :: bool
  ce_load_key :: "exn + 'sk"
  ce_load_fault_key :: "exn + 'vk"
  ce_user :: "pystr option"
  ce_password :: "pystr option"
  ce_reserved :: int
  ce_now :: "'w \<Rightarrow> pystr"
  ce_commit :: "'w \<Rightarrow> exn + unit"
  ce_query_other :: "json \<Rightarrow> exn + pystr option"
  ce_login :: "pystr \<Rightarrow> pystr \<Rightarrow> pystr \<Rightarrow> ('w, reply) io"
  ce_getall :: "json \<Rightarrow> pystr list \<Rightarrow> ('w, reply) io"
  ce_scan :: "json \<Rightarrow> scan_request \<Rightarrow> ('w, reply) io"
  ce_zscan :: "json \<Rightarrow> bytes \<Rightarrow> nat \<Rightarrow> ('w, reply) io"
  ce_count :: "json \<Rightarrow> bytes \<Rightarrow> ('w, reply) io"
  ce_verify :: "json \<Rightarrow> json option \<Rightarrow> ('w, reply) io"
  ce_write :: "pystr \<Rightarrow> pystr \<Rightarrow> ('w, reply) io"
  ce_health :: "('w, reply) io"

type_synonym ('w, 'sk, 'vk, 'a) cio = "(('w, 'sk, 'vk) cstate, 'a) io"

definition outside :: "('w, 'a) io \<Rightarrow> ('w, 'sk, 'vk, 'a) cio" where
  "outside m s = (case m (cworld s) of (r, w') \<Rightarrow> (r, s\<lparr>cworld := w'\<rparr>))"

definition cpeek :: "(('w, 'sk, 'vk) cstate \<Rightarrow> 'a) \<Rightarrow> ('w, 'sk, 'vk, 'a) cio" where
  "cpeek f s = (Inr (f s), s)"

definition cpoke :: "(('w, 'sk, 'vk) cstate \<Rightarrow> ('w, 'sk, 'vk) cstate) \<Rightarrow> ('w, 'sk, 'vk, unit) cio" where
  "cpoke f s = (Inr (), f s)"

text \<open>A change of the session and its \<open>db.commit()\<close>: a failed commit leaves the tables as they were.\<close>

definition db_commit ::
  "('w, 'sk, 'vk) cenv \<Rightarrow> (('w, 'sk, 'vk) cstate \<Rightarrow> ('w, 'sk, 'vk) cstate) \<Rightarrow> ('w, 'sk, 'vk, unit) cio" where
  "db_commit env change =
     bind_io (cpeek (\<lambda>s. ce_commit env (cworld s))) (\<lambda>outcome. case outcome of
       Inl e \<Rightarrow> raise_io e
     | Inr _ \<Rightarrow> cpoke change)"

text \<open>\<open>int(v)\<close> of a JSON value; the integer a float literal truncates to is a parameter.\<close>

definition json_int :: "('w, 'sk, 'vk) cenv \<Rightarrow> json \<Rightarrow> exn + int" where
  "json_int env v =
     (case v of
        JInt i \<Rightarrow> Inr i
      | JBool b \<Rightarrow> Inr (if b then 1 else 0)
      | JStr s \<Rightarrow> of_option ValueError (py_int (strip s))
      | JFloat f \<Rightarrow> ce_truncate env f
      | _ \<Rightarrow> Inl TypeError)"

section \<open>Credentials, the writer's key and the session with the ledger\<close>

definition page_require_read_key :: "('w, 'sk, 'vk) cenv \<Rightarrow> pystr \<Rightarrow> http_error + unit" where
  "page_require_read_key env x_api_key =
     (if ce_read_key env = [] then Inl (HTTPException 503)
      else if x_api_key \<noteq> ce_read_key env then Inl (HTTPException 403)
      else Inr ())"

definition page_require_write_key :: "('w, 'sk, 'vk) cenv \<Rightarrow> pystr \<Rightarrow> http_error + unit" where
  "page_require_write_key env x_api_key =
     (if ce_write_key env = [] then Inl (HTTPException 503)
      else if x_api_key \<noteq> ce_write_key env then Inl (HTTPException 403)
      else Inr ())"

definition page_writer_keys :: "('w, 'sk, 'vk) cenv \<Rightarrow> ('w, 'sk, 'vk, 'sk \<times> 'vk) cio" where
  "page_writer_keys env =
     bind_io (cpeek cwriter_keys) (\<lambda>held. case held of
       Some ks \<Rightarrow> ret ks
     | None \<Rightarrow>
         if ce_key_path env = [] \<or> \<not> ce_path_exists env then raise_io WriterKeyUnset
         else bind_io (lift_io (ce_load_key env)) (\<lambda>sk.
                let ks = (sk, verifying_key_of (ce_crypto env) sk)
                in bind_io (cpoke (cwriter_keys_update (\<lambda>_. Some ks))) (\<lambda>_. ret ks)))"

definition text_b64 :: "pystr \<Rightarrow> exn + pystr" where
  "text_b64 s = map_sum id b64encode (of_option UnicodeError (utf8_encode s))"

definition immudb_login :: "('w, 'sk, 'vk) cenv \<Rightarrow> ('w, 'sk, 'vk, reply) cio" where
  "immudb_login env =
     (case (ce_user env, ce_password env) of
        (Some u, Some p) \<Rightarrow>
          bind_io (lift_io (text_b64 u)) (\<lambda>ub.
            bind_io (lift_io (text_b64 p)) (\<lambda>pb.
              outside (ce_login env ub pb (b64encode ''defaultdb''))))
      | _ \<Rightarrow> raise_io attribute_error)"

section \<open>Runs taken apart\<close>

lemma get_field_Inr: "get_field v key = Inr x \<longleftrightarrow> (\<exists>d. v = JObj d \<and> x = dget d key)"
  by (cases v) (auto simp: get_field_def get_default_def dget_def)

lemma outsideE:
  assumes "outside m s = (r, s')"
  obtains w' where "m (cworld s) = (r, w')" "s' = s\<lparr>cworld := w'\<rparr>"
  using assms by (auto simp: outside_def split: prod.splits)

lemma liftE: "lift_io q s = (r, s') \<Longrightarrow> q = r \<and> s' = s"
  by (simp add: lift_io_def)

lemma lift_bind_Inr:
  assumes "bind_io (lift_io q) f s = (Inr x, s')"
  obtains y where "q = Inr y" "f y s = (Inr x, s')"
  using assms by (auto simp: bind_io_def lift_io_def split: sum.splits)

lemma bind_InrE:
  assumes "bind_io m f s = (Inr x, s')"
  obtains y s1 where "m s = (Inr y, s1)" "f y s1 = (Inr x, s')"
  using assms by (auto elim: bind_ioE)

section \<open>Steps that leave the database alone\<close>

definition keeps_db :: "(('w, 'sk, 'vk) cstate, 'a) io \<Rightarrow> bool" where
  "keeps_db m \<longleftrightarrow> (\<forall>s r s'. m s = (r, s') \<longrightarrow>
     contents s' = contents s \<and> anchors s' = anchors s \<and> tenants s' = tenants s)"

named_theorems db_intros "steps that leave the database alone"

lemma keeps_dbD:
  "keeps_db m \<Longrightarrow> m s = (r, s') \<Longrightarrow>
     contents s' = contents s \<and> anchors s' = anchors s \<and> tenants s' = tenants s"
  by (simp add: keeps_db_def)

lemma keeps_db_basic [db_intros]:
  "keeps_db (ret x)" "keeps_db (raise_io e)" "keeps_db (lift_io q)" "keeps_db (cpeek f)" "keeps_db (outside m)"
  by (auto simp: keeps_db_def ret_def raise_io_def lift_io_def cpeek_def outside_def split: prod.splits)

lemma keeps_db_pokes [db_intros]:
  "keeps_db (cpoke (cwriter_keys_update g))" "keeps_db (cpoke (bound_reserve_cache_update h))"
  "keeps_db (cpoke (fault_key_loaded_update b))" "keeps_db (cpoke (fault_key_cache_update k))"
  by (simp_all add: keeps_db_def cpoke_def)

lemma keeps_db_bind [db_intros]:
  "keeps_db m \<Longrightarrow> (\<And>x. keeps_db (f x)) \<Longrightarrow> keeps_db (bind_io m f)"
  unfolding keeps_db_def by (intro allI impI, elim bind_ioE) fastforce+

lemma keeps_db_attempt [db_intros]:
  "keeps_db m \<Longrightarrow> (\<And>x. keeps_db (f x)) \<Longrightarrow> keeps_db (attempt m f)"
  unfolding keeps_db_def by (intro allI impI, elim attemptE) fastforce

lemma keeps_db_cases [db_intros]:
  "keeps_db m \<Longrightarrow> keeps_db m' \<Longrightarrow> keeps_db (if b then m else m')"
  "keeps_db m \<Longrightarrow> (\<And>y. keeps_db (f y)) \<Longrightarrow> keeps_db (case x of None \<Rightarrow> m | Some y \<Rightarrow> f y)"
  "(\<And>y. keeps_db (g y)) \<Longrightarrow> (\<And>y. keeps_db (h y)) \<Longrightarrow> keeps_db (case z of Inl y \<Rightarrow> g y | Inr y \<Rightarrow> h y)"
  "(\<And>u v. keeps_db (k u v)) \<Longrightarrow> keeps_db (case p of (u, v) \<Rightarrow> k u v)"
  by (auto split: option.split sum.split prod.split)

lemma keeps_db_writer_keys [db_intros]: "keeps_db (page_writer_keys env)"
  unfolding page_writer_keys_def Let_def by (intro db_intros)

lemma keeps_db_login [db_intros]: "keeps_db (immudb_login env)"
  unfolding immudb_login_def by (auto intro!: db_intros split: option.split prod.split)

section \<open>A control plane whose services answer nothing of interest\<close>

definition test_cenv :: "('w, bytes, bytes) cenv" where
  "test_cenv = \<lparr>ce_crypto = test_crypto, ce_repr = dumps,
     ce_float = (\<lambda>v. case v of JInt i \<Rightarrow> Inr (of_int i) | _ \<Rightarrow> Inl TypeError),
     ce_truncate = (\<lambda>_. Inl ValueError), ce_read_key = lit ''r'', ce_write_key = lit ''w'',
     ce_key_path = ''/k'', ce_path_exists = True, ce_load_key = Inr ''sk'', ce_load_fault_key = Inr ''sk'',
     ce_user = Some (lit ''u''), ce_password = Some (lit ''p''), ce_reserved = 1000,
     ce_now = (\<lambda>_. lit ''now''), ce_commit = (\<lambda>_. Inr ()), ce_query_other = (\<lambda>_. Inl TypeError),
     ce_login = (\<lambda>_ _ _. ret \<lparr>re_status = 200, re_body = Some (JObj [(lit ''token'', JStr (lit ''t''))])\<rparr>),
     ce_getall = (\<lambda>_ _. ret \<lparr>re_status = 200, re_body = Some (JObj [])\<rparr>),
     ce_scan = (\<lambda>_ _. ret \<lparr>re_status = 200, re_body = Some (JObj [])\<rparr>),
     ce_zscan = (\<lambda>_ _ _. ret \<lparr>re_status = 200, re_body = Some (JObj [])\<rparr>),
     ce_count = (\<lambda>_ _. ret \<lparr>re_status = 200, re_body = Some (JObj [])\<rparr>),
     ce_verify = (\<lambda>_ _. ret \<lparr>re_status = 200, re_body = Some (JObj
       [(lit ''verified'', JBool False), (lit ''error_class'', JStr (lit ''not_found''))])\<rparr>),
     ce_write = (\<lambda>_ _. ret \<lparr>re_status = 500, re_body = None\<rparr>),
     ce_health = ret \<lparr>re_status = 200, re_body = Some (JObj [])\<rparr>\<rparr>"

definition test_cstate :: "'w \<Rightarrow> ('w, bytes, bytes) cstate" where
  "test_cstate w = \<lparr>cworld = w, contents = [], anchors = [], tenants = [], cwriter_keys = None,
     bound_reserve_cache = None, fault_key_loaded = False, fault_key_cache = None\<rparr>"

end
