(* ===== verification/ContentErasure.thy ===== *)
theory ContentErasure
  imports ControlState WritePath
begin

text \<open>
  Erasable content (\<open>control_plane/main.py\<close>: \<open>/content\<close>): a payload is stored beside
  the ledger, an erasure deletes it after writing a signed tombstone through the verifier, and
  no content is stored again under a call id that carries one. What the control plane relies on
  in the verifier's \<open>POST /write\<close> is the locale \<open>record_store\<close>, interpreted by the model
  of that route.
\<close>

section \<open>The tombstone check\<close>

definition erasure_key :: "pystr \<Rightarrow> pystr" where
  "erasure_key call_id = lit ''content_erasure:'' @ call_id"

definition has_tombstone :: "('w, 'sk, 'vk) cenv \<Rightarrow> pystr \<Rightarrow> ('w, 'sk, 'vk, bool) cio" where
  "has_tombstone env call_id =
     bind_io (lift_io (text_b64 (erasure_key call_id))) (\<lambda>encoded_key.
       attempt (bind_io (outside (ce_verify env (JStr encoded_key) None)) (\<lambda>resp. lift_io (checked_body resp)))
         (\<lambda>r. case r of
            Inl exc \<Rightarrow> ret True
          | Inr data \<Rightarrow>
              bind_io (lift_io (get_field data ''verified'')) (\<lambda>verified.
                if truthy verified then ret True
                else bind_io (lift_io (get_field data ''error_class'')) (\<lambda>e.
                       ret (e \<noteq> JStr (lit ''not_found''))))))"

section \<open>Storing content\<close>

record content_write =
  cw_call_id :: pystr
  cw_payload :: dict

fun put_content :: "(pystr \<times> pystr) list \<Rightarrow> pystr \<Rightarrow> pystr \<Rightarrow> (pystr \<times> pystr) list" where
  "put_content [] call_id p = [(call_id, p)]"
| "put_content ((c, q) # rows) call_id p =
     (if c = call_id then (c, p) # rows else (c, q) # put_content rows call_id p)"

definition write_content ::
  "('w, 'sk, 'vk) cenv \<Rightarrow> pystr \<Rightarrow> content_write \<Rightarrow> ('w, 'sk, 'vk, http_error + unit) cio" where
  "write_content env x_api_key payload =
     (case page_require_write_key env x_api_key of
        Inl e \<Rightarrow> ret (Inl e)
      | Inr _ \<Rightarrow>
          bind_io (has_tombstone env (cw_call_id payload)) (\<lambda>erased.
            if erased then ret (Inl (HTTPException 409))
            else bind_io (db_commit env (contents_update (\<lambda>rows.
                     put_content rows (cw_call_id payload) (dumps (JObj (cw_payload payload))))))
                   (\<lambda>_. ret (Inr ()))))"

section \<open>Is the tombstone in the ledger\<close>

fun confirm_entries ::
  "('w, 'sk, 'vk) cenv \<Rightarrow> pystr \<Rightarrow> json \<Rightarrow> bool \<Rightarrow> json list \<Rightarrow> exn + bool" where
  "confirm_entries env call_id expected_tx require_transaction [] = Inr False"
| "confirm_entries env call_id expected_tx require_transaction (raw # rest) =
     (let onward = confirm_entries env call_id expected_tx require_transaction rest
      in case bind_sum (item raw ''value'') decode_json of
           Inl _ \<Rightarrow> onward
         | Inr v \<Rightarrow>
             bind_sum (get_field v ''record_type'') (\<lambda>record_type.
               if record_type \<noteq> JStr (lit ''content_erasure'') then onward
               else bind_sum (get_field v ''call_id'') (\<lambda>c.
                      if c \<noteq> JStr call_id then onward
                      else if \<not> require_transaction then Inr True
                      else bind_sum (get_default raw ''tx'' (JInt 0)) (\<lambda>t.
                             bind_sum (json_int env t) (\<lambda>tx.
                               bind_sum (json_int env expected_tx) (\<lambda>expected.
                                 if tx \<noteq> expected then onward else Inr True))))))"

definition read_tombstone_entries ::
  "('w, 'sk, 'vk) cenv \<Rightarrow> pystr \<Rightarrow> ('w, 'sk, 'vk, reply) cio" where
  "read_tombstone_entries env call_id =
     bind_io (immudb_login env) (\<lambda>login.
       bind_io (lift_io (checked_body login)) (\<lambda>session.
         bind_io (lift_io (item session ''token'')) (\<lambda>token.
           bind_io (lift_io (text_b64 (erasure_key call_id))) (\<lambda>key.
             bind_io (outside (ce_getall env token [key])) (\<lambda>resp.
               bind_io (lift_io (raise_for_status resp)) (\<lambda>_. ret resp))))))"

definition tombstone_present_in_ledger ::
  "('w, 'sk, 'vk) cenv \<Rightarrow> pystr \<Rightarrow> json \<Rightarrow> bool \<Rightarrow> ('w, 'sk, 'vk, bool) cio" where
  "tombstone_present_in_ledger env call_id expected_tx require_transaction =
     (if require_transaction \<and> \<not> truthy expected_tx then ret False
      else attempt (read_tombstone_entries env call_id) (\<lambda>r. case r of
             Inl exc \<Rightarrow> ret False
           | Inr resp \<Rightarrow>
               bind_io (lift_io (json_body resp)) (\<lambda>body.
                 bind_io (lift_io (get_default body ''entries'' (JArr []))) (\<lambda>entries.
                   bind_io (lift_io (py_iter entries)) (\<lambda>raws.
                     lift_io (confirm_entries env call_id expected_tx require_transaction raws))))))"

section \<open>Writing the tombstone\<close>

record tombstone_outcome =
  to_verified :: bool
  to_tx_id :: json
  to_fault_record :: json
  to_error_class :: "json option"

definition tombstone :: "pystr \<Rightarrow> pystr \<Rightarrow> dict" where
  "tombstone call_id now =
     [(lit ''record_type'', JStr (lit ''content_erasure'')), (lit ''call_id'', JStr call_id),
      (lit ''timestamp'', JStr now), (lit ''actor'', JStr (lit ''control-plane-write-key'')),
      (lit ''profile'', JStr (lit ''observed''))]"

text \<open>What the verifier answered, read against the ledger unless it proved the write.\<close>

definition tombstone_standing ::
  "('w, 'sk, 'vk) cenv \<Rightarrow> pystr \<Rightarrow> dict \<Rightarrow> ('w, 'sk, 'vk, tombstone_outcome) cio" where
  "tombstone_standing env call_id result =
     (if truthy (dget result ''verified'')
      then ret \<lparr>to_verified = True, to_tx_id = dget result ''tx_id'', to_fault_record = JNull, to_error_class = None\<rparr>
      else if dget result ''committed'' = JNull then
        bind_io (tombstone_present_in_ledger env call_id (dget result ''tx_id'') False) (\<lambda>there.
          if \<not> there then raise_io (RuntimeError ''Tombstone write outcome not established'')
          else ret \<lparr>to_verified = False, to_tx_id = dget result ''tx_id'',
                    to_fault_record = dget result ''fault_record'',
                    to_error_class = Some (JStr (lit ''commit_not_established''))\<rparr>)
      else if \<not> truthy (dget result ''committed'')
        then raise_io (RuntimeError ''Tombstone write not verified'')
      else bind_io (tombstone_present_in_ledger env call_id (dget result ''tx_id'') True) (\<lambda>there.
             if \<not> there then raise_io (RuntimeError ''Tombstone write reported committed but no record is present'')
             else ret \<lparr>to_verified = False, to_tx_id = dget result ''tx_id'',
                       to_fault_record = dget result ''fault_record'',
                       to_error_class = Some (dget result ''error_class'')\<rparr>))"

definition write_tombstone ::
  "('w, 'sk, 'vk) cenv \<Rightarrow> pystr \<Rightarrow> ('w, 'sk, 'vk, tombstone_outcome) cio" where
  "write_tombstone env call_id =
     bind_io (cpeek (\<lambda>s. ce_now env (cworld s))) (\<lambda>now.
       bind_io (page_writer_keys env) (\<lambda>(signing_key, verifying_key).
         let serialized = dumps_compact (JObj
               (sign_record (ce_crypto env) (tombstone call_id now) signing_key verifying_key))
         in bind_io (lift_io (text_b64 (erasure_key call_id))) (\<lambda>encoded_key.
              bind_io (outside (ce_write env encoded_key (b64encode (encode_ascii serialized)))) (\<lambda>resp.
                bind_io (lift_io (checked_body resp)) (\<lambda>result. case result of
                  JObj d \<Rightarrow> tombstone_standing env call_id d
                | _ \<Rightarrow> raise_io attribute_error)))))"

definition erase_content ::
  "('w, 'sk, 'vk) cenv \<Rightarrow> pystr \<Rightarrow> pystr \<Rightarrow> ('w, 'sk, 'vk, http_error + unit) cio" where
  "erase_content env x_api_key call_id =
     (case page_require_write_key env x_api_key of
        Inl e \<Rightarrow> ret (Inl e)
      | Inr _ \<Rightarrow>
          bind_io (cpeek (\<lambda>s. map_of (contents s) call_id)) (\<lambda>existing.
            if existing = None then ret (Inr ())
            else attempt (write_tombstone env call_id) (\<lambda>r. case r of
                   Inl exc \<Rightarrow> ret (Inl (HTTPException 503))
                 | Inr outcome \<Rightarrow>
                     bind_io (db_commit env (contents_update (filter (\<lambda>(c, p). c \<noteq> call_id))))
                       (\<lambda>_. ret (Inr ())))))"

section \<open>What is relied on\<close>

text \<open>An entry of the gateway's \<open>getall\<close>: a value the history holds under a key asked for.\<close>

definition entry_for :: "history \<Rightarrow> bytes \<Rightarrow> json \<Rightarrow> bool" where
  "entry_for h k raw \<longleftrightarrow>
     (\<exists>d v t. raw = JObj d \<and> wrote_at h k v t \<and> dget d ''tx'' = JStr (show_int t) \<and>
        dget d ''key'' = JStr (b64encode k) \<and>
        (dict_get d (lit ''value'') = None \<and> v = [] \<or> dict_get d (lit ''value'') = Some (JStr (b64encode v))))"

definition getall_ok :: "('w, 'sk, 'vk) cenv \<Rightarrow> ('w \<Rightarrow> history) \<Rightarrow> bool" where
  "getall_ok env hist \<longleftrightarrow>
     (\<forall>token keys w re w' d xs raw. ce_getall env token (map b64encode keys) w = (Inr re, w') \<longrightarrow>
        re_body re = Some (JObj d) \<longrightarrow> dget d ''entries'' = JArr xs \<longrightarrow> raw \<in> set xs \<longrightarrow>
        (\<exists>k \<in> set keys. entry_for (hist w') k raw))"

definition is_tombstone :: "pystr \<Rightarrow> bytes \<Rightarrow> bool" where
  "is_tombstone call_id v \<longleftrightarrow>
     (\<exists>d. loads_bytes v = Some (JObj d) \<and> dget d ''record_type'' = JStr (lit ''content_erasure'') \<and>
        dget d ''call_id'' = JStr call_id)"

definition tombstoned :: "history \<Rightarrow> pystr \<Rightarrow> bool" where
  "tombstoned h call_id \<longleftrightarrow>
     (\<exists>k v t. utf8_encode (erasure_key call_id) = Some k \<and> wrote_at h k v t \<and> is_tombstone call_id v)"

text \<open>The service that writes records: a write it calls verified is in the ledger.\<close>

locale record_store =
  fixes ok :: "'env \<Rightarrow> bool" and hist :: "'w \<Rightarrow> history"
    and post :: "'env \<Rightarrow> pystr \<Rightarrow> pystr \<Rightarrow> ('w, reply) io"
  assumes verified_is_written:
    "ok e \<Longrightarrow> post e (b64encode k) (b64encode v) w = (Inr re, w') \<Longrightarrow> re_body re = Some (JObj d) \<Longrightarrow>
     truthy (dget d ''verified'') \<Longrightarrow> \<exists>t. wrote_at (hist w') k v t"

section \<open>Reading the entries\<close>

lemma decode_json_entry:
  assumes "bind_sum (item raw ''value'') decode_json = Inr j" "entry_for h k raw"
  obtains v t where "wrote_at h k v t" "loads_bytes v = Some j"
  using assms
  by (auto simp: entry_for_def item_def decode_json_def bind_sum_def of_option_def split: option.splits
      sum.splits)

lemma confirm_entries_sound:
  assumes "confirm_entries env call_id expected req raws = Inr True"
    "\<And>raw. raw \<in> set raws \<Longrightarrow> entry_for h k raw"
  shows "\<exists>v t. wrote_at h k v t \<and> is_tombstone call_id v"
  using assms
proof (induction raws)
  case (Cons raw rest)
  show ?case
  proof (cases "confirm_entries env call_id expected req rest = Inr True")
    case True
    then show ?thesis using Cons by simp
  next
    case False
    then obtain j d where j: "bind_sum (item raw ''value'') decode_json = Inr j" "j = JObj d"
      "dget d ''record_type'' = JStr (lit ''content_erasure'')" "dget d ''call_id'' = JStr call_id"
      using Cons.prems(1)
      by (fastforce simp: Let_def get_field_Inr bind_sum_Inr_iff split: sum.splits if_splits)
    obtain v t where "wrote_at h k v t" "loads_bytes v = Some j"
      using decode_json_entry [OF j(1) Cons.prems(2)] by auto
    then show ?thesis using j by (auto simp: is_tombstone_def)
  qed
qed simp

lemma py_iter_strings:
  "py_iter j = Inr xs \<Longrightarrow> (\<exists>ys. j = JArr ys) \<or> (\<forall>x \<in> set xs. \<exists>s. x = JStr s)"
  by (cases j) auto

lemma confirm_no_objects:
  "\<forall>x \<in> set raws. \<exists>s. x = JStr s \<Longrightarrow> confirm_entries env c e q raws = Inr False"
  by (induction raws) (auto simp: item_def)

lemma read_tombstone_entries_world:
  assumes "read_tombstone_entries env call_id s = (Inr resp, s')"
  obtains key token s1 where "utf8_encode (erasure_key call_id) = Some key"
    "ce_getall env token [b64encode key] s1 = (Inr resp, cworld s')"
proof -
  obtain s1 token key where k: "text_b64 (erasure_key call_id) = Inr key"
    "outside (ce_getall env token [key]) s1 = (Inr resp, s')"
    using assms unfolding read_tombstone_entries_def
    by (elim bind_InrE) (auto simp: lift_io_def ret_def)
  obtain kb where "utf8_encode (erasure_key call_id) = Some kb" "key = b64encode kb"
    using k(1) by (auto simp: text_b64_def of_option_def split: option.splits)
  moreover from this k(2) have "ce_getall env token [b64encode kb] (cworld s1) = (Inr resp, cworld s')"
    by (auto elim!: outsideE)
  ultimately show ?thesis using that by blast
qed

lemma tombstone_present_sound:
  assumes "getall_ok env hist" "tombstone_present_in_ledger env call_id tx req s = (Inr True, s')"
  shows "tombstoned (hist (cworld s')) call_id"
proof -
  obtain resp s1 body entries raws where r: "read_tombstone_entries env call_id s = (Inr resp, s1)"
    "json_body resp = Inr body" "get_default body ''entries'' (JArr []) = Inr entries"
    "py_iter entries = Inr raws" "confirm_entries env call_id tx req raws = Inr True" "s' = s1"
    using assms(2) unfolding tombstone_present_in_ledger_def
    by (auto simp: ret_def lift_io_def split: if_splits sum.splits elim!: attemptE bind_InrE)
  obtain key token w where k: "utf8_encode (erasure_key call_id) = Some key"
    "ce_getall env token [b64encode key] w = (Inr resp, cworld s1)"
    using read_tombstone_entries_world [OF r(1)] .
  obtain d where d: "body = JObj d" "re_body resp = Some (JObj d)"
    using r(2,3) by (cases body) (auto simp: json_body_def of_option_def get_default_def split: option.splits)
  have some: "\<not> (\<forall>x \<in> set raws. \<exists>t. x = JStr t)"
    using confirm_no_objects [of raws env call_id tx req] r(5) by auto
  then have e: "entries = JArr raws" using r(4) py_iter_strings [OF r(4)] by auto
  have "raws \<noteq> []" using some by auto
  then have a: "dget d ''entries'' = JArr raws"
    using r(3) d(1) e by (auto simp: get_default_def dget_def split: option.splits)
  have g: "ce_getall env token (map b64encode [key]) w = (Inr resp, cworld s1)" using k(2) by simp
  have "entry_for (hist (cworld s1)) key raw" if "raw \<in> set raws" for raw
    using assms(1) g d(2) a that unfolding getall_ok_def by (metis empty_iff insert_iff list.set)
  from confirm_entries_sound [OF r(5) this] show ?thesis
    using k(1) r(6) by (auto simp: tombstoned_def)
qed

section \<open>The tombstone the service writes\<close>

lemma utf8_scalars: "utf8_encode s = Some b \<Longrightarrow> list_all is_scalar s"
  by (auto simp: utf8_encode_def split: if_splits)

lemma erasure_key_scalars: "utf8_encode (erasure_key call_id) = Some k \<Longrightarrow> list_all is_scalar call_id"
  using utf8_scalars [of "erasure_key call_id" k] by (simp add: erasure_key_def)

lemma written_tombstone:
  assumes "utf8_encode (erasure_key call_id) = Some k" "list_all is_scalar now"
  shows "is_tombstone call_id (encode_ascii (dumps_compact (JObj (sign_record C (tombstone call_id now) sk vk))))"
proof -
  have "wf_json (JObj (tombstone call_id now))"
    using assms(2) erasure_key_scalars [OF assms(1)]
    by (simp add: tombstone_def lit_def is_scalar_def is_surrogate_def)
  from loads_bytes_compact [OF sign_record_wf [OF this, of C sk vk]]
  show ?thesis
    by (auto simp: is_tombstone_def dget_def sign_record_fields FORMAT_FIELD_def FINGERPRINT_FIELD_def
        SIGNATURE_FIELD_def lit_def) (simp add: tombstone_def dict_get_def lit_def)+
qed

text \<open>What the routes ask of the world: the clock's text is text, and the gateway reads the ledger.\<close>

definition cenv_ok :: "('w, 'sk, 'vk) cenv \<Rightarrow> ('w \<Rightarrow> history) \<Rightarrow> bool" where
  "cenv_ok env hist \<longleftrightarrow> getall_ok env hist \<and> (\<forall>w. list_all is_scalar (ce_now env w))"

lemma tombstone_standing_cases:
  assumes "tombstone_standing env call_id d s = (Inr out, s')" "getall_ok env hist"
  shows "truthy (dget d ''verified'') \<and> s' = s \<or> tombstoned (hist (cworld s')) call_id"
proof (cases "truthy (dget d ''verified'')")
  case True
  then show ?thesis using assms(1) by (simp add: tombstone_standing_def ret_def)
next
  case False
  obtain tx req where "tombstone_present_in_ledger env call_id tx req s = (Inr True, s')"
    using assms(1) False unfolding tombstone_standing_def
    by (auto simp: ret_def raise_io_def split: if_splits elim!: bind_InrE)
  then show ?thesis using tombstone_present_sound [OF assms(2)] by blast
qed

context record_store
begin

lemma tombstone_written:
  assumes "ok e" "ce_write env = post e" "cenv_ok env hist"
    "write_tombstone env call_id s = (Inr out, s')"
  shows "tombstoned (hist (cworld s')) call_id"
proof -
  obtain now sk vk key s1 resp s2 d where
    now: "now = ce_now env (cworld s)" and
    key: "text_b64 (erasure_key call_id) = Inr key" and
    resp: "outside (ce_write env key (b64encode (encode_ascii (dumps_compact (JObj
       (sign_record (ce_crypto env) (tombstone call_id now) sk vk)))))) s1 = (Inr resp, s2)" and
    d: "checked_body resp = Inr (JObj d)" "tombstone_standing env call_id d s2 = (Inr out, s')"
    using assms(4) unfolding write_tombstone_def Let_def
    by (elim bind_InrE)
      (auto simp: cpeek_def lift_io_def raise_io_def split: prod.splits json.splits elim!: bind_InrE)
  obtain k where k: "utf8_encode (erasure_key call_id) = Some k" "key = b64encode k"
    using key by (auto simp: text_b64_def of_option_def split: option.splits)
  from tombstone_standing_cases [OF d(2), of hist] show ?thesis
  proof (rule disjE)
    assume v: "truthy (dget d ''verified'') \<and> s' = s2"
    have "re_body resp = Some (JObj d)"
      using d(1) by (auto simp: checked_body_def json_body_def of_option_def bind_sum_Inr_iff split: option.splits)
    moreover obtain w where "post e (b64encode k) (b64encode (encode_ascii (dumps_compact (JObj
       (sign_record (ce_crypto env) (tombstone call_id now) sk vk))))) (cworld s1) = (Inr resp, w)" "cworld s2 = w"
      using resp k(2) assms(2) by (auto elim!: outsideE)
    ultimately obtain t where t: "wrote_at (hist (cworld s2)) k (encode_ascii (dumps_compact (JObj
       (sign_record (ce_crypto env) (tombstone call_id now) sk vk)))) t"
      using verified_is_written [OF assms(1)] v by blast
    have "list_all is_scalar now" using assms(3) now by (simp add: cenv_ok_def)
    note written = written_tombstone [OF k(1) this, of "ce_crypto env" sk vk]
    show ?thesis unfolding tombstoned_def using k(1) t written v by (intro exI conjI) auto
  qed (use assms(3) in \<open>auto simp: cenv_ok_def\<close>)
qed

text \<open>The content table changes only by the row of the call, and only once its tombstone is there.\<close>

lemma erased_is_tombstoned:
  assumes "ok e" "ce_write env = post e" "cenv_ok env hist"
    "erase_content env x_api_key call_id s = (r, s')"
  shows "contents s' = contents s \<or>
    contents s' = filter (\<lambda>(c, p). c \<noteq> call_id) (contents s) \<and> tombstoned (hist (cworld s')) call_id"
proof (cases "contents s' = contents s")
  case False
  have keeps: "keeps_db (write_tombstone env call_id)"
    unfolding write_tombstone_def Let_def tombstone_standing_def tombstone_present_in_ledger_def
      read_tombstone_entries_def
    by (auto intro!: db_intros split: json.split sum.split)
  from False assms(4) obtain out s1 where o: "write_tombstone env call_id s = (Inr out, s1)"
    "bind_io (db_commit env (contents_update (filter (\<lambda>(c, p). c \<noteq> call_id)))) (\<lambda>_. ret (Inr ())) s1 = (r, s')"
    unfolding erase_content_def
    using keeps_dbD [OF keeps, of s]
    by (auto simp: ret_def cpeek_def bind_io_def [of "cpeek _"] attempt_def split: sum.splits if_splits prod.splits)
  have "contents s' = filter (\<lambda>(c, p). c \<noteq> call_id) (contents s1) \<and> cworld s' = cworld s1"
    using o(2) False keeps_dbD [OF keeps o(1)]
    by (auto simp: db_commit_def bind_io_def cpeek_def cpoke_def ret_def raise_io_def split: sum.splits)
  then show ?thesis
    using tombstone_written [OF assms(1-3) o(1)] keeps_dbD [OF keeps o(1)] by simp
qed simp

end

section \<open>The verifier as the record store\<close>

text \<open>The JSON of a write response; its two prose fields are left to a parameter.\<close>

definition write_response_json :: "(write_detail \<Rightarrow> pystr) \<Rightarrow> (fault_error \<Rightarrow> pystr) \<Rightarrow> write_response \<Rightarrow> json" where
  "write_response_json prose fprose r = JObj
     [(lit ''tx_id'', json_opt JInt (wr_tx_id r)), (lit ''verified'', JBool (wr_verified r)),
      (lit ''committed'', json_opt JBool (wr_committed r)),
      (lit ''error_class'', json_opt JStr (wr_error_class r)),
      (lit ''fault_record'', json_opt JStr (wr_fault_record r)),
      (lit ''fault_record_error'', json_opt (JStr \<circ> fprose) (wr_fault_error r)),
      (lit ''detail'', json_opt (JStr \<circ> prose) (wr_detail r))]"

text \<open>A caller of \<open>POST /write\<close> with a credential: an exception of the route is an HTTP 500.\<close>

record ('w, 'sk, 'vk) write_caller =
  wc_env :: "('w, 'sk, 'vk) venv"
  wc_key :: pystr
  wc_prose :: "write_detail \<Rightarrow> pystr"
  wc_fault_prose :: "fault_error \<Rightarrow> pystr"

definition http_write ::
  "('w, 'sk, 'vk) write_caller \<Rightarrow> pystr \<Rightarrow> pystr \<Rightarrow> (('w, 'sk, 'vk) vstate, reply) io" where
  "http_write c key v =
     attempt (write_route (wc_env c) (wc_key c) \<lparr>wq_key = key, wq_value = v\<rparr>) (\<lambda>r. case r of
       Inl exc \<Rightarrow> ret \<lparr>re_status = 500, re_body = None\<rparr>
     | Inr (Inl (HTTPException n)) \<Rightarrow> ret \<lparr>re_status = n, re_body = Some (JObj [])\<rparr>
     | Inr (Inr resp) \<Rightarrow>
         ret \<lparr>re_status = 200, re_body = Some (write_response_json (wc_prose c) (wc_fault_prose c) resp)\<rparr>)"

lemma verified_field: "dget [(lit ''tx_id'', a), (lit ''verified'', b), (lit ''committed'', c), (lit ''error_class'', d),
   (lit ''fault_record'', e), (lit ''fault_record_error'', f), (lit ''detail'', g)] ''verified'' = b"
  by (simp add: dget_def dict_get_def lit_def)

lemma write_commit_verified:
  assumes "venv_ok E hist env" "write_commit env key v s = (Inr r, s')" "wr_verified r"
  shows "\<exists>t. wrote_at (vhist hist s') key v t"
proof -
  have so: "set_ok E hist (im_verified_set (ve_im env))" using assms(1) by (simp add: venv_ok_def immudb_ok_def)
  obtain t s1 s2 q where t: "on_world (im_verified_set (ve_im env) key v) s1 = (Inr t, s2)"
    "on_world (im_current_state (ve_im env)) s2 = (q, s')"
    using assms(2,3) unfolding write_commit_def
    by (auto simp: ret_def unverified_def write_proof_failed_def write_raised_def
        split: sum.splits if_splits presence.splits prod.splits elim!: attemptE bind_InrE)
  have "committed E [KV key v] (vhist hist s1) (vhist hist s2) t"
    using so t(1) unfolding set_ok_def by (fastforce simp: on_world_def vhist_def split: prod.splits)
  then have "wrote_at (vhist hist s2) key v t" by (rule committed_wrote) simp
  moreover have "grows E (vhist hist s2) (vhist hist s')"
    using keeps_client_reads(4) [OF assms(1)] t(2) by (rule keepsD)
  ultimately show ?thesis using grows_wrote by blast
qed

interpretation verifier_store: record_store "\<lambda>c. venv_ok E hist (wc_env c)" "vhist hist" http_write for E hist
proof
  fix c :: "('a, 'b, 'c) write_caller" and k v w re w' d
  assume a: "venv_ok E hist (wc_env c)" "http_write c (b64encode k) (b64encode v) w = (Inr re, w')"
    "re_body re = Some (JObj d)" "truthy (dget d ''verified'')"
  obtain q s1 where q: "write_route (wc_env c) (wc_key c) \<lparr>wq_key = b64encode k, wq_value = b64encode v\<rparr> w = (q, s1)"
    by fastforce
  have "dget [] ''verified'' = JNull" by (simp add: dget_def dict_get_def)
  then obtain r where r: "q = Inr (Inr r)" "w' = s1" "wr_verified r"
    using a(2-4) by (auto simp: http_write_def attempt_def q ret_def write_response_json_def verified_field
        split: sum.splits http_error.splits)
  then have "write_commit (wc_env c) k v w = (Inr r, w')"
    using q by (auto simp: write_route_def bind_io_def ret_def split: sum.splits option.splits prod.splits)
  then show "\<exists>t. wrote_at (vhist hist w') k v t" using write_commit_verified [OF a(1)] r(3) by blast
qed

section \<open>A control plane over the verifier in memory\<close>

definition test_caller :: "(history \<times> fault_script, bytes, bytes) write_caller" where
  "test_caller = \<lparr>wc_env = test_env, wc_key = lit ''w'', wc_prose = (\<lambda>_. []), wc_fault_prose = (\<lambda>_. [])\<rparr>"

definition test_erasure_env ::
  "((history \<times> fault_script, bytes, bytes) vstate, bytes, bytes) cenv" where
  "test_erasure_env = test_cenv\<lparr>ce_write := http_write test_caller\<rparr>"

definition test_erasure_state ::
  "((history \<times> fault_script, bytes, bytes) vstate, bytes, bytes) cstate" where
  "test_erasure_state = test_cstate (test_state [] [])\<lparr>contents := [(lit ''c1'', lit ''{}'')]\<rparr>"

lemma no_entries: "dget [] k = JNull"
  by (simp add: dget_def dict_get_def)

lemma encode_lit [simp]: "encode_ascii (lit s) = s"
  by (simp add: encode_ascii_def lit_def comp_def)

lemma utf8_lit: "\<forall>c \<in> set s. of_char c < (128 :: nat) \<Longrightarrow> utf8_encode (lit s) = Some s"
  using utf8_ascii [of "lit s"] encode_lit [of s] by (auto simp: lit_def)

lemma test_keys:
  "text_b64 (erasure_key (lit ''c1'')) = Inr (b64encode ''content_erasure:c1'')"
  "text_b64 (erasure_key (lit ''c2'')) = Inr (b64encode ''content_erasure:c2'')"
proof -
  have "erasure_key (lit s) = lit (''content_erasure:'' @ s)" for s
    by (simp add: erasure_key_def lit_def)
  then show "text_b64 (erasure_key (lit ''c1'')) = Inr (b64encode ''content_erasure:c1'')"
    "text_b64 (erasure_key (lit ''c2'')) = Inr (b64encode ''content_erasure:c2'')"
    by (simp_all add: text_b64_def utf8_lit)
qed

lemma test_accepted:
  "refuse_reason_for_plain_write ''content_erasure:c1'' (encode_ascii (dumps_compact (JObj
     (sign_record C (tombstone (lit ''c1'') (lit ''now'')) sk vk)))) = None"
proof -
  have "wf_json (JObj (tombstone (lit ''c1'') (lit ''now'')))"
    by (simp add: tombstone_def lit_def is_scalar_def is_surrogate_def)
  from loads_bytes_compact [OF sign_record_wf [OF this, of C sk vk]] show ?thesis
    by (simp add: refuse_reason_for_plain_write_def REFUSED_KEY_PREFIXES_def FAULT_KEY_PREFIX_BYTES_def
        FAULT_KEY_PREFIX_def encode_ascii_def lit_def sign_record_fields [unfolded lit_def] FORMAT_FIELD_def FINGERPRINT_FIELD_def
        SIGNATURE_FIELD_def)
      (simp add: tombstone_def dict_get_def lit_def REFUSED_ON_PLAIN_WRITE_def FAULT_RECORD_TYPE_def)
qed

lemma test_erased:
  "contents (snd (erase_content test_erasure_env (lit ''w'') (lit ''c1'') test_erasure_state)) = []"
proof -
  obtain v where v: "v = encode_ascii (dumps_compact (JObj (sign_record test_crypto
    (tombstone (lit ''c1'') (lit ''now'')) ''sk'' (verifying_key_of test_crypto ''sk''))))" by blast
  have w: "fst (http_write test_caller (b64encode ''content_erasure:c1'') (b64encode v) (test_state [] [])) =
    Inr \<lparr>re_status = 200, re_body = Some (write_response_json (\<lambda>_. []) (\<lambda>_. [])
      \<lparr>wr_tx_id = Some 1, wr_verified = True, wr_committed = Some True,
       wr_error_class = None, wr_fault_record = None, wr_fault_error = None, wr_detail = None\<rparr>)\<rparr>"
    using test_accepted [of test_crypto "''sk''" "verifying_key_of test_crypto ''sk''", folded v]
    by (simp add: http_write_def attempt_def write_route_def test_caller_def require_write_key_def
        test_env_def lit_def bind_io_def write_commit_def get_client_def peek_def test_state_def ret_def
        on_world_def mem_def mem_write_def next_tx_def)
  obtain q w' where q: "http_write test_caller (b64encode ''content_erasure:c1'') (b64encode v) (test_state [] []) = (q, w')"
    by fastforce
  show ?thesis
    using w q v
    by (simp add: erase_content_def test_erasure_env_def test_cenv_def page_require_write_key_def bind_io_def
        cpeek_def test_erasure_state_def test_cstate_def attempt_def write_tombstone_def page_writer_keys_def
        cpoke_def ret_def lift_io_def Let_def test_keys [unfolded lit_def, simplified] outside_def checked_body_def raise_for_status_def
        json_body_def write_response_json_def tombstone_standing_def dget_def dict_get_def db_commit_def lit_def)
qed

section \<open>Properties\<close>

text \<open>
  C16: an erasure never deletes content the ledger does not say is erased. Whatever the verifier
  and the gateway answer, and whatever raises, the content table is afterwards what it was, or
  it has lost exactly the row of the call id and the ledger holds a \<open>content_erasure\<close> record
  for that call id.
\<close>

theorem erasure_leaves_a_tombstone:
  assumes "venv_ok E hist (wc_env c)" "ce_write env = http_write c" "cenv_ok env (vhist hist)"
    and "erase_content env x_api_key call_id s = (r, s')"
  shows "contents s' = contents s \<or>
    contents s' = filter (\<lambda>(c, p). c \<noteq> call_id) (contents s) \<and> tombstoned (vhist hist (cworld s')) call_id"
  using assms by (rule verifier_store.erased_is_tombstoned)

theorem erasure_leaves_a_tombstone_witness:
  "\<exists>s'. snd (erase_content test_erasure_env (lit ''w'') (lit ''c1'') test_erasure_state) = s' \<and>
     contents s' = [] \<and> tombstoned (vhist fst (cworld s')) (lit ''c1'')"
proof -
  obtain r s' where run: "erase_content test_erasure_env (lit ''w'') (lit ''c1'') test_erasure_state = (r, s')"
    by fastforce
  have "contents s' = contents test_erasure_state \<or>
    contents s' = filter (\<lambda>(c, p). c \<noteq> lit ''c1'') (contents test_erasure_state) \<and>
    tombstoned (vhist fst (cworld s')) (lit ''c1'')"
    by (rule erasure_leaves_a_tombstone [OF _ _ _ run, where c = test_caller])
      (simp_all add: test_caller_def test_erasure_env_def test_env_ok cenv_ok_def getall_ok_def
        test_cenv_def ret_def no_entries lit_def is_scalar_def is_surrogate_def)
  then show ?thesis using run test_erased by (simp add: test_erasure_state_def)
qed

text \<open>
  C18: content is stored for a call id only when the verifier answered that nothing was ever
  written under its tombstone key: any other answer, and no answer, leaves the table as it was.
\<close>

theorem content_is_written_only_when_no_tombstone:
  assumes "write_content env x_api_key payload s = (r, s')" "contents s' \<noteq> contents s"
  shows "\<exists>key re w' d. text_b64 (erasure_key (cw_call_id payload)) = Inr key \<and>
    ce_verify env (JStr key) None (cworld s) = (Inr re, w') \<and> re_body re = Some (JObj d) \<and>
    200 \<le> re_status re \<and> re_status re < 300 \<and>
    \<not> truthy (dget d ''verified'') \<and> dget d ''error_class'' = JStr (lit ''not_found'') \<and>
    map_of (contents s') (cw_call_id payload) = Some (dumps (JObj (cw_payload payload)))"
proof -
  have put: "map_of (put_content rows c p) c = Some p" for rows c p
    by (induction rows c p rule: put_content.induct) auto
  have keeps: "keeps_db (has_tombstone env (cw_call_id payload))"
    unfolding has_tombstone_def by (auto intro!: db_intros split: sum.split)
  obtain s1 where h: "has_tombstone env (cw_call_id payload) s = (Inr False, s1)"
    "contents s' = put_content (contents s1) (cw_call_id payload) (dumps (JObj (cw_payload payload)))"
    using assms keeps_dbD [OF keeps, of s]
    by (auto simp: write_content_def ret_def db_commit_def cpeek_def cpoke_def raise_io_def bind_io_def
        split: sum.splits prod.splits if_splits)
  from h(1) show ?thesis
    unfolding has_tombstone_def
    by (auto simp: h(2) put ret_def lift_io_def get_field_Inr checked_body_def json_body_def raise_for_status_def
        of_option_def bind_sum_Inr_iff split: sum.splits if_splits option.splits
        elim!: bind_InrE attemptE outsideE)
qed

theorem content_is_written_only_when_no_tombstone_witness:
  "\<exists>key re w' d. text_b64 (erasure_key (lit ''c2'')) = Inr key \<and>
    ce_verify test_cenv (JStr key) None () = (Inr re, w') \<and> re_body re = Some (JObj d) \<and>
    200 \<le> re_status re \<and> re_status re < 300 \<and>
    \<not> truthy (dget d ''verified'') \<and> dget d ''error_class'' = JStr (lit ''not_found'')"
proof -
  let ?p = "\<lparr>cw_call_id = lit ''c2'', cw_payload = []\<rparr>"
  obtain r s' where run: "write_content test_cenv (lit ''w'') ?p (test_cstate ()) = (r, s')" by fastforce
  have "contents (snd (write_content test_cenv (lit ''w'') ?p (test_cstate ()))) \<noteq> []"
    by (simp add: write_content_def page_require_write_key_def test_cenv_def bind_io_def lit_def
        has_tombstone_def test_keys [unfolded lit_def, simplified] lift_io_def attempt_def outside_def test_cstate_def ret_def checked_body_def
        raise_for_status_def json_body_def dget_def dict_get_def db_commit_def cpeek_def cpoke_def)
  then have "contents s' \<noteq> contents (test_cstate ())" using run by (simp add: test_cstate_def)
  from content_is_written_only_when_no_tombstone [OF run this] show ?thesis by (auto simp: test_cstate_def)
qed

end
