(* ===== verification/FaultPage.thy ===== *)
theory FaultPage
  imports ControlState
begin

text \<open>
  The faults of an audit page (\<open>control_plane/main.py\<close>): the bounded read of the fault keys
  between two transactions, page by page, the decision whether one of them is rendered, and the
  account kept per record. The read goes on until a short page; it is given fuel, and enough of
  it is proved to be one page per 2500 keys and one more.
\<close>

section \<open>One fault record\<close>

definition fault_writer_key :: "('w, 'sk, 'vk) cenv \<Rightarrow> ('w, 'sk, 'vk, 'vk option) cio" where
  "fault_writer_key env =
     bind_io (cpeek fault_key_loaded) (\<lambda>loaded.
       if loaded then cpeek fault_key_cache
       else bind_io (cpoke (fault_key_loaded_update (\<lambda>_. True))) (\<lambda>_.
              let key = (case ce_load_fault_key env of Inl exc \<Rightarrow> None | Inr vk \<Rightarrow> Some vk)
              in bind_io (cpoke (fault_key_cache_update (\<lambda>_. key))) (\<lambda>_. ret key)))"

text \<open>\<open>isinstance(v, int)\<close>, with the number a Python bool is.\<close>

fun int_instance :: "json \<Rightarrow> int option" where
  "int_instance (JInt i) = Some i"
| "int_instance (JBool b) = Some (if b then 1 else 0)"
| "int_instance _ = None"

definition rendering :: "dict \<Rightarrow> json \<Rightarrow> dict" where
  "rendering value ledger_key =
     [(lit ''fault_class'', dget value ''fault_class''), (lit ''error_class'', dget value ''error_class''),
      (lit ''committed_tx_id'', dget value ''committed_tx_id''),
      (lit ''committed_position'', dget value ''committed_position''),
      (lit ''timestamp'', dget value ''timestamp''), (lit ''ledger_key'', ledger_key)]"

text \<open>A readable fault that names its record and the transaction its key names, before its
  signature is looked at.\<close>

definition fault_candidate :: "json \<Rightarrow> exn + (pystr \<times> dict \<times> json) option" where
  "fault_candidate raw =
     (case bind_sum (item raw ''value'') decode_json of
        Inr (JObj value) \<Rightarrow>
          if dget value ''record_type'' \<noteq> JStr page_FAULT_RECORD_TYPE then Inr None
          else (case dget value ''committed_key'' of
             JStr committed_key \<Rightarrow>
               if committed_key = [] then Inr None
               else bind_sum (get_default raw ''key'' (JStr [])) (\<lambda>ledger_key.
                 bind_sum (fault_key_transaction ledger_key) (\<lambda>key_tx.
                   if key_tx = None \<or> key_tx \<noteq> int_instance (dget value ''committed_tx_id'') then Inr None
                   else Inr (Some (committed_key, value, ledger_key))))
           | _ \<Rightarrow> Inr None)
      | _ \<Rightarrow> Inr None)"

definition rendered_fault ::
  "('w, 'sk, 'vk) cenv \<Rightarrow> json \<Rightarrow> ('w, 'sk, 'vk, (pystr \<times> dict) option) cio" where
  "rendered_fault env raw =
     bind_io (lift_io (fault_candidate raw)) (\<lambda>candidate. case candidate of
       None \<Rightarrow> ret None
     | Some (committed_key, value, ledger_key) \<Rightarrow>
         bind_io (fault_writer_key env) (\<lambda>verifying_key. case verifying_key of
           None \<Rightarrow> ret None
         | Some vk \<Rightarrow>
             if \<not> verify_record (ce_crypto env) value vk then ret None
             else ret (Some (committed_key, rendering value ledger_key))))"

section \<open>The account of a record\<close>

text \<open>The dict of the source carries the rendering, \<open>count\<close> and \<open>_tx\<close>.\<close>

record fault_entry =
  fe_rendered :: dict
  fe_count :: int
  fe_tx :: int

type_synonym page_faults = "(pystr \<times> fault_entry) list"

fun merge_fault :: "page_faults \<Rightarrow> pystr \<Rightarrow> dict \<Rightarrow> int \<Rightarrow> int \<Rightarrow> page_faults" where
  "merge_fault [] committed_key rendered entry_tx n =
     [(committed_key, \<lparr>fe_rendered = rendered, fe_count = n, fe_tx = entry_tx\<rparr>)]"
| "merge_fault ((k, existing) # faults) committed_key rendered entry_tx n =
     (if k = committed_key
      then let counted = existing\<lparr>fe_count := fe_count existing + n\<rparr>
           in (k, if entry_tx > fe_tx counted
                  then counted\<lparr>fe_rendered := rendered, fe_tx := entry_tx\<rparr> else counted) # faults
      else (k, existing) # merge_fault faults committed_key rendered entry_tx n)"

text \<open>What a row shows: the entry without \<open>_tx\<close>.\<close>

definition fault_for_row :: "page_faults \<Rightarrow> json \<Rightarrow> json" where
  "fault_for_row faults encoded_key =
     (case b64decode_json encoded_key of
        None \<Rightarrow> JNull
      | Some k \<Rightarrow>
          (case map_of faults (utf8_decode_replace k) of
             None \<Rightarrow> JNull
           | Some fault \<Rightarrow> JObj (fe_rendered fault @ [(lit ''count'', JInt (fe_count fault))])))"

section \<open>The bounded read\<close>

definition MAX_SCAN_LIMIT :: nat where
  "MAX_SCAN_LIMIT = 2500"

text \<open>The check that the gateway applied the bounds, row by row.\<close>

fun check_window :: "bytes \<Rightarrow> bool \<Rightarrow> bytes \<Rightarrow> json list \<Rightarrow> exn + unit" where
  "check_window seek inclusive_seek to [] = Inr ()"
| "check_window seek inclusive_seek to (row # rows) =
     bind_sum (get_default row ''key'' (JStr [])) (\<lambda>encoded.
       bind_sum (of_option ValueError (b64decode_json encoded)) (\<lambda>key.
         if (if inclusive_seek then key \<ge> seek else key > seek) \<and> key < to
         then check_window seek inclusive_seek to rows
         else Inl (BoundedReadFault key)))"

definition last_key :: "json list \<Rightarrow> exn + bytes" where
  "last_key rows = bind_sum (item (last rows) ''key'') (\<lambda>k. of_option ValueError (b64decode_json k))"

text \<open>\<open>while True\<close>: None is running out of fuel.\<close>

fun scan_window ::
  "nat \<Rightarrow> ('w, 'sk, 'vk) cenv \<Rightarrow> json \<Rightarrow> bytes \<Rightarrow> bool \<Rightarrow> bytes \<Rightarrow> json list \<Rightarrow>
   ('w, 'sk, 'vk, json list option) cio" where
  "scan_window 0 env token seek inclusive_seek to entries = ret None"
| "scan_window (Suc fuel) env token seek inclusive_seek to entries =
     bind_io (outside (ce_scan env token
         \<lparr>sq_seek = seek, sq_inclusive = inclusive_seek, sq_end = to, sq_limit = MAX_SCAN_LIMIT\<rparr>)) (\<lambda>resp.
       bind_io (lift_io (checked_body resp)) (\<lambda>body.
         bind_io (lift_io (get_default body ''entries'' (JArr []))) (\<lambda>listed.
           bind_io (lift_io (py_iter listed)) (\<lambda>rows.
             bind_io (lift_io (check_window seek inclusive_seek to rows)) (\<lambda>_.
               if length rows < MAX_SCAN_LIMIT then ret (Some (entries @ rows))
               else bind_io (lift_io (last_key rows)) (\<lambda>next_seek.
                      scan_window fuel env token next_seek False to (entries @ rows)))))))"

definition faults_in_tx_window ::
  "nat \<Rightarrow> ('w, 'sk, 'vk) cenv \<Rightarrow> json \<Rightarrow> int \<Rightarrow> int \<Rightarrow> ('w, 'sk, 'vk, json list option) cio" where
  "faults_in_tx_window fuel env token min_tx max_tx =
     scan_window fuel env token (encode_ascii (page_fault_key_tx_bound min_tx)) True
       (encode_ascii (page_fault_key_tx_bound (max_tx + 1))) []"

section \<open>The faults of a page\<close>

fun account_faults ::
  "('w, 'sk, 'vk) cenv \<Rightarrow> json list \<Rightarrow> page_faults \<Rightarrow> ('w, 'sk, 'vk, page_faults) cio" where
  "account_faults env [] faults = ret faults"
| "account_faults env (raw # raws) faults =
     bind_io (rendered_fault env raw) (\<lambda>placed. case placed of
       None \<Rightarrow> account_faults env raws faults
     | Some (committed_key, rendered) \<Rightarrow>
         bind_io (lift_io (bind_sum (get_default raw ''tx'' (JInt 0)) (json_int env))) (\<lambda>tx.
           account_faults env raws (merge_fault faults committed_key rendered tx 1)))"

definition page_faults ::
  "nat \<Rightarrow> ('w, 'sk, 'vk) cenv \<Rightarrow> json \<Rightarrow> int list \<Rightarrow> ('w, 'sk, 'vk, page_faults option) cio" where
  "page_faults fuel env token page_txs =
     (if page_txs = [] then ret (Some [])
      else bind_io (faults_in_tx_window fuel env token (Min (set page_txs)) (Max (set page_txs))) (\<lambda>raws.
             case raws of
               None \<Rightarrow> ret None
             | Some rs \<Rightarrow> bind_io (account_faults env rs []) (\<lambda>faults. ret (Some faults))))"

section \<open>What one read of the gateway gives\<close>

text \<open>The current entry of every key of a history, by key.\<close>

definition written_keys :: "history \<Rightarrow> bytes list" where
  "written_keys h = concat (map (\<lambda>op. case op of KV k v \<Rightarrow> [k] | ZAdd _ _ _ \<Rightarrow> []) (concat h))"

definition all_rows :: "history \<Rightarrow> (bytes \<times> bytes \<times> int) list" where
  "all_rows h = map (\<lambda>k. (k, the (lookup h k))) (sorted_list_of_set (set (written_keys h)))"

definition row_json :: "bytes \<times> bytes \<times> int \<Rightarrow> json" where
  "row_json = (\<lambda>(k, v, t). JObj [(lit ''key'', JStr (b64encode k)), (lit ''value'', JStr (b64encode v)),
     (lit ''tx'', JStr (show_int t))])"

definition in_window :: "bytes \<Rightarrow> bool \<Rightarrow> bytes \<Rightarrow> bytes \<Rightarrow> bool" where
  "in_window seek inclusive_seek to key \<longleftrightarrow> (if inclusive_seek then key \<ge> seek else key > seek) \<and> key < to"

definition window_rows :: "history \<Rightarrow> bytes \<Rightarrow> bool \<Rightarrow> bytes \<Rightarrow> (bytes \<times> bytes \<times> int) list" where
  "window_rows h seek inclusive_seek to = filter (\<lambda>r. in_window seek inclusive_seek to (fst r)) (all_rows h)"

text \<open>A gateway that answers every page of a key range from a ledger nobody else is writing to.\<close>

definition scan_exact :: "('w, 'sk, 'vk) cenv \<Rightarrow> ('w \<Rightarrow> history) \<Rightarrow> bool" where
  "scan_exact env hist \<longleftrightarrow>
     (\<forall>token q w. \<exists>re w' d. ce_scan env token q w = (Inr re, w') \<and> hist w' = hist w \<and>
        200 \<le> re_status re \<and> re_status re < 300 \<and> re_body re = Some (JObj d) \<and>
        get_default (JObj d) ''entries'' (JArr []) = Inr (JArr (map row_json
          (take (sq_limit q) (window_rows (hist w) (sq_seek q) (sq_inclusive q) (sq_end q))))))"

lemma row_json_item [simp]:
  "get_default (row_json (k, v, t)) ''key'' d = Inr (JStr (b64encode k))"
  "item (row_json (k, v, t)) ''key'' = Inr (JStr (b64encode k))"
  "item (row_json (k, v, t)) ''value'' = Inr (JStr (b64encode v))"
  "get_default (row_json (k, v, t)) ''tx'' d = Inr (JStr (show_int t))"
  by (simp_all add: row_json_def get_default_def item_def dict_get_def lit_def)

lemma all_rows_sorted: "sorted_wrt (\<lambda>a b. fst a < fst b) (all_rows h)"
  using strict_sorted_list_of_set [of "set (written_keys h)"]
  by (simp add: all_rows_def sorted_wrt_map)

lemma window_rows_sorted: "sorted_wrt (\<lambda>a b. fst a < fst b) (window_rows h a i b)"
  unfolding window_rows_def by (rule sorted_wrt_filter [OF all_rows_sorted])

lemma written_keys_lookup: "k \<in> set (written_keys h) \<longleftrightarrow> lookup h k \<noteq> None"
proof -
  have "(\<exists>v. KV k v \<in> set (concat h)) \<longleftrightarrow> lookup h k \<noteq> None"
    by (induction h rule: rev_induct)
      (auto simp: lookup_snoc split: option.splits dest: tx_value_Some, metis tx_value_None_iff option.distinct(1))
  moreover have "k \<in> set (written_keys h) \<longleftrightarrow> (\<exists>v. KV k v \<in> set (concat h))"
    unfolding written_keys_def by (force split: ledger_op.splits)
  ultimately show ?thesis by simp
qed

lemma in_all_rows: "(k, v, t) \<in> set (all_rows h) \<longleftrightarrow> lookup h k = Some (v, t)"
  using written_keys_lookup [of k h] by (auto simp: all_rows_def image_iff)

section \<open>The pages are the range\<close>

lemma filter_after_nth:
  assumes "sorted_wrt (\<lambda>a b. fst a < fst b) rs" "0 < n" "n \<le> length rs"
  shows "filter (\<lambda>r. fst (rs ! (n - 1)) < fst r) rs = drop n (rs :: ('a :: linorder \<times> 'b) list)"
  using assms
proof (induction rs arbitrary: n)
  case (Cons r rs)
  show ?case
  proof (cases "n = 1")
    case True
    then have "filter (\<lambda>x. fst r < fst x) rs = rs" using Cons.prems(1) by (simp add: filter_id_conv)
    then show ?thesis using True by simp
  next
    case False
    then have "rs ! (n - Suc (Suc 0)) \<in> set rs" using Cons.prems by simp
    then have "\<not> fst (rs ! (n - Suc (Suc 0))) < fst r" using Cons.prems(1) by auto
    then show ?thesis
      using Cons.IH [of "n - 1"] Cons.prems False by (simp add: nth_Cons' drop_Cons')
  qed
qed simp

lemma check_window_rows:
  "\<forall>r \<in> set rs. in_window seek i to (fst r) \<Longrightarrow> check_window seek i to (map row_json rs) = Inr ()"
  by (induction rs) (auto simp: in_window_def)

lemma scan_window_all:
  assumes "scan_exact env hist" "length (window_rows (hist (cworld s)) seek i to) < fuel * MAX_SCAN_LIMIT"
  shows "\<exists>s'. scan_window fuel env token seek i to acc s =
      (Inr (Some (acc @ map row_json (window_rows (hist (cworld s)) seek i to))), s') \<and>
    hist (cworld s') = hist (cworld s) \<and> fault_key_loaded s' = fault_key_loaded s \<and> fault_key_cache s' = fault_key_cache s"
  using assms(2)
proof (induction fuel arbitrary: seek i acc s)
  case (Suc fuel)
  let ?W = "window_rows (hist (cworld s)) seek i to" and ?n = MAX_SCAN_LIMIT
  let ?q = "\<lparr>sq_seek = seek, sq_inclusive = i, sq_end = to, sq_limit = ?n\<rparr>"
  obtain re w d where re: "ce_scan env token ?q (cworld s) = (Inr re, w)" "hist w = hist (cworld s)"
    "200 \<le> re_status re" "re_status re < 300" "re_body re = Some (JObj d)"
    "get_default (JObj d) ''entries'' (JArr []) = Inr (JArr (map row_json (take ?n ?W)))"
    using assms(1) [unfolded scan_exact_def, rule_format, of token ?q "cworld s"] by auto
  have win: "check_window seek i to (map row_json (take ?n ?W)) = Inr ()"
    by (rule check_window_rows) (auto simp: window_rows_def dest: in_set_takeD)
  define s1 where "s1 = s\<lparr>cworld := w\<rparr>"
  have run: "scan_window (Suc fuel) env token seek i to acc s =
    (if length (take ?n ?W) < ?n then (Inr (Some (acc @ map row_json (take ?n ?W))), s1)
     else bind_io (lift_io (last_key (map row_json (take ?n ?W)))) (\<lambda>next_seek.
            scan_window fuel env token next_seek False to (acc @ map row_json (take ?n ?W))) s1)"
    using re win by (simp add: outside_def bind_io_def lift_io_def checked_body_def raise_for_status_def
        json_body_def ret_def s1_def)
  show ?case
  proof (cases "length ?W < ?n")
    case True
    then show ?thesis using run re(2) by (auto simp: s1_def)
  next
    case False
    have n: "0 < ?n" by (simp add: MAX_SCAN_LIMIT_def)
    let ?last = "?W ! (?n - 1)"
    have "last (take ?n ?W) = ?last" using False n by (subst last_conv_nth) auto
    moreover have "take ?n ?W \<noteq> []" using False n by auto
    ultimately have lk: "last_key (map row_json (take ?n ?W)) = Inr (fst ?last)"
      by (cases ?last) (simp add: last_key_def last_map)
    have "?last \<in> set ?W" using False n by simp
    then have l: "in_window seek i to (fst ?last)" by (simp add: window_rows_def)
    have "window_rows (hist (cworld s)) (fst ?last) False to = filter (\<lambda>r. fst ?last < fst r) ?W"
      using l unfolding window_rows_def filter_filter
      by (intro filter_cong refl) (auto simp: in_window_def split: if_splits)
    also have "\<dots> = drop ?n ?W" using filter_after_nth [OF window_rows_sorted n] False by simp
    finally have rest: "window_rows (hist (cworld s1)) (fst ?last) False to = drop ?n ?W"
      using re(2) by (simp add: s1_def)
    have "length (drop ?n ?W) < fuel * ?n" using Suc.prems False by simp
    then obtain s' where "scan_window fuel env token (fst ?last) False to (acc @ map row_json (take ?n ?W)) s1 =
        (Inr (Some ((acc @ map row_json (take ?n ?W)) @ map row_json (drop ?n ?W))), s')"
      "hist (cworld s') = hist (cworld s1)" "fault_key_loaded s' = fault_key_loaded s1" "fault_key_cache s' = fault_key_cache s1"
      using Suc.IH [of s1 "fst ?last" False "acc @ map row_json (take ?n ?W)"] rest by auto
    then show ?thesis
      using run False lk re(2) by (simp add: bind_io_def lift_io_def s1_def flip: map_append)
  qed
qed simp

section \<open>The account of a record, as a reference\<close>

text \<open>The entries of a page in the order they are accounted, as (record, rendering, transaction).\<close>

type_synonym hit = "pystr \<times> dict \<times> int"

definition account :: "hit list \<Rightarrow> page_faults" where
  "account hits = foldl (\<lambda>faults (k, r, t). merge_fault faults k r t 1) [] hits"

text \<open>The newest of a record's hits, the first of several at one transaction, and their number.\<close>

definition newest :: "hit list \<Rightarrow> fault_entry \<Rightarrow> bool" where
  "newest hits e \<longleftrightarrow> fe_count e = int (length hits) \<and> (\<exists>k. (k, fe_rendered e, fe_tx e) \<in> set hits) \<and>
     (\<forall>(k, r, t) \<in> set hits. t \<le> fe_tx e)"

lemma merge_fault_other: "k \<noteq> ck \<Longrightarrow> map_of (merge_fault faults ck r t n) k = map_of faults k"
  by (induction faults ck r t n rule: merge_fault.induct) (auto simp: Let_def)

lemma merge_fault_same:
  "map_of (merge_fault faults ck r t n) ck =
     Some (case map_of faults ck of
       None \<Rightarrow> \<lparr>fe_rendered = r, fe_count = n, fe_tx = t\<rparr>
     | Some e \<Rightarrow> if t > fe_tx e then \<lparr>fe_rendered = r, fe_count = fe_count e + n, fe_tx = t\<rparr>
                 else e\<lparr>fe_count := fe_count e + n\<rparr>)"
  by (induction faults ck r t n rule: merge_fault.induct) (auto simp: Let_def)

lemma account_snoc: "account (hits @ [(k, r, t)]) = merge_fault (account hits) k r t 1"
  by (simp add: account_def)

lemma newest_snoc:
  assumes "newest hits e"
  shows "newest (hits @ [(k, r, t)])
    (if t > fe_tx e then \<lparr>fe_rendered = r, fe_count = fe_count e + 1, fe_tx = t\<rparr> else e\<lparr>fe_count := fe_count e + 1\<rparr>)"
proof (cases "t > fe_tx e")
  case True
  then have "\<forall>(k, r, t') \<in> set hits. t' \<le> t" using assms by (fastforce simp: newest_def)
  then show ?thesis using True assms by (auto simp: newest_def)
next
  case False
  then show ?thesis using assms by (auto simp: newest_def)
qed

lemma account_newest:
  "case map_of (account hits) k of
     None \<Rightarrow> k \<notin> fst ` set hits
   | Some e \<Rightarrow> newest (filter (\<lambda>h. fst h = k) hits) e"
proof (induction hits rule: rev_induct)
  case Nil
  then show ?case by (simp add: account_def)
next
  case (snoc h hits)
  obtain ck r t where h: "h = (ck, r, t)" by (cases h)
  show ?case
  proof (cases "ck = k")
    case False
    then show ?thesis using snoc by (simp add: h account_snoc merge_fault_other split: option.splits)
  next
    case True
    show ?thesis
    proof (cases "map_of (account hits) k")
      case None
      then have "filter (\<lambda>h. fst h = k) hits = []" using snoc by (force simp: filter_empty_conv)
      then show ?thesis using None True by (simp add: h account_snoc merge_fault_same newest_def)
    next
      case (Some e)
      then have "newest (filter (\<lambda>h. fst h = k) hits) e" using snoc by simp
      from newest_snoc [OF this, of k r t] show ?thesis
        using Some True by (simp add: h account_snoc merge_fault_same)
    qed
  qed
qed

section \<open>What is shown of the entries read\<close>

definition fault_key_of :: "('w, 'sk, 'vk) cenv \<Rightarrow> ('w, 'sk, 'vk) cstate \<Rightarrow> 'vk option" where
  "fault_key_of env s =
     (if fault_key_loaded s then fault_key_cache s
      else case ce_load_fault_key env of Inl exc \<Rightarrow> None | Inr vk \<Rightarrow> Some vk)"

definition signed_fault :: "('w, 'sk, 'vk) cenv \<Rightarrow> 'vk option \<Rightarrow> json \<Rightarrow> (pystr \<times> dict) option" where
  "signed_fault env key raw =
     (case (fault_candidate raw, key) of
        (Inr (Some (committed_key, value, ledger_key)), Some vk) \<Rightarrow>
          if verify_record (ce_crypto env) value vk then Some (committed_key, rendering value ledger_key) else None
      | _ \<Rightarrow> None)"

lemma fault_writer_key_run:
  "\<exists>s'. fault_writer_key env s = (Inr (fault_key_of env s), s') \<and> fault_key_of env s' = fault_key_of env s \<and>
     cworld s' = cworld s"
proof (cases "fault_key_loaded s")
  case True
  then show ?thesis by (simp add: fault_writer_key_def fault_key_of_def bind_io_def cpeek_def)
next
  case False
  then show ?thesis by (simp add: fault_writer_key_def fault_key_of_def bind_io_def cpeek_def cpoke_def ret_def Let_def)
qed

lemma rendered_fault_run:
  assumes "fault_candidate raw = Inr c"
  shows "\<exists>s'. rendered_fault env raw s = (Inr (signed_fault env (fault_key_of env s) raw), s') \<and>
     fault_key_of env s' = fault_key_of env s \<and> cworld s' = cworld s"
proof (cases c)
  case None
  then show ?thesis using assms by (simp add: rendered_fault_def signed_fault_def bind_io_def lift_io_def ret_def)
next
  case (Some p)
  obtain ck v lk where p: "p = (ck, v, lk)" by (cases p)
  obtain s' where "fault_writer_key env s = (Inr (fault_key_of env s), s')" "fault_key_of env s' = fault_key_of env s"
    "cworld s' = cworld s" using fault_writer_key_run by blast
  then show ?thesis using assms Some p
    by (simp add: rendered_fault_def signed_fault_def bind_io_def lift_io_def ret_def split: option.split)
qed

definition hits_of :: "('w, 'sk, 'vk) cenv \<Rightarrow> 'vk option \<Rightarrow> (bytes \<times> bytes \<times> int) list \<Rightarrow> hit list" where
  "hits_of env key rows = concat (map (\<lambda>row. case signed_fault env key (row_json row) of
     None \<Rightarrow> [] | Some (ck, r) \<Rightarrow> [(ck, r, snd (snd row))]) rows)"

lemma py_int_strip_show: "0 \<le> t \<Longrightarrow> py_int (strip (show_int t)) = Some t"
  by (simp add: strip_id show_int_no_space)

lemma account_faults_run:
  assumes "\<forall>row \<in> set rows. (\<exists>c. fault_candidate (row_json row) = Inr c) \<and> 0 \<le> snd (snd row)"
  shows "\<exists>s'. account_faults env (map row_json rows) faults s =
    (Inr (foldl (\<lambda>faults (k, r, t). merge_fault faults k r t 1) faults (hits_of env (fault_key_of env s) rows)), s') \<and>
    cworld s' = cworld s"
  using assms
proof (induction rows arbitrary: faults s)
  case Nil
  then show ?case by (simp add: ret_def hits_of_def)
next
  case (Cons row rows)
  obtain k v t where row: "row = (k, v, t)" by (cases row)
  obtain c where "fault_candidate (row_json row) = Inr c" using Cons.prems by auto
  then obtain s1 where s1: "rendered_fault env (row_json row) s =
      (Inr (signed_fault env (fault_key_of env s) (row_json row)), s1)"
    "fault_key_of env s1 = fault_key_of env s" "cworld s1 = cworld s"
    using rendered_fault_run [of "row_json row" c env s] by blast
  have t: "json_int env (JStr (show_int t)) = Inr t"
    using Cons.prems row py_int_strip_show [of t] by (simp add: json_int_def)
  have "\<exists>s'. account_faults env (map row_json rows) fs s1 =
    (Inr (foldl (\<lambda>faults (k, r, t). merge_fault faults k r t 1) fs (hits_of env (fault_key_of env s) rows)), s') \<and>
    cworld s' = cworld s" for fs
    using Cons.IH [of fs s1] Cons.prems s1 by auto
  then show ?case
    using s1(1) t row
    by (cases "signed_fault env (fault_key_of env s) (row_json row)")
      (auto simp: bind_io_def lift_io_def hits_of_def)
qed

text \<open>The entries between the lowest and the highest transaction of a page.\<close>

definition page_window :: "history \<Rightarrow> int list \<Rightarrow> (bytes \<times> bytes \<times> int) list" where
  "page_window h txs = window_rows h (encode_ascii (page_fault_key_tx_bound (Min (set txs)))) True
     (encode_ascii (page_fault_key_tx_bound (Max (set txs) + 1)))"

lemma page_faults_run:
  assumes "scan_exact env hist" "page_txs \<noteq> []"
    and "length (page_window (hist (cworld s)) page_txs) < fuel * MAX_SCAN_LIMIT"
    and "\<forall>row \<in> set (page_window (hist (cworld s)) page_txs). \<exists>c. fault_candidate (row_json row) = Inr c"
  shows "\<exists>s'. page_faults fuel env token page_txs s =
      (Inr (Some (account (hits_of env (fault_key_of env s) (page_window (hist (cworld s)) page_txs)))), s') \<and>
    hist (cworld s') = hist (cworld s)"
proof -
  let ?W = "page_window (hist (cworld s)) page_txs"
  obtain s1 where s1: "faults_in_tx_window fuel env token (Min (set page_txs)) (Max (set page_txs)) s =
      (Inr (Some (map row_json ?W)), s1)"
    "hist (cworld s1) = hist (cworld s)" "fault_key_loaded s1 = fault_key_loaded s" "fault_key_cache s1 = fault_key_cache s"
    using scan_window_all [OF assms(1), of s _ True _ fuel token "[]"] assms(3)
    unfolding faults_in_tx_window_def page_window_def by auto
  have k: "fault_key_of env s1 = fault_key_of env s" using s1(3,4) by (simp add: fault_key_of_def)
  have "\<forall>row \<in> set ?W. 0 \<le> snd (snd row)"
    unfolding page_window_def window_rows_def by (force simp: in_all_rows dest: lookup_bounds)
  with assms(4) obtain s2 where s2: "account_faults env (map row_json ?W) [] s1 =
      (Inr (account (hits_of env (fault_key_of env s) ?W)), s2)" "cworld s2 = cworld s1"
    using account_faults_run [of ?W env "[]" s1] unfolding k account_def by auto
  then have "page_faults fuel env token page_txs s = (Inr (Some (account (hits_of env (fault_key_of env s) ?W))), s2)"
    using assms(2) s1(1) by (simp add: page_faults_def bind_io_def ret_def)
  then show ?thesis using s1(2) s2(2) by simp
qed

section \<open>A gateway in memory\<close>

definition mem_scan :: "json \<Rightarrow> scan_request \<Rightarrow> (history, reply) io" where
  "mem_scan token q h = (Inr \<lparr>re_status = 200, re_body = Some (JObj [(lit ''entries'', JArr (map row_json
     (take (sq_limit q) (window_rows h (sq_seek q) (sq_inclusive q) (sq_end q)))))])\<rparr>, h)"

definition test_gateway :: "(history, bytes, bytes) cenv" where
  "test_gateway = test_cenv\<lparr>ce_scan := mem_scan\<rparr>"

lemma test_gateway_exact: "scan_exact test_gateway id"
  by (simp add: scan_exact_def test_gateway_def mem_scan_def get_default_def dict_get_def)

section \<open>Properties\<close>

text \<open>
  C17: the faults of a page are exactly the signed faults of its transactions. On a ledger nobody
  else writes to meanwhile, with fuel for one more page than the range fills, the bounded read
  ends, no page of it is lost or read twice, and the account kept for a record is: none when no
  entry of the range is a readable fault about it with the fault writer's signature; otherwise
  the number of those entries and the rendering of the newest.
\<close>

theorem page_faults_are_the_signed_faults:
  assumes "scan_exact env hist" "page_txs \<noteq> []"
    and "length (page_window (hist (cworld s)) page_txs) < fuel * MAX_SCAN_LIMIT"
    and "\<forall>row \<in> set (page_window (hist (cworld s)) page_txs). \<exists>c. fault_candidate (row_json row) = Inr c"
  shows "\<exists>faults s'. page_faults fuel env token page_txs s = (Inr (Some faults), s') \<and>
    hist (cworld s') = hist (cworld s) \<and>
    (\<forall>k. let hits = filter (\<lambda>h. fst h = k) (hits_of env (fault_key_of env s) (page_window (hist (cworld s)) page_txs))
         in case map_of faults k of None \<Rightarrow> hits = [] | Some e \<Rightarrow> hits \<noteq> [] \<and> newest hits e)"
proof -
  let ?hits = "hits_of env (fault_key_of env s) (page_window (hist (cworld s)) page_txs)"
  have "let hits = filter (\<lambda>h. fst h = k) ?hits
      in case map_of (account ?hits) k of None \<Rightarrow> hits = [] | Some e \<Rightarrow> hits \<noteq> [] \<and> newest hits e" for k
    using account_newest [of k ?hits] by (force simp: filter_empty_conv newest_def split: option.splits)
  then show ?thesis using page_faults_run [OF assms] by blast
qed

theorem page_faults_are_the_signed_faults_witness:
  "\<exists>faults s'. page_faults 1 test_gateway JNull [2, 1] (test_cstate [[KV ''a'' ''b'']]) = (Inr (Some faults), s') \<and>
    map_of faults (lit ''k'') = None"
proof -
  let ?h = "[[KV ''a'' ''b'']]"
  have lk: "sorted_list_of_set (set (written_keys ?h)) = [''a'']" by (simp add: written_keys_def)
  have none: "page_window (cworld (test_cstate ?h)) [2, 1] = []"
    by (simp add: page_window_def window_rows_def all_rows_def lk in_window_def test_cstate_def page_fault_key_tx_bound_def
        page_FAULT_KEY_PREFIX_def lit_def encode_ascii_def less_char_def)
  from page_faults_are_the_signed_faults [OF test_gateway_exact, of "[2, 1]" "test_cstate ?h" 1 JNull]
  show ?thesis by (auto simp: none hits_of_def MAX_SCAN_LIMIT_def Let_def split: option.splits)
qed

end
