(* ===== verification/FaultsEndToEnd.thy ===== *)
theory FaultsEndToEnd
  imports WritePath FaultPage
begin

text \<open>
  From the verifier to the audit page: a failed proof is recorded by the one service
  (\<open>write_fault_record\<close> in \<open>verifier/main.py\<close>) and shown by the other
  (\<open>_page_faults\<close>, \<open>_fault_for_row\<close> in \<open>control_plane/main.py\<close>), through a key,
  a signature and a JSON text both have to read the same way.
\<close>

section \<open>Decoded text is Unicode\<close>

lemma utf8_next_scalar:
  assumes "utf8_next b bs = (Some c, n)" "b < 256"
  shows "is_scalar c"
proof -
  have cont: "x - 0x80 < 64" if "is_cont x" for x using that by (auto simp: is_cont_def)
  consider "b < 0x80" | "0xC2 \<le> b" "b < 0xE0" | "0xE0 \<le> b" "b < 0xF0" | "0xF0 \<le> b" "b < 0xF5"
    using assms by (auto simp: utf8_next_def split: if_splits) linarith
  then show ?thesis
  proof cases
    case 1
    then show ?thesis using assms(1) by (auto simp: utf8_next_def is_scalar_def is_surrogate_def)
  next
    case 2
    then obtain b1 r where "second_ok b b1" "c = (b - 0xC0) * 64 + (b1 - 0x80)"
      using assms(1) by (auto simp: utf8_next_def split: list.splits if_splits)
    then show ?thesis using 2 cont [of b1] by (auto simp: second_ok_def is_scalar_def is_surrogate_def split: if_splits)
  next
    case 3
    then obtain b1 b2 where "second_ok b b1" "is_cont b2" "c = (b - 0xE0) * 4096 + (b1 - 0x80) * 64 + (b2 - 0x80)"
      using assms(1) by (auto simp: utf8_next_def split: list.splits if_splits)
    then show ?thesis using 3 cont [of b2] cont [of b1]
      by (auto simp: second_ok_def is_scalar_def is_surrogate_def is_cont_def split: if_splits)
  next
    case 4
    then obtain b1 b2 b3 where "second_ok b b1" "is_cont b2" "is_cont b3"
      "c = (b - 0xF0) * 262144 + (b1 - 0x80) * 4096 + (b2 - 0x80) * 64 + (b3 - 0x80)"
      using assms(1) by (auto simp: utf8_next_def split: list.splits if_splits)
    moreover define x y z u where xyz: "x = b - 0xF0" "y = b1 - 0x80" "z = b2 - 0x80" "u = b3 - 0x80"
    moreover have "16 \<le> b1 - 0x80" if "0x90 \<le> b1" using that by linarith
    ultimately have "c = x * 262144 + y * 4096 + z * 64 + u" "y < 64" "z < 64" "u < 64"
      "x < 4 \<or> x = 4 \<and> y < 16" "0 < x \<or> 16 \<le> y"
      using 4 cont [of b1] cont [of b2] cont [of b3] by (auto simp: second_ok_def is_cont_def split: if_splits)
    then have "c < 0x110000" "0x10000 \<le> c" by (elim disjE; simp)+
    then show ?thesis by (simp add: is_scalar_def is_surrogate_def)
  qed
qed

lemma utf8_points_scalar:
  "\<forall>b \<in> set bs. b < 256 \<Longrightarrow> Some c \<in> set (utf8_points bs) \<Longrightarrow> is_scalar c"
proof (induction bs rule: utf8_points.induct)
  case (2 b bs)
  obtain r n where n: "utf8_next b bs = (r, n)" by fastforce
  show ?case
  proof (cases "r = Some c")
    case True
    then show ?thesis using utf8_next_scalar [of b bs c n] n 2 by simp
  next
    case False
    then show ?thesis using 2 n by (auto dest: in_set_dropD)
  qed
qed simp

lemma decoded_scalar: "list_all is_scalar (utf8_decode_replace b)"
proof -
  have "is_scalar c" if "Some c \<in> set (utf8_points (map of_char b))" for c
    using utf8_points_scalar [OF _ that] by auto
  moreover have "is_scalar 0xFFFD" by (simp add: is_scalar_def is_surrogate_def)
  ultimately show ?thesis by (auto simp: utf8_decode_replace_def list_all_iff split: option.split)
qed

lemma lit_scalar: "list_all is_scalar (lit s)"
proof -
  have "is_scalar (of_char c)" for c :: char
    unfolding is_scalar_def is_surrogate_def using nat_of_char_less_256 [of c] by linarith
  then show ?thesis by (simp add: lit_def list_all_iff)
qed

lemma fault_body_wf:
  assumes "crypto_ok C" "list_all is_scalar now" "list_all is_scalar error_class" "list_all is_scalar detail"
    "case view of None \<Rightarrow> True | Some v \<Rightarrow> list_all is_scalar v"
  shows "wf_json (JObj (fault_body C prepr rk rv tx seq view error_class detail now))"
proof -
  obtain b where "utf8_encode (fault_identity C prepr rv rk) = Some b"
    using fault_identity_fits [OF assms(1)] by blast
  then have i: "list_all is_scalar (fault_identity C prepr rv rk)"
    by (auto simp: utf8_encode_def split: if_splits)
  have "distinct (map fst (fault_body C prepr rk rv tx seq view error_class detail now))"
    by (simp add: fault_body_def lit_def)
  moreover have "\<forall>(k, v) \<in> set (fault_body C prepr rk rv tx seq view error_class detail now). list_all is_scalar k \<and> wf_json v"
    using assms i lit_scalar decoded_scalar
    by (auto simp: fault_body_def json_opt_def FAULT_RECORD_TYPE_def remediation_def split: option.splits)
  ultimately show ?thesis by (auto simp: list_all_iff)
qed

section \<open>The fault the verifier wrote is one the page accepts\<close>

lemma fault_field:
  "dget (sign_record C (fault_body C prepr rk rv tx seq view error_class detail now) sk vk) ''record_type'' = JStr page_FAULT_RECORD_TYPE"
  "dget (sign_record C (fault_body C prepr rk rv tx seq view error_class detail now) sk vk) ''committed_key'' = JStr (utf8_decode_replace rk)"
  "dget (sign_record C (fault_body C prepr rk rv tx seq view error_class detail now) sk vk) ''committed_tx_id'' = JInt tx"
  by (simp_all add: dget_def sign_record_fields FORMAT_FIELD_def FINGERPRINT_FIELD_def SIGNATURE_FIELD_def lit_def)
    (simp_all add: fault_body_def dict_get_def FAULT_RECORD_TYPE_def page_FAULT_RECORD_TYPE_def lit_def)

lemma replace_nonempty: "rk \<noteq> [] \<Longrightarrow> utf8_decode_replace rk \<noteq> []"
  by (cases rk) (simp_all add: utf8_decode_replace_def split: prod.split)

lemma written_fault_candidate:
  assumes "crypto_ok C" "0 \<le> tx" "tx < 10 ^ 20" "nonce_ok nonce" "rk \<noteq> []"
    and "list_all is_scalar now" "list_all is_scalar error_class" "list_all is_scalar detail"
    and "case view of None \<Rightarrow> True | Some v \<Rightarrow> list_all is_scalar v"
    and "fault_key C prepr rv rk tx nonce = Inr key" "utf8_encode key = Some b"
    and v: "val = sign_record C (fault_body C prepr rk rv tx seq view error_class detail now) sk (verifying_key_of C sk)"
  shows "fault_candidate (row_json (b, encode_ascii (dumps_compact (JObj val)), n)) =
      Inr (Some (utf8_decode_replace rk, val, JStr (b64encode b)))"
proof -
  have "loads_bytes (encode_ascii (dumps_compact (JObj val))) = Some (JObj val)"
    unfolding v by (intro loads_bytes_compact sign_record_wf fault_body_wf assms)
  moreover have "fault_key_transaction (JStr (b64encode b)) = Inr (Some tx)"
    using fault_key_always_reads [OF assms(1-4) assms(10,11)] .
  ultimately show ?thesis
    using replace_nonempty [OF assms(5)] unfolding v
    by (simp add: fault_candidate_def decode_json_def fault_field)
qed

lemma written_fault_verifies:
  assumes "crypto_ok C"
  shows "verify_record C (sign_record C (fault_body C prepr rk rv tx seq view error_class detail now) sk
    (verifying_key_of C sk)) (verifying_key_of C sk)"
  by (rule sign_verifies [OF assms]) (simp add: fault_body_def lit_def)

section \<open>Properties\<close>

text \<open>
  C15: a fault the verifier recorded is shown on the audit row of its record. When the fault is in
  the ledger the page reads, its key was written once, the page's fault key is the public half of
  the verifier's signing key and the record's transaction is on the page, then the page's row for
  the record carries a fault with a count of at least one, whatever the record's key and call id
  are made of.
\<close>

theorem recorded_fault_is_shown:
  assumes "scan_exact env hist" "crypto_ok (ve_crypto venv)" "ce_crypto env = ve_crypto venv"
    and "ve_load_key venv = Inr sk" "fault_key_of env s = Some (verifying_key_of (ve_crypto venv) sk)"
    and "fault_on_ledger venv (hist (cworld s)) rk rv seq view error_class detail key"
    and "rk \<noteq> []" "list_all is_scalar error_class" "list_all is_scalar detail"
    and "case view of None \<Rightarrow> True | Some v \<Rightarrow> list_all is_scalar v"
    and "\<forall>b v n v' n'. utf8_encode key = Some b \<longrightarrow> wrote_at (hist (cworld s)) b v n \<longrightarrow>
      wrote_at (hist (cworld s)) b v' n' \<longrightarrow> n = n'"
    and "\<forall>tx. wrote_at (hist (cworld s)) rk rv tx \<longrightarrow> tx \<in> set page_txs"
    and "\<forall>tx \<in> set page_txs. 0 \<le> tx \<and> tx + 1 < 10 ^ 20"
    and "length (page_window (hist (cworld s)) page_txs) < fuel * MAX_SCAN_LIMIT"
    and "\<forall>row \<in> set (page_window (hist (cworld s)) page_txs). \<exists>c. fault_candidate (row_json row) = Inr c"
  shows "\<exists>faults s' r n. page_faults fuel env token page_txs s = (Inr (Some faults), s') \<and>
    fault_for_row faults (JStr (b64encode rk)) = JObj (r @ [(lit ''count'', JInt n)]) \<and> 1 \<le> n"
proof -
  let ?h = "hist (cworld s)" and ?C = "ve_crypto venv" and ?ck = "utf8_decode_replace rk"
  obtain tx nonce now b n where f: "wrote_at ?h rk rv tx"
    "fault_key ?C (ve_repr venv) rv rk tx nonce = Inr key" "nonce_ok nonce" "list_all is_scalar now"
    "utf8_encode key = Some b" and
    w: "wrote_at ?h b (encode_ascii (dumps_compact (JObj (sign_record ?C
      (fault_body ?C (ve_repr venv) rk rv tx seq view error_class detail now) sk (verifying_key_of ?C sk))))) n"
    using assms(4,6) unfolding fault_on_ledger_def by auto
  define val where "val = sign_record ?C (fault_body ?C (ve_repr venv) rk rv tx seq view error_class detail now)
    sk (verifying_key_of ?C sk)"
  define row where "row = (b, encode_ascii (dumps_compact (JObj val)), n)"
  have tx: "tx \<in> set page_txs" "0 \<le> tx" "tx + 1 < 10 ^ 20" using assms(12,13) f(1) by auto
  have tx20: "tx < 10 ^ 20" using tx(3) by linarith
  have ne: "page_txs \<noteq> []" using tx(1) by auto
  then have mm: "Min (set page_txs) \<in> set page_txs" "Max (set page_txs) \<in> set page_txs" by simp_all
  have "lookup ?h b = Some (encode_ascii (dumps_compact (JObj val)), n)"
    using wrote_lookup [OF w] lookup_wrote [of ?h b] assms(11) f(5) w wrote_at_unique [OF w] unfolding val_def
    by (metis (no_types, lifting))
  then have "row \<in> set (all_rows ?h)" by (simp add: row_def in_all_rows)
  moreover have "encode_ascii (page_fault_key_tx_bound (Min (set page_txs))) \<le> b \<and>
      b < encode_ascii (page_fault_key_tx_bound (Max (set page_txs) + 1))"
  proof -
    have "Min (set page_txs) \<le> tx" "tx \<le> Max (set page_txs)" using tx(1) by simp_all
    moreover from this have "Min (set page_txs) \<le> Max (set page_txs)" by linarith
    ultimately show ?thesis
      using fault_key_window [OF assms(2) f(3) tx(2) _ _ _ _ f(2) f(5), of "Min (set page_txs)" "Max (set page_txs)"]
        assms(13) mm tx20 by simp
  qed
  ultimately have inw: "row \<in> set (page_window ?h page_txs)"
    by (simp add: page_window_def window_rows_def in_window_def row_def)
  note cand = written_fault_candidate [OF assms(2) tx(2) tx20 f(3) assms(7) f(4) assms(8-10) f(2,5) val_def, of n]
  have "signed_fault env (fault_key_of env s) (row_json row) = Some (?ck, rendering val (JStr (b64encode b)))"
    using cand written_fault_verifies [OF assms(2)] assms(3,5) unfolding row_def
    by (simp add: signed_fault_def val_def)
  then have "(?ck, rendering val (JStr (b64encode b)), n) \<in> set (hits_of env (fault_key_of env s) (page_window ?h page_txs))"
    using inw by (force simp: hits_of_def row_def)
  then have hit: "filter (\<lambda>h. fst h = ?ck) (hits_of env (fault_key_of env s) (page_window ?h page_txs)) \<noteq> []"
    by (force simp: filter_empty_conv)
  obtain faults s' where p: "page_faults fuel env token page_txs s = (Inr (Some faults), s')" and
    acc: "faults = account (hits_of env (fault_key_of env s) (page_window ?h page_txs))"
    using page_faults_run [OF assms(1) ne assms(14,15)] by blast
  obtain e where e: "map_of faults ?ck = Some e"
    "newest (filter (\<lambda>h. fst h = ?ck) (hits_of env (fault_key_of env s) (page_window ?h page_txs))) e"
    using account_newest [of ?ck "hits_of env (fault_key_of env s) (page_window ?h page_txs)"] hit acc
    by (cases "map_of faults ?ck") (force simp: filter_empty_conv)+
  have "1 \<le> fe_count e" using e(2) hit by (simp add: newest_def Suc_le_eq)
  then show ?thesis using p e(1) by (auto simp: fault_for_row_def)
qed

theorem recorded_fault_is_shown_witness:
  "\<exists>h faults s' r n. lookup h ''k1'' = Some (''v1'', 1) \<and>
    page_faults 1 test_gateway JNull [1] (test_cstate h) = (Inr (Some faults), s') \<and>
    fault_for_row faults (JStr (b64encode ''k1'')) = JObj (r @ [(lit ''count'', JInt n)]) \<and> 1 \<le> n"
proof -
  have n: "nonce_ok (replicate 16 97)" by (simp add: nonce_ok_def)
  have t: "(0 :: int) \<le> 1" "(1 :: int) < 10 ^ 20" by simp_all
  obtain r where "utf8_encode (fault_key_tx_bound 1 @ lit '':'' @ fault_identity test_crypto dumps ''v1'' ''k1''
       @ lit '':'' @ replicate 16 97) = Some (encode_ascii (fault_key_tx_bound 1) @ r)"
    using fault_key_bytes [OF test_crypto_ok t n] by blast
  then obtain key b where key: "fault_key test_crypto dumps ''v1'' ''k1'' 1 (replicate 16 97) = Inr key" "utf8_encode key = Some b"
    and b: "b = encode_ascii (fault_key_tx_bound 1) @ r"
    using fault_key_ok [OF test_crypto_ok t n, of dumps "''v1''" "''k1''"] by simp
  have bne: "b \<noteq> ''k1''"
    using b by (simp add: fault_key_tx_bound_def FAULT_KEY_PREFIX_def lit_def encode_ascii_def)
  define val where "val = sign_record test_crypto (fault_body test_crypto dumps ''k1'' ''v1'' 1 None None
    (lit ''consistency_failure'') (lit ''d'') (lit ''now'')) ''sk'' (verifying_key_of test_crypto ''sk'')"
  define v where "v = encode_ascii (dumps_compact (JObj val))"
  define h where "h = [[KV ''k1'' ''v1'']] @ [[KV b v]]"
  have w: "wrote_at h k x i \<longleftrightarrow> k = ''k1'' \<and> x = ''v1'' \<and> i = 1 \<or> k = b \<and> x = v \<and> i = 2" for k x i
    unfolding h_def wrote_at_snoc using wrote_at_snoc [of "[]"] by (auto simp: next_tx_def)
  have fault: "fault_on_ledger test_env h ''k1'' ''v1'' None None (lit ''consistency_failure'') (lit ''d'') key"
    unfolding fault_on_ledger_def
    by (rule exI [of _ 1], rule exI [of _ "replicate 16 97"], rule exI [of _ "lit ''now''"], rule exI [of _ "''sk''"],
        rule exI [of _ b], rule exI [of _ 2]) (simp add: w key n lit_scalar test_env_def v_def val_def)
  have rows: "row \<in> set (all_rows h) \<Longrightarrow> row = (''k1'', ''v1'', 1) \<or> row = (b, v, 2)" for row
    using in_all_rows [of "fst row" "fst (snd row)" "snd (snd row)" h] lookup_wrote [of h "fst row"] w
    by (cases row) auto
  have cand: "\<exists>c. fault_candidate (row_json row) = Inr c" if "row \<in> set (page_window h [1])" for row
  proof -
    have "loads_bytes ''v1'' = None" by code_simp
    then have "fault_candidate (row_json (''k1'', ''v1'', 1)) = Inr None"
      by (simp add: fault_candidate_def decode_json_def)
    then show ?thesis
      using that rows [of row] written_fault_candidate [OF test_crypto_ok t n _ _ _ _ _ key val_def, of 2] lit_scalar
      by (auto simp: page_window_def window_rows_def v_def)
  qed
  have "set (written_keys h) = {''k1'', b}" by (simp add: h_def written_keys_def)
  then have "length (all_rows h) = 2" using bne by (simp add: all_rows_def)
  then have "length (page_window h [1]) \<le> 2"
    using length_filter_le [of "\<lambda>r. in_window (encode_ascii (page_fault_key_tx_bound (Min (set [1])))) True
        (encode_ascii (page_fault_key_tx_bound (Max (set [1]) + 1))) (fst r)" "all_rows h"]
    unfolding page_window_def window_rows_def by linarith
  then have len: "length (page_window h [1]) < 1 * MAX_SCAN_LIMIT" by (simp add: MAX_SCAN_LIMIT_def)
  have st: "cworld (test_cstate h) = h" by (simp add: test_cstate_def)
  have ec: "ve_crypto test_env = test_crypto" "ve_load_key test_env = Inr ''sk''" by (simp_all add: test_env_def)
  have "\<exists>faults s' r n. page_faults 1 test_gateway JNull [1] (test_cstate h) = (Inr (Some faults), s') \<and>
    fault_for_row faults (JStr (b64encode ''k1'')) = JObj (r @ [(lit ''count'', JInt n)]) \<and> 1 \<le> n"
  proof (rule recorded_fault_is_shown [OF test_gateway_exact, where venv = test_env and sk = "''sk''" and rv = "''v1''"
        and seq = None and view = None and error_class = "lit ''consistency_failure''" and detail = "lit ''d''" and key = key])
    show "fault_key_of test_gateway (test_cstate h) = Some (verifying_key_of (ve_crypto test_env) ''sk'')"
      by (simp add: ec fault_key_of_def test_cstate_def test_gateway_def test_cenv_def) (simp add: test_crypto_def)
  qed (use fault w key(2) cand len bne in \<open>simp_all add: ec st test_crypto_ok test_gateway_def test_cenv_def lit_scalar\<close>)
  moreover have "lookup h ''k1'' = Some (''v1'', 1)" using bne by (simp add: h_def lookup_def)
  ultimately show ?thesis by blast
qed

end
