(* ===== verification/PyKey.thy ===== *)
theory PyKey
  imports PyJson
begin

text \<open>
  Python values as dict keys and under \<open>==\<close>, and the bytes \<open>json.loads\<close>
  takes: a number equals a number whatever its type, a dict compares without its order, a list
  or a dict is not hashable, and a byte string is decoded by the encoding its first bytes show.
  The number a float literal stands for is an argument; a literal without one (an infinity, a
  NaN) equals only itself as a key.
\<close>

section \<open>Dict keys\<close>

datatype call_key = KNone | KNum rat | KLit pystr | KStr pystr

instantiation call_key :: linorder
begin

definition less_eq_call_key :: "call_key \<Rightarrow> call_key \<Rightarrow> bool" where
  "less_eq_call_key a b =
     (case (a, b) of
        (KNone, _) \<Rightarrow> True
      | (_, KNone) \<Rightarrow> False
      | (KNum x, KNum y) \<Rightarrow> x \<le> y
      | (KNum _, _) \<Rightarrow> True
      | (_, KNum _) \<Rightarrow> False
      | (KLit s, KLit t) \<Rightarrow> s \<le> t
      | (KLit _, _) \<Rightarrow> True
      | (_, KLit _) \<Rightarrow> False
      | (KStr s, KStr t) \<Rightarrow> s \<le> t)"

definition less_call_key :: "call_key \<Rightarrow> call_key \<Rightarrow> bool" where
  "less_call_key a b = (a \<le> b \<and> a \<noteq> b)"

instance
  by standard (auto simp: less_eq_call_key_def less_call_key_def split: call_key.splits)

end

fun assoc_set :: "('k \<times> 'v) list \<Rightarrow> 'k \<Rightarrow> 'v \<Rightarrow> ('k \<times> 'v) list" where
  "assoc_set [] k v = [(k, v)]"
| "assoc_set ((k', v') # d) k v = (if k' = k then (k, v) # d else (k', v') # assoc_set d k v)"

lemma map_of_assoc_set [simp]: "map_of (assoc_set d k v) = (map_of d)(k \<mapsto> v)"
  by (induction d k v rule: assoc_set.induct) (auto simp: fun_eq_iff)

definition json_num :: "(pystr \<Rightarrow> rat option) \<Rightarrow> json \<Rightarrow> rat option" where
  "json_num fl v =
     (case v of
        JBool b \<Rightarrow> Some (if b then 1 else 0)
      | JInt i \<Rightarrow> Some (of_int i)
      | JFloat f \<Rightarrow> fl f
      | _ \<Rightarrow> None)"

definition key_of :: "(pystr \<Rightarrow> rat option) \<Rightarrow> json \<Rightarrow> exn + call_key" where
  "key_of fl v =
     (case v of
        JNull \<Rightarrow> Inr KNone
      | JStr s \<Rightarrow> Inr (KStr s)
      | JFloat f \<Rightarrow> Inr (case fl f of None \<Rightarrow> KLit f | Some q \<Rightarrow> KNum q)
      | _ \<Rightarrow> of_option TypeError (map_option KNum (json_num fl v)))"

text \<open>\<open>a == b\<close>\<close>

primrec json_eq :: "(pystr \<Rightarrow> rat option) \<Rightarrow> json \<Rightarrow> json \<Rightarrow> bool" where
  "json_eq fl JNull = (\<lambda>b. b = JNull)"
| "json_eq fl (JBool x) = (\<lambda>b. json_num fl b = Some (if x then 1 else 0))"
| "json_eq fl (JInt i) = (\<lambda>b. json_num fl b = Some (of_int i))"
| "json_eq fl (JFloat f) = (\<lambda>b. fl f \<noteq> None \<and> json_num fl b = fl f)"
| "json_eq fl (JStr s) = (\<lambda>b. b = JStr s)"
| "json_eq fl (JArr xs) = (\<lambda>b. case b of
       JArr ys \<Rightarrow> list_all2 (\<lambda>p y. p y) (map (json_eq fl) xs) ys
     | _ \<Rightarrow> False)"
| "json_eq fl (JObj kvs) = (\<lambda>b. case b of
       JObj d \<Rightarrow> length kvs = length d \<and>
         list_all (\<lambda>(k, p). case map_of d k of None \<Rightarrow> False | Some y \<Rightarrow> p y)
           (map (map_prod id (json_eq fl)) kvs)
     | _ \<Rightarrow> False)"

section \<open>\<open>json.loads\<close> of bytes\<close>

text \<open>UTF-8, UTF-16 and UTF-32 with the \<open>surrogatepass\<close> handler; None is a decoding error.\<close>

definition is_low :: "nat \<Rightarrow> bool" where
  "is_low c \<longleftrightarrow> 56320 \<le> c \<and> c \<le> 57343"

definition is_high :: "nat \<Rightarrow> bool" where
  "is_high c \<longleftrightarrow> 55296 \<le> c \<and> c \<le> 56319"

function utf8_pass :: "nat list \<Rightarrow> pystr option" where
  "utf8_pass [] = Some []"
| "utf8_pass (b # bs) =
     (case utf8_next b bs of
        (Some c, n) \<Rightarrow> map_option (Cons c) (utf8_pass (drop n bs))
      | (None, _) \<Rightarrow>
          (case bs of
             x # y # rest \<Rightarrow>
               if b = 237 \<and> 160 \<le> x \<and> x \<le> 191 \<and> is_cont y
               then map_option (Cons (53248 + (x - 128) * 64 + (y - 128))) (utf8_pass rest)
               else None
           | _ \<Rightarrow> None))"
  by pat_completeness auto
termination by (relation "measure length") auto

fun utf16_units :: "bool \<Rightarrow> nat list \<Rightarrow> nat list option" where
  "utf16_units be [] = Some []"
| "utf16_units be [_] = None"
| "utf16_units be (a # b # bs) =
     map_option (Cons (if be then a * 256 + b else b * 256 + a)) (utf16_units be bs)"

fun join_units :: "nat list \<Rightarrow> pystr" where
  "join_units (a # b # us) =
     (if is_high a \<and> is_low b then (65536 + (a - 55296) * 1024 + (b - 56320)) # join_units us
      else a # join_units (b # us))"
| "join_units us = us"

fun utf32_points :: "bool \<Rightarrow> nat list \<Rightarrow> pystr option" where
  "utf32_points be [] = Some []"
| "utf32_points be (a # b # c # d # bs) =
     (let n = (if be then ((a * 256 + b) * 256 + c) * 256 + d else ((d * 256 + c) * 256 + b) * 256 + a)
      in if n < 1114112 then map_option (Cons n) (utf32_points be bs) else None)"
| "utf32_points be _ = None"

text \<open>\<open>json.detect_encoding\<close> and the decoding it selects\<close>

definition decode_detected :: "nat list \<Rightarrow> pystr option" where
  "decode_detected b =
     (let utf16 = (\<lambda>be bs. map_option join_units (utf16_units be bs));
          byte = (\<lambda>i. b ! i)
      in if starts_with b [0, 0, 254, 255] then utf32_points True (drop 4 b)
         else if starts_with b [255, 254, 0, 0] then utf32_points False (drop 4 b)
         else if starts_with b [254, 255] then utf16 True (drop 2 b)
         else if starts_with b [255, 254] then utf16 False (drop 2 b)
         else if starts_with b [239, 187, 191] then utf8_pass (drop 3 b)
         else if 4 \<le> length b \<and> byte 0 = 0 then (if byte 1 \<noteq> 0 then utf16 True b else utf32_points True b)
         else if 4 \<le> length b \<and> byte 1 = 0
           then (if byte 2 \<noteq> 0 \<or> byte 3 \<noteq> 0 then utf16 False b else utf32_points False b)
         else if length b = 2 \<and> byte 0 = 0 then utf16 True b
         else if length b = 2 \<and> byte 1 = 0 then utf16 False b
         else utf8_pass b)"

definition loads_detect :: "bytes \<Rightarrow> json option" where
  "loads_detect b = Option.bind (decode_detected (map of_char b)) loads"

end
