(* ===== verification/AuditPage.thy ===== *)
theory AuditPage
  imports FaultPage Reserve PyKey
begin

text \<open>
  \<open>GET /audit\<close> (\<open>control_plane/main.py\<close>): the scan of the two ordered views with the
  checks that refuse the page, the joins over it (intents, tombstones, faults), and the rows.
  Python's dicts and sets of call ids are association lists keyed by \<open>call_key\<close>, which is
  how Python compares them: a number equals a number whatever its type, and a list or a dict is
  not hashable.
\<close>

section \<open>Call ids as dict keys\<close>

definition hash_key :: "('w, 'sk, 'vk) cenv \<Rightarrow> json \<Rightarrow> exn + call_key" where
  "hash_key env v =
     (case v of
        JNull \<Rightarrow> Inr KNone
      | JBool b \<Rightarrow> Inr (KNum (if b then 1 else 0))
      | JInt i \<Rightarrow> Inr (KNum (of_int i))
      | JFloat f \<Rightarrow> map_sum id KNum (ce_float env (JFloat f))
      | JStr s \<Rightarrow> Inr (KStr s)
      | _ \<Rightarrow> Inl TypeError)"

text \<open>\<open>sorted(call_ids)\<close>: text and numbers do not compare.\<close>

definition is_text :: "call_key \<Rightarrow> bool" where
  "is_text k = (case k of KStr _ \<Rightarrow> True | _ \<Rightarrow> False)"

definition sorted_ids :: "(call_key \<times> json) list \<Rightarrow> exn + (call_key \<times> json) list" where
  "sorted_ids ids =
     (if list_all (\<lambda>(k, v). is_text k) ids \<or> list_all (\<lambda>(k, v). \<not> is_text k) ids
      then Inr (sort_key fst ids) else Inl TypeError)"

section \<open>The reserve\<close>

definition page_RESERVE_KEY :: bytes where
  "page_RESERVE_KEY = ''ail_seq:reserve''"

definition read_page_reserve :: "('w, 'sk, 'vk) cenv \<Rightarrow> json \<Rightarrow> ('w, 'sk, 'vk, int option) cio" where
  "read_page_reserve env token =
     bind_io (cpeek bound_reserve_cache) (\<lambda>cached.
       if cached \<noteq> None then ret cached
       else bind_io (outside (ce_getall env token [b64encode page_RESERVE_KEY])) (\<lambda>resp.
              bind_io (lift_io (checked_body resp)) (\<lambda>body.
                bind_io (lift_io (get_default body ''entries'' (JArr []))) (\<lambda>entries.
                  if \<not> truthy entries then ret None
                  else bind_io (lift_io (bind_sum (first_entry entries) (\<lambda>e.
                           bind_sum (item e ''value'') (\<lambda>v.
                             bind_sum (of_option ValueError (b64decode_json v)) (\<lambda>b.
                               bind_sum (of_option UnicodeError (utf8_decode b)) page_validate_reserve))))) (\<lambda>bound.
                         bind_io (cpoke (bound_reserve_cache_update (\<lambda>_. Some bound))) (\<lambda>_.
                           ret (Some bound)))))))"

definition assert_reserve_agrees :: "('w, 'sk, 'vk) cenv \<Rightarrow> json \<Rightarrow> ('w, 'sk, 'vk, unit) cio" where
  "assert_reserve_agrees env token =
     bind_io (read_page_reserve env token) (\<lambda>bound. case bound of
       None \<Rightarrow> ret ()
     | Some b \<Rightarrow>
         if b \<noteq> ce_reserved env
         then bind_io (cpoke (bound_reserve_cache_update (\<lambda>_. None))) (\<lambda>_.
                raise_io (ReserveMismatch (ce_reserved env) b))
         else ret ())"

section \<open>The order check\<close>

definition FIRST_ALLOCATED_POSITION :: "('w, 'sk, 'vk) cenv \<Rightarrow> rat" where
  "FIRST_ALLOCATED_POSITION env = of_int (ce_reserved env + 1)"

fun adjacent_order :: "pystr \<Rightarrow> (rat \<times> int) list \<Rightarrow> exn + unit" where
  "adjacent_order view ((score_a, tx_a) # (score_b, tx_b) # rows) =
     (if \<not> (score_a > score_b \<and> tx_a > tx_b)
      then Inl (OrderingFault view (score_a, tx_a) (score_b, tx_b))
      else adjacent_order view ((score_b, tx_b) # rows))"
| "adjacent_order view _ = Inr ()"

definition assert_score_order_matches_commit_order ::
  "('w, 'sk, 'vk) cenv \<Rightarrow> (rat \<times> int) list \<Rightarrow> pystr \<Rightarrow> exn + unit" where
  "assert_score_order_matches_commit_order env rows view =
     adjacent_order view (filter (\<lambda>(s, tx). s \<ge> FIRST_ALLOCATED_POSITION env) rows)"

text \<open>\<open>(float(r.get("score", 0.0)), int(r["entry"]["tx"]))\<close>\<close>

definition row_position :: "('w, 'sk, 'vk) cenv \<Rightarrow> json \<Rightarrow> exn + rat \<times> int" where
  "row_position env r =
     (case r of
        JObj d \<Rightarrow>
          bind_sum (case dict_get d (lit ''score'') of None \<Rightarrow> Inr 0 | Some x \<Rightarrow> ce_float env x) (\<lambda>score.
            bind_sum (item r ''entry'') (\<lambda>entry.
              bind_sum (item entry ''tx'') (\<lambda>t.
                bind_sum (json_int env t) (\<lambda>tx. Inr (score, tx)))))
      | _ \<Rightarrow> Inl attribute_error)"

fun traverse :: "('a \<Rightarrow> 'e + 'b) \<Rightarrow> 'a list \<Rightarrow> 'e + 'b list" where
  "traverse f [] = Inr []"
| "traverse f (x # xs) = bind_sum (f x) (\<lambda>y. bind_sum (traverse f xs) (\<lambda>ys. Inr (y # ys)))"

definition check_view :: "('w, 'sk, 'vk) cenv \<Rightarrow> json list \<Rightarrow> pystr \<Rightarrow> exn + unit" where
  "check_view env raws view =
     bind_sum (traverse (row_position env) raws) (\<lambda>rows. assert_score_order_matches_commit_order env rows view)"

section \<open>The reads of the scan\<close>

definition VIEW_DECISION :: bytes where
  "VIEW_DECISION = ''ail_view:decision:v1''"

definition VIEW_INTENT :: bytes where
  "VIEW_INTENT = ''ail_view:intent:v1''"

definition TOOL_CALL_PREFIX :: bytes where
  "TOOL_CALL_PREFIX = ''tool_call:''"

definition zscan_view :: "('w, 'sk, 'vk) cenv \<Rightarrow> json \<Rightarrow> bytes \<Rightarrow> nat \<Rightarrow> ('w, 'sk, 'vk, json) cio" where
  "zscan_view env token view_set limit =
     bind_io (outside (ce_zscan env token view_set limit)) (\<lambda>resp.
       bind_io (lift_io (checked_body resp)) (\<lambda>body.
         lift_io (get_default body ''entries'' (JArr []))))"

definition ledger_decision_count :: "('w, 'sk, 'vk) cenv \<Rightarrow> json \<Rightarrow> ('w, 'sk, 'vk, int) cio" where
  "ledger_decision_count env token =
     (if b64encode TOOL_CALL_PREFIX = [] then raise_io (BoundedReadFault [])
      else bind_io (outside (ce_count env token TOOL_CALL_PREFIX)) (\<lambda>resp.
             bind_io (lift_io (checked_body resp)) (\<lambda>body.
               bind_io (lift_io (get_default body ''count'' (JInt 0))) (\<lambda>n. lift_io (json_int env n)))))"

section \<open>The joins\<close>

text \<open>The intents of the page, by call id in the order they were first seen.\<close>

record intent =
  it_call_id :: json
  it_value :: dict
  it_tx_id :: int
  it_encoded_key :: json

type_synonym intents = "(call_key \<times> intent) list"

fun set_intent :: "intents \<Rightarrow> call_key \<Rightarrow> intent \<Rightarrow> intents" where
  "set_intent [] k i = [(k, i)]"
| "set_intent ((k', i') # rest) k i =
     (if k' = k then (k', i\<lparr>it_call_id := it_call_id i'\<rparr>) # rest else (k', i') # set_intent rest k i)"

definition intent_of :: "('w, 'sk, 'vk) cenv \<Rightarrow> json \<Rightarrow> json \<Rightarrow> exn + (call_key \<times> intent) option" where
  "intent_of env entry v =
     (case v of
        JObj value \<Rightarrow>
          if dget value ''record_type'' \<noteq> JStr (lit ''decision_intent'') \<or> \<not> truthy (dget value ''call_id'')
          then Inr None
          else bind_sum (get_default entry ''tx'' (JInt 0)) (\<lambda>t.
            bind_sum (json_int env t) (\<lambda>tx.
              bind_sum (get_default entry ''key'' (JStr [])) (\<lambda>key.
                bind_sum (hash_key env (dget value ''call_id'')) (\<lambda>k.
                  Inr (Some (k, \<lparr>it_call_id = dget value ''call_id'', it_value = value, it_tx_id = tx,
                                 it_encoded_key = key\<rparr>))))))
      | _ \<Rightarrow> Inl attribute_error)"

definition read_intent :: "('w, 'sk, 'vk) cenv \<Rightarrow> json \<Rightarrow> exn + (call_key \<times> intent) option" where
  "read_intent env raw =
     bind_sum (item raw ''entry'') (\<lambda>entry.
       bind_sum (bind_sum (item entry ''value'') decode_json) (intent_of env entry))"

fun read_intents :: "('w, 'sk, 'vk) cenv \<Rightarrow> json list \<Rightarrow> intents \<Rightarrow> intents" where
  "read_intents env [] acc = acc"
| "read_intents env (raw # raws) acc =
     (case read_intent env raw of
        Inr (Some (k, i)) \<Rightarrow> read_intents env raws (set_intent acc k i)
      | _ \<Rightarrow> read_intents env raws acc)"

text \<open>The decision rows that decode; the others are skipped.\<close>

definition decode_entry :: "('w, 'sk, 'vk) cenv \<Rightarrow> json \<Rightarrow> exn + json \<times> json \<times> int" where
  "decode_entry env raw =
     bind_sum (item raw ''entry'') (\<lambda>entry.
       bind_sum (get_default entry ''key'' (JStr [])) (\<lambda>key.
         bind_sum (bind_sum (item entry ''value'') decode_json) (\<lambda>log_entry.
           bind_sum (get_default entry ''tx'' (JInt 0)) (\<lambda>t.
             bind_sum (json_int env t) (\<lambda>tx. Inr (key, log_entry, tx))))))"

definition decode_entries :: "('w, 'sk, 'vk) cenv \<Rightarrow> json list \<Rightarrow> (json \<times> json \<times> int) list" where
  "decode_entries env raws =
     concat (map (\<lambda>raw. case decode_entry env raw of Inl exc \<Rightarrow> [] | Inr e \<Rightarrow> [e]) raws)"

text \<open>The call ids of the page: outside any \<open>try\<close>, so a row that is not a dict, or whose
  call id is not hashable, raises.\<close>

definition add_id :: "(call_key \<times> json) list \<Rightarrow> call_key \<times> json \<Rightarrow> (call_key \<times> json) list" where
  "add_id ids kv = (if fst kv \<in> fst ` set ids then ids else ids @ [kv])"

definition row_call_id :: "('w, 'sk, 'vk) cenv \<Rightarrow> json \<times> json \<times> int \<Rightarrow> exn + (call_key \<times> json) option" where
  "row_call_id env = (\<lambda>(key, log_entry, tx).
     bind_sum (get_field log_entry ''call_id'') (\<lambda>c.
       if \<not> truthy c then Inr None
       else bind_sum (hash_key env c) (\<lambda>k. Inr (Some (k, c)))))"

definition page_call_ids ::
  "('w, 'sk, 'vk) cenv \<Rightarrow> (json \<times> json \<times> int) list \<Rightarrow> intents \<Rightarrow> exn + (call_key \<times> json) list" where
  "page_call_ids env decoded intents =
     bind_sum (traverse (row_call_id env) decoded) (\<lambda>found.
       Inr (foldl add_id [] (concat (map (\<lambda>x. case x of None \<Rightarrow> [] | Some kv \<Rightarrow> [kv]) found) @
                             map (\<lambda>(k, i). (k, it_call_id i)) intents)))"

definition tombstone_id :: "('w, 'sk, 'vk) cenv \<Rightarrow> json \<Rightarrow> exn + call_key option" where
  "tombstone_id env raw =
     bind_sum (bind_sum (item raw ''value'') decode_json) (\<lambda>v.
       bind_sum (get_field v ''record_type'') (\<lambda>record_type.
         if record_type \<noteq> JStr (lit ''content_erasure'') then Inr None
         else bind_sum (get_field v ''call_id'') (\<lambda>c.
                if \<not> truthy c then Inr None else map_sum id Some (hash_key env c))))"

definition tombstoned_call_ids ::
  "('w, 'sk, 'vk) cenv \<Rightarrow> json \<Rightarrow> (call_key \<times> json) list \<Rightarrow> ('w, 'sk, 'vk, call_key set) cio" where
  "tombstoned_call_ids env token call_ids =
     (if call_ids = [] then ret {}
      else bind_io (lift_io (sorted_ids call_ids)) (\<lambda>ordered.
        bind_io (lift_io (traverse (\<lambda>(k, c). text_b64 (lit ''content_erasure:'' @ str_of (ce_repr env) c)) ordered)) (\<lambda>keys.
          bind_io (outside (ce_getall env token keys)) (\<lambda>resp.
            bind_io (lift_io (checked_body resp)) (\<lambda>body.
              bind_io (lift_io (get_default body ''entries'' (JArr []))) (\<lambda>entries.
                bind_io (lift_io (py_iter entries)) (\<lambda>raws.
                  ret (set (concat (map (\<lambda>raw. case tombstone_id env raw of
                    Inr (Some k) \<Rightarrow> [k] | _ \<Rightarrow> []) raws))))))))))"

end
