(* ===== verification/AuditRows.thy ===== *)
theory AuditRows
  imports AuditPage
begin

text \<open>
  The rows of \<open>GET /audit\<close> and \<open>GET /audit/verify\<close>: what the verifier's answer to one
  key is called, what is shown of a payload, the decision rows with their circuit breaker, the
  intents nothing followed, and the page around them.
\<close>

section \<open>Verification states\<close>

datatype verification_detail = DetailNone | DetailGiven json | DetailRaised exn | DetailStatus nat

record verification =
  vs_state :: pystr
  vs_state_id :: json
  vs_state_read :: json
  vs_detail :: verification_detail
  vs_error_class :: json

definition TAMPER_ERROR_CLASSES :: "pystr list" where
  "TAMPER_ERROR_CLASSES = [lit ''consistency_failure'', lit ''signature_failure'']"

definition hashable :: "json \<Rightarrow> bool" where
  "hashable v = (case v of JArr _ \<Rightarrow> False | JObj _ \<Rightarrow> False | _ \<Rightarrow> True)"

definition verification_from_200 :: "json \<Rightarrow> exn + verification" where
  "verification_from_200 vdata =
     (case vdata of
        JObj d \<Rightarrow>
          let shown = (\<lambda>state detail error_class.
                \<lparr>vs_state = lit state, vs_state_id = dget d ''state_id'', vs_state_read = dget d ''state_read'',
                 vs_detail = detail, vs_error_class = error_class\<rparr>);
              error_class = dget d ''error_class'';
              detail = DetailGiven (dget d ''detail'')
          in if truthy (dget d ''verified'') then Inr (shown ''verified'' DetailNone JNull)
             else if error_class = JStr (lit ''not_found'') then Inr (shown ''not_found'' detail error_class)
             else if \<not> hashable error_class then Inl TypeError
             else if error_class \<in> set (map JStr TAMPER_ERROR_CLASSES)
               then Inr (shown ''failed'' detail error_class)
             else Inr (shown ''unverifiable'' detail error_class)
      | _ \<Rightarrow> Inl attribute_error)"

definition unverifiable :: "verification_detail \<Rightarrow> verification" where
  "unverifiable detail =
     \<lparr>vs_state = lit ''unverifiable'', vs_state_id = JNull, vs_state_read = JNull, vs_detail = detail,
      vs_error_class = JNull\<rparr>"

definition verify_one_key :: "('w, 'sk, 'vk) cenv \<Rightarrow> json \<Rightarrow> ('w, 'sk, 'vk, verification \<times> bool) cio" where
  "verify_one_key env encoded_key =
     attempt (outside (ce_verify env encoded_key None)) (\<lambda>r. case r of
       Inl vexc \<Rightarrow> ret (unverifiable (DetailRaised vexc), False)
     | Inr vr \<Rightarrow>
         if re_status vr = 200
         then bind_io (lift_io (bind_sum (json_body vr) verification_from_200)) (\<lambda>v. ret (v, True))
         else ret (unverifiable (DetailStatus (re_status vr)), True))"

definition deferred_verification :: verification where
  "deferred_verification =
     \<lparr>vs_state = lit ''asserted'', vs_state_id = JNull, vs_state_read = JNull, vs_detail = DetailNone,
      vs_error_class = JNull\<rparr>"

definition probe_verifier_reachable :: "('w, 'sk, 'vk) cenv \<Rightarrow> ('w, 'sk, 'vk, bool) cio" where
  "probe_verifier_reachable env =
     attempt (outside (ce_health env)) (\<lambda>r. case r of
       Inl exc \<Rightarrow> ret False
     | Inr resp \<Rightarrow> ret (re_status resp = 200))"

section \<open>Payloads\<close>

definition payload_state :: "json \<Rightarrow> pystr option \<Rightarrow> bool \<Rightarrow> exn + pystr \<times> json" where
  "payload_state content_state content_row has_tombstone =
     (if content_state = JStr (lit ''unavailable'') then Inr (lit ''unavailable'', JNull)
      else if has_tombstone then
        (if content_row \<noteq> None then Inr (lit ''erasure_conflict'', JNull) else Inr (lit ''erased'', JNull))
      else (case content_row of
              Some payload_json \<Rightarrow>
                map_sum id (Pair (lit ''present'')) (of_option ValueError (loads payload_json))
            | None \<Rightarrow> Inr (lit ''lost'', JNull)))"

text \<open>\<open>filter_by(call_id=call_id).first()\<close>\<close>

definition content_row :: "('w, 'sk, 'vk) cenv \<Rightarrow> json \<Rightarrow> ('w, 'sk, 'vk, pystr option) cio" where
  "content_row env call_id =
     (case call_id of
        JStr s \<Rightarrow> cpeek (\<lambda>st. map_of (contents st) s)
      | _ \<Rightarrow> lift_io (ce_query_other env call_id))"

section \<open>The scan\<close>

record scan =
  sc_has_more :: bool
  sc_decoded :: "(json \<times> json \<times> int) list"
  sc_intents :: intents
  sc_tombstoned :: "call_key set"
  sc_faults :: page_faults
  sc_count :: int

definition scan_limit :: "int \<Rightarrow> nat" where
  "scan_limit limit = nat (max 1 (min (limit + 1) (int MAX_SCAN_LIMIT)))"

definition page_limit :: "int \<Rightarrow> nat" where
  "page_limit limit = scan_limit limit - 1"

text \<open>\<open>xs[:n]\<close> of the entries, which the order check has iterated already.\<close>

fun py_take :: "nat \<Rightarrow> json \<Rightarrow> exn + json list" where
  "py_take n (JArr xs) = Inr (take n xs)"
| "py_take n (JStr s) = Inr (map (\<lambda>c. JStr [c]) (take n s))"
| "py_take n _ = Inl TypeError"

definition row_tx :: "('w, 'sk, 'vk) cenv \<Rightarrow> json \<Rightarrow> exn + int list" where
  "row_tx env row =
     bind_sum (get_field row ''entry'') (\<lambda>entry. case entry of
       JObj d \<Rightarrow> bind_sum (get_default entry ''tx'' (JInt 0)) (\<lambda>t. map_sum id (\<lambda>tx. [tx]) (json_int env t))
     | _ \<Rightarrow> Inr [])"

definition ledger_session :: "('w, 'sk, 'vk) cenv \<Rightarrow> ('w, 'sk, 'vk, json) cio" where
  "ledger_session env =
     bind_io (immudb_login env) (\<lambda>login.
       bind_io (lift_io (checked_body login)) (\<lambda>body.
         bind_io (lift_io (get_field body ''token'')) (\<lambda>token.
           if \<not> truthy token then raise_io ValueError else ret token)))"

definition read_views ::
  "('w, 'sk, 'vk) cenv \<Rightarrow> json \<Rightarrow> int \<Rightarrow> ('w, 'sk, 'vk, bool \<times> json list \<times> json list) cio" where
  "read_views env token limit =
     bind_io (zscan_view env token VIEW_DECISION (scan_limit limit)) (\<lambda>raw_entries.
       bind_io (zscan_view env token VIEW_INTENT (scan_limit limit)) (\<lambda>raw_intents.
         bind_io (lift_io (bind_sum (py_iter raw_entries) (\<lambda>rs. check_view env rs (lit ''decision'')))) (\<lambda>_.
           bind_io (lift_io (bind_sum (py_iter raw_intents) (\<lambda>rs. check_view env rs (lit ''intent'')))) (\<lambda>_.
             bind_io (lift_io (py_len raw_entries)) (\<lambda>m.
               bind_io (lift_io (py_len raw_intents)) (\<lambda>n.
                 bind_io (lift_io (py_take (page_limit limit) raw_entries)) (\<lambda>es.
                   bind_io (lift_io (py_take (page_limit limit) raw_intents)) (\<lambda>is.
                     ret (m > page_limit limit \<or> n > page_limit limit, es, is)))))))))"

text \<open>The body of the scan's \<open>try\<close>; None is the fault read running out of fuel.\<close>

definition scan_ledger ::
  "nat \<Rightarrow> ('w, 'sk, 'vk) cenv \<Rightarrow> int \<Rightarrow> ('w, 'sk, 'vk, scan option) cio" where
  "scan_ledger fuel env limit =
     bind_io (ledger_session env) (\<lambda>token.
       bind_io (assert_reserve_agrees env token) (\<lambda>_.
         bind_io (read_views env token limit) (\<lambda>(has_more, raw_entries, raw_intents).
           bind_io (ledger_decision_count env token) (\<lambda>total.
             let intents = read_intents env raw_intents [];
                 decoded = decode_entries env raw_entries
             in bind_io (lift_io (page_call_ids env decoded intents)) (\<lambda>ids.
                  bind_io (tombstoned_call_ids env token ids) (\<lambda>tombstoned.
                    bind_io (lift_io (traverse (row_tx env) (raw_entries @ raw_intents))) (\<lambda>txs.
                      bind_io (page_faults fuel env token (concat txs)) (\<lambda>faults. case faults of
                        None \<Rightarrow> ret None
                      | Some fs \<Rightarrow>
                          ret (Some \<lparr>sc_has_more = has_more, sc_decoded = decoded, sc_intents = intents,
                                     sc_tombstoned = tombstoned, sc_faults = fs, sc_count = total\<rparr>)))))))))"

text \<open>The \<open>except\<close> clauses.\<close>

record ordering_fault_body =
  of_view :: pystr
  of_higher :: "rat \<times> int"
  of_lower :: "rat \<times> int"
  of_page_served :: bool

datatype audit_refusal =
    AuditRefused http_error
  | AuditOrdering http_error ordering_fault_body

definition ordering_body :: "pystr \<Rightarrow> rat \<times> int \<Rightarrow> rat \<times> int \<Rightarrow> ordering_fault_body" where
  "ordering_body view higher lower =
     \<lparr>of_view = view, of_higher = higher, of_lower = lower, of_page_served = False\<rparr>"

definition scan_refusal :: "exn \<Rightarrow> audit_refusal" where
  "scan_refusal exc =
     (case exc of
        ReserveMismatch configured bound \<Rightarrow> AuditRefused (HTTPException 503)
      | BoundedReadFault key \<Rightarrow> AuditRefused (HTTPException 500)
      | OrderingFault view higher lower \<Rightarrow> AuditOrdering (HTTPException 500) (ordering_body view higher lower)
      | HTTPStatusError status \<Rightarrow> AuditRefused (HTTPException 502)
      | _ \<Rightarrow> AuditRefused (HTTPException 503))"

section \<open>The decision rows\<close>

definition row_verification ::
  "('w, 'sk, 'vk) cenv \<Rightarrow> bool \<Rightarrow> bool \<Rightarrow> json \<Rightarrow> ('w, 'sk, 'vk, verification \<times> bool) cio" where
  "row_verification env verify verifier_up encoded_key =
     (if \<not> verify then ret (deferred_verification, verifier_up)
      else if \<not> verifier_up then ret (deferred_verification, verifier_up)
      else bind_io (verify_one_key env encoded_key) (\<lambda>(v, transport_ok).
             ret (v, if transport_ok then verifier_up else False)))"

record audit_entry =
  ae_tx_id :: int
  ae_ledger_key :: json
  ae_call_id :: json
  ae_agent_id :: json
  ae_timestamp :: json
  ae_tool_name :: json
  ae_outcome_type :: json
  ae_fault_class :: json
  ae_policy_revision :: json
  ae_reasons :: json
  ae_input_sha256 :: json
  ae_payload :: json
  ae_payload_state :: pystr
  ae_verification :: verification
  ae_ledger_fault :: json
  ae_profile :: json
  ae_exclusivity :: json
  ae_execution_state :: pystr

definition dget_default :: "dict \<Rightarrow> string \<Rightarrow> json \<Rightarrow> json" where
  "dget_default kvs key d = (case dict_get kvs (lit key) of None \<Rightarrow> d | Some x \<Rightarrow> x)"

text \<open>A row after its verification.\<close>

definition decision_row ::
  "('w, 'sk, 'vk) cenv \<Rightarrow> scan \<Rightarrow> json \<Rightarrow> dict \<Rightarrow> int \<Rightarrow> verification \<Rightarrow> ('w, 'sk, 'vk, audit_entry) cio" where
  "decision_row env sc encoded_key log_entry tx_id v =
     (let call_id = dget log_entry ''call_id''
      in bind_io (if truthy call_id then content_row env call_id else ret None) (\<lambda>row.
           bind_io (lift_io (if truthy call_id
               then map_sum id (\<lambda>k. k \<in> sc_tombstoned sc) (hash_key env call_id) else Inr False)) (\<lambda>has_tombstone.
             bind_io (lift_io (payload_state (dget log_entry ''content_state'') row has_tombstone)) (\<lambda>(ps, payload).
               bind_io (lift_io (hash_key env call_id)) (\<lambda>k.
                 ret \<lparr>ae_tx_id = tx_id, ae_ledger_key = encoded_key, ae_call_id = call_id,
                      ae_agent_id = dget log_entry ''agent_id'', ae_timestamp = dget log_entry ''timestamp'',
                      ae_tool_name = dget log_entry ''tool_name'',
                      ae_outcome_type = dget log_entry ''outcome_type'',
                      ae_fault_class = dget log_entry ''fault_class'',
                      ae_policy_revision = dget log_entry ''policy_revision'',
                      ae_reasons = dget_default log_entry ''reasons'' (JArr []),
                      ae_input_sha256 = dget log_entry ''input_sha256'', ae_payload = payload,
                      ae_payload_state = ps, ae_verification = v,
                      ae_ledger_fault = fault_for_row (sc_faults sc) encoded_key,
                      ae_profile = dget_default log_entry ''profile'' (JStr (lit ''unknown'')),
                      ae_exclusivity = dget log_entry ''exclusivity'',
                      ae_execution_state =
                        (if k \<in> fst ` set (sc_intents sc) then lit ''completed'' else lit ''n/a'')\<rparr>)))))"

text \<open>The loop, with what it knows of the verifier; an exception of a row skips the row.\<close>

fun decision_rows ::
  "('w, 'sk, 'vk) cenv \<Rightarrow> scan \<Rightarrow> bool \<Rightarrow> bool \<Rightarrow> (json \<times> json \<times> int) list \<Rightarrow> audit_entry list \<Rightarrow>
   ('w, 'sk, 'vk, audit_entry list) cio" where
  "decision_rows env sc verify verifier_up [] entries = ret entries"
| "decision_rows env sc verify verifier_up ((encoded_key, log_entry, tx_id) # rest) entries =
     attempt (row_verification env verify verifier_up encoded_key) (\<lambda>r. case r of
       Inl exc \<Rightarrow> decision_rows env sc verify verifier_up rest entries
     | Inr (v, up) \<Rightarrow>
         attempt (case log_entry of
             JObj d \<Rightarrow> decision_row env sc encoded_key d tx_id v
           | _ \<Rightarrow> raise_io attribute_error) (\<lambda>e. case e of
           Inl exc \<Rightarrow> decision_rows env sc verify up rest entries
         | Inr entry \<Rightarrow> decision_rows env sc verify up rest (entries @ [entry])))"

section \<open>The intents nothing followed\<close>

definition intent_row ::
  "('w, 'sk, 'vk) cenv \<Rightarrow> scan \<Rightarrow> bool \<Rightarrow> call_key \<Rightarrow> intent \<Rightarrow> ('w, 'sk, 'vk, audit_entry) cio" where
  "intent_row env sc verify k i =
     bind_io (if \<not> verify then ret deferred_verification
              else bind_io (verify_one_key env (it_encoded_key i)) (\<lambda>(v, _). ret v)) (\<lambda>v.
       bind_io (content_row env (it_call_id i)) (\<lambda>row.
         bind_io (lift_io (payload_state (dget (it_value i) ''content_state'') row (k \<in> sc_tombstoned sc)))
           (\<lambda>(ps, payload).
             ret \<lparr>ae_tx_id = it_tx_id i, ae_ledger_key = it_encoded_key i, ae_call_id = it_call_id i,
                  ae_agent_id = dget (it_value i) ''agent_id'', ae_timestamp = dget (it_value i) ''timestamp'',
                  ae_tool_name = dget (it_value i) ''tool_name'', ae_outcome_type = JStr (lit ''policy_allow''),
                  ae_fault_class = JNull, ae_policy_revision = dget (it_value i) ''policy_revision'',
                  ae_reasons = JArr [], ae_input_sha256 = dget (it_value i) ''input_sha256'',
                  ae_payload = payload, ae_payload_state = ps, ae_verification = v,
                  ae_ledger_fault = fault_for_row (sc_faults sc) (it_encoded_key i),
                  ae_profile = dget_default (it_value i) ''profile'' (JStr (lit ''unknown'')),
                  ae_exclusivity = JNull, ae_execution_state = lit ''unknown''\<rparr>)))"

fun intent_rows ::
  "('w, 'sk, 'vk) cenv \<Rightarrow> scan \<Rightarrow> bool \<Rightarrow> call_key set \<Rightarrow> intents \<Rightarrow> audit_entry list \<Rightarrow>
   ('w, 'sk, 'vk, audit_entry list) cio" where
  "intent_rows env sc verify completed [] entries = ret entries"
| "intent_rows env sc verify completed ((k, i) # rest) entries =
     (if k \<in> completed then intent_rows env sc verify completed rest entries
      else attempt (intent_row env sc verify k i) (\<lambda>e. case e of
             Inl exc \<Rightarrow> intent_rows env sc verify completed rest entries
           | Inr entry \<Rightarrow> intent_rows env sc verify completed rest (entries @ [entry])))"

definition completed_call_ids :: "('w, 'sk, 'vk) cenv \<Rightarrow> audit_entry list \<Rightarrow> call_key set" where
  "completed_call_ids env entries =
     set (concat (map (\<lambda>e. if truthy (ae_call_id e)
       then (case hash_key env (ae_call_id e) of Inl _ \<Rightarrow> [] | Inr k \<Rightarrow> [k]) else []) entries))"

section \<open>The page\<close>

record audit_page =
  ap_entries :: "audit_entry list"
  ap_total :: int
  ap_has_more :: bool
  ap_verifier_reachable :: bool

definition audit_rows ::
  "('w, 'sk, 'vk) cenv \<Rightarrow> scan \<Rightarrow> bool \<Rightarrow> ('w, 'sk, 'vk, audit_page) cio" where
  "audit_rows env sc verify =
     bind_io (probe_verifier_reachable env) (\<lambda>reachable.
       bind_io (decision_rows env sc verify True (sc_decoded sc) []) (\<lambda>entries.
         bind_io (intent_rows env sc verify (completed_call_ids env entries) (sc_intents sc) entries) (\<lambda>all.
           ret \<lparr>ap_entries = all, ap_total = sc_count sc, ap_has_more = sc_has_more sc,
                ap_verifier_reachable = reachable\<rparr>)))"

definition get_audit ::
  "nat \<Rightarrow> ('w, 'sk, 'vk) cenv \<Rightarrow> pystr \<Rightarrow> int \<Rightarrow> bool \<Rightarrow>
   ('w, 'sk, 'vk, (audit_refusal + audit_page) option) cio" where
  "get_audit fuel env x_api_key limit verify =
     (case page_require_read_key env x_api_key of
        Inl e \<Rightarrow> ret (Some (Inl (AuditRefused e)))
      | Inr _ \<Rightarrow>
          if ce_user env \<in> {None, Some []} \<or> ce_password env \<in> {None, Some []}
          then ret (Some (Inl (AuditRefused (HTTPException 503))))
          else attempt (scan_ledger fuel env limit) (\<lambda>r. case r of
                 Inl exc \<Rightarrow> ret (Some (Inl (scan_refusal exc)))
               | Inr None \<Rightarrow> ret None
               | Inr (Some sc) \<Rightarrow>
                   bind_io (audit_rows env sc verify) (\<lambda>page. ret (Some (Inr page)))))"

section \<open>\<open>GET /audit/verify\<close>\<close>

definition verify_audit_record ::
  "('w, 'sk, 'vk) cenv \<Rightarrow> pystr \<Rightarrow> pystr \<Rightarrow> ('w, 'sk, 'vk, http_error + pystr \<times> verification) cio" where
  "verify_audit_record env x_api_key key =
     (case page_require_read_key env x_api_key of
        Inl e \<Rightarrow> ret (Inl e)
      | Inr _ \<Rightarrow>
          (case b64decode_validate key of
             None \<Rightarrow> ret (Inl (HTTPException 400))
           | Some raw_key \<Rightarrow>
               if raw_key = [] then ret (Inl (HTTPException 400))
               else bind_io (verify_one_key env (JStr key)) (\<lambda>(v, _). ret (Inr (key, v)))))"

section \<open>Where a row comes from\<close>

definition from_decision ::
  "('w, 'sk, 'vk) cenv \<Rightarrow> scan \<Rightarrow> bool \<Rightarrow> audit_entry \<Rightarrow> bool" where
  "from_decision env sc verify e \<longleftrightarrow>
     (\<exists>key d tx v up up' s s1 s2. row_verification env verify up key s = (Inr (v, up'), s1) \<and>
        decision_row env sc key d tx v s1 = (Inr e, s2))"

definition from_intent ::
  "('w, 'sk, 'vk) cenv \<Rightarrow> scan \<Rightarrow> bool \<Rightarrow> audit_entry \<Rightarrow> bool" where
  "from_intent env sc verify e \<longleftrightarrow>
     (\<exists>k i s s'. (k, i) \<in> set (sc_intents sc) \<and> intent_row env sc verify k i s = (Inr e, s'))"

lemma decision_rows_all:
  assumes "decision_rows env sc verify up rows entries s = (r, s')" "\<forall>e \<in> set entries. from_decision env sc verify e"
  shows "\<exists>es. r = Inr es \<and> length es \<le> length entries + length rows \<and> (\<forall>e \<in> set es. from_decision env sc verify e)"
  using assms
proof (induction rows arbitrary: up entries s)
  case Nil
  then show ?case by (auto simp: ret_def)
next
  case (Cons row rest)
  obtain key log_entry tx where row: "row = (key, log_entry, tx)" by (cases row)
  obtain q s1 where q: "row_verification env verify up key s = (q, s1)" by fastforce
  show ?case
  proof (cases q)
    case (Inl exc)
    then have "decision_rows env sc verify up rest entries s1 = (r, s')"
      using Cons.prems(1) q row by (simp add: attempt_def)
    from Cons.IH [OF this Cons.prems(2)] show ?thesis by auto
  next
    case (Inr p)
    obtain v up' where p: "p = (v, up')" by (cases p)
    obtain m s2 where m: "(case log_entry of JObj d \<Rightarrow> decision_row env sc key d tx v | _ \<Rightarrow> raise_io attribute_error) s1 = (m, s2)"
      by fastforce
    have run: "(case m of Inl exc \<Rightarrow> decision_rows env sc verify up' rest entries
        | Inr entry \<Rightarrow> decision_rows env sc verify up' rest (entries @ [entry])) s2 = (r, s')"
      using Cons.prems(1) q m Inr p row by (simp add: attempt_def)
    show ?thesis
    proof (cases m)
      case (Inl exc)
      then show ?thesis using Cons.IH [of up' entries s2] Cons.prems(2) run by auto
    next
      case Inr': (Inr entry)
      then obtain d where "decision_row env sc key d tx v s1 = (Inr entry, s2)"
        using m by (cases log_entry) (auto simp: raise_io_def)
      then have "from_decision env sc verify entry"
        using q Inr p unfolding from_decision_def by blast
      then show ?thesis using Cons.IH [of up' "entries @ [entry]" s2] Cons.prems(2) run Inr' by auto
    qed
  qed
qed

lemma intent_rows_all:
  assumes "intent_rows env sc verify completed rows entries s = (r, s')" "set rows \<subseteq> set (sc_intents sc)"
  shows "\<exists>es. r = Inr (entries @ es) \<and> length es \<le> length rows \<and> (\<forall>e \<in> set es. from_intent env sc verify e)"
  using assms
proof (induction rows arbitrary: entries s)
  case Nil
  then show ?case by (auto simp: ret_def)
next
  case (Cons row rest)
  obtain k i where row: "row = (k, i)" by (cases row)
  have sub: "set rest \<subseteq> set (sc_intents sc)" using Cons.prems by simp
  obtain m s1 where m: "intent_row env sc verify k i s = (m, s1)" by fastforce
  consider "k \<in> completed" "intent_rows env sc verify completed rest entries s = (r, s')"
    | exc where "m = Inl exc" "intent_rows env sc verify completed rest entries s1 = (r, s')"
    | entry where "m = Inr entry" "intent_rows env sc verify completed rest (entries @ [entry]) s1 = (r, s')"
    using Cons.prems(1) row m by (auto simp: attempt_def split: if_splits sum.splits)
  then show ?case
  proof cases
    case 3
    have "from_intent env sc verify entry" using m 3(1) Cons.prems(2) row unfolding from_intent_def by auto
    moreover obtain es where "r = Inr ((entries @ [entry]) @ es)" "length es \<le> length rest"
      "\<forall>e \<in> set es. from_intent env sc verify e" using Cons.IH [OF 3(2) sub] by auto
    ultimately show ?thesis by (intro exI [of _ "entry # es"]) auto
  qed (use Cons.IH [OF _ sub] in \<open>fastforce dest: le_SucI\<close>)+
qed

lemma audit_rows_all:
  assumes "audit_rows env sc verify s = (Inr page, s')"
  shows "length (ap_entries page) \<le> length (sc_decoded sc) + length (sc_intents sc) \<and>
    ap_has_more page = sc_has_more sc \<and>
    (\<forall>e \<in> set (ap_entries page). from_decision env sc verify e \<or> from_intent env sc verify e)"
proof -
  obtain reachable entries all s1 s2 s3 where
    d: "decision_rows env sc verify True (sc_decoded sc) [] s1 = (Inr entries, s2)" and
    i: "intent_rows env sc verify (completed_call_ids env entries) (sc_intents sc) entries s2 = (Inr all, s3)" and
    p: "page = \<lparr>ap_entries = all, ap_total = sc_count sc, ap_has_more = sc_has_more sc, ap_verifier_reachable = reachable\<rparr>"
    using assms unfolding audit_rows_def by (auto simp: ret_def bind_io_def split: prod.splits sum.splits)
  obtain es where "all = entries @ es" "length es \<le> length (sc_intents sc)" "\<forall>e \<in> set es. from_intent env sc verify e"
    using intent_rows_all [OF i] by auto
  then show ?thesis using decision_rows_all [OF d] p by auto
qed

section \<open>What a row can say\<close>

text \<open>The verifier answered this key with a proof.\<close>

definition proved_by_verifier :: "('w, 'sk, 'vk) cenv \<Rightarrow> json \<Rightarrow> bool" where
  "proved_by_verifier env key \<longleftrightarrow>
     (\<exists>w re w' d. ce_verify env key None w = (Inr re, w') \<and> re_status re = 200 \<and> re_body re = Some (JObj d) \<and>
        truthy (dget d ''verified''))"

lemma states_differ [simp]:
  "lit ''unverifiable'' \<noteq> lit ''verified''" "lit ''asserted'' \<noteq> lit ''verified''"
  "lit ''not_found'' \<noteq> lit ''verified''" "lit ''failed'' \<noteq> lit ''verified''"
  by (simp_all add: lit_def)

lemma verification_from_200_verified:
  "verification_from_200 j = Inr v \<Longrightarrow> vs_state v = lit ''verified'' \<Longrightarrow> \<exists>d. j = JObj d \<and> truthy (dget d ''verified'')"
  by (cases j) (auto simp: verification_from_200_def Let_def split: if_splits)

lemma verify_one_key_verified:
  assumes "verify_one_key env key s = (Inr (v, ok), s')" "vs_state v = lit ''verified''"
  shows "proved_by_verifier env key"
proof -
  obtain q s1 where q: "outside (ce_verify env key None) s = (q, s1)" by fastforce
  from assms q obtain vr j where "q = Inr vr" "re_status vr = 200" "re_body vr = Some j" "verification_from_200 j = Inr v"
    by (auto simp: verify_one_key_def attempt_def ret_def unverifiable_def bind_io_def lift_io_def json_body_def
        of_option_def bind_sum_Inr_iff split: sum.splits if_splits option.splits)
  with q verification_from_200_verified [OF this(4) assms(2)] show ?thesis
    unfolding proved_by_verifier_def by (elim outsideE) auto
qed

lemma row_verification_verified:
  assumes "row_verification env verify up key s = (Inr (v, up'), s1)" "vs_state v = lit ''verified''"
  shows "proved_by_verifier env key"
proof -
  obtain ok where "verify_one_key env key s = (Inr (v, ok), s1)"
    using assms by (auto simp: row_verification_def ret_def deferred_verification_def split: if_splits
        elim!: bind_InrE split: prod.splits)
  then show ?thesis using verify_one_key_verified assms(2) by blast
qed

lemma payload_shown:
  "payload_state c row t = Inr (ps, payload) \<Longrightarrow> payload \<noteq> JNull \<Longrightarrow> ps = lit ''present'' \<and> \<not> t"
  by (auto simp: payload_state_def of_option_def split: if_splits option.splits)

lemma decision_row_says:
  assumes "decision_row env sc key d tx v s = (Inr e, s')"
  shows "ae_verification e = v \<and> ae_ledger_key e = key \<and> (ae_payload e \<noteq> JNull \<longrightarrow>
    ae_payload_state e = lit ''present'' \<and>
    (truthy (ae_call_id e) \<longrightarrow> (\<exists>k. hash_key env (ae_call_id e) = Inr k \<and> k \<notin> sc_tombstoned sc)))"
  using assms unfolding decision_row_def Let_def
  by (auto simp: ret_def lift_io_def dest!: payload_shown elim!: bind_InrE split: prod.splits sum.splits if_splits)

lemma intent_row_says:
  assumes "intent_row env sc verify k i s = (Inr e, s')" "hash_key env (it_call_id i) = Inr k"
  shows "(vs_state (ae_verification e) = lit ''verified'' \<longrightarrow> proved_by_verifier env (ae_ledger_key e)) \<and>
    (ae_payload e \<noteq> JNull \<longrightarrow> ae_payload_state e = lit ''present'' \<and>
      (\<exists>k. hash_key env (ae_call_id e) = Inr k \<and> k \<notin> sc_tombstoned sc))"
proof -
  obtain v s1 row s2 ps payload where
    v: "v = deferred_verification \<or> (\<exists>ok s0 s0'. verify_one_key env (it_encoded_key i) s0 = (Inr (v, ok), s0'))" and
    p: "payload_state (dget (it_value i) ''content_state'') row (k \<in> sc_tombstoned sc) = Inr (ps, payload)" and
    e: "ae_verification e = v" "ae_ledger_key e = it_encoded_key i" "ae_call_id e = it_call_id i"
      "ae_payload e = payload" "ae_payload_state e = ps"
    using assms(1) unfolding intent_row_def
    by (auto simp: ret_def lift_io_def elim!: bind_InrE split: prod.splits if_splits) blast+
  have "vs_state v = lit ''verified'' \<longrightarrow> proved_by_verifier env (it_encoded_key i)"
    using v verify_one_key_verified [of env "it_encoded_key i"] by (auto simp: deferred_verification_def)
  then show ?thesis using e payload_shown [OF p] assms(2) by auto
qed

section \<open>What the scan hands to the rows\<close>

lemma traverse_Inr: "traverse f xs = Inr ys \<Longrightarrow> x \<in> set xs \<Longrightarrow> \<exists>y. f x = Inr y"
  by (induction xs arbitrary: ys) (auto simp: bind_sum_Inr_iff)

lemma length_decode_entries: "length (decode_entries env raws) \<le> length raws"
  by (induction raws) (auto simp: decode_entries_def split: sum.split)

lemma length_set_intent: "length (set_intent acc k i) \<le> Suc (length acc)"
  by (induction acc k i rule: set_intent.induct) auto

lemma length_read_intents: "length (read_intents env raws acc) \<le> length acc + length raws"
proof (induction env raws acc rule: read_intents.induct)
  case (2 env raw raws acc)
  then show ?case
    using length_set_intent [of acc] by (fastforce split: sum.splits option.splits intro: le_trans)
qed simp

text \<open>An intent stands under the key of its call id.\<close>

definition intents_keyed :: "('w, 'sk, 'vk) cenv \<Rightarrow> intents \<Rightarrow> bool" where
  "intents_keyed env is \<longleftrightarrow> (\<forall>(k, i) \<in> set is. hash_key env (it_call_id i) = Inr k)"

lemma set_intent_keyed:
  "intents_keyed env acc \<Longrightarrow> hash_key env (it_call_id i) = Inr k \<Longrightarrow> intents_keyed env (set_intent acc k i)"
  by (induction acc k i rule: set_intent.induct) (auto simp: intents_keyed_def)

lemma intent_of_keyed: "intent_of env entry v = Inr (Some (k, i)) \<Longrightarrow> hash_key env (it_call_id i) = Inr k"
  by (cases v) (auto simp: intent_of_def bind_sum_Inr_iff split: if_splits)

lemma read_intent_keyed: "read_intent env raw = Inr (Some (k, i)) \<Longrightarrow> hash_key env (it_call_id i) = Inr k"
  by (auto simp: read_intent_def bind_sum_Inr_iff dest: intent_of_keyed)

lemma read_intents_keyed: "intents_keyed env acc \<Longrightarrow> intents_keyed env (read_intents env raws acc)"
proof (induction raws arbitrary: acc)
  case (Cons raw raws)
  show ?case
  proof (cases "\<exists>k i. read_intent env raw = Inr (Some (k, i))")
    case True
    then obtain k i where ki: "read_intent env raw = Inr (Some (k, i))" by blast
    have "intents_keyed env (set_intent acc k i)"
      by (rule set_intent_keyed [OF Cons.prems read_intent_keyed [OF ki]])
    from Cons.IH [OF this] show ?thesis using ki by simp
  next
    case False
    then show ?thesis using Cons by (auto split: sum.split option.split)
  qed
qed simp

lemma py_take_length: "py_take n j = Inr xs \<Longrightarrow> length xs \<le> n"
  by (cases j) auto

lemma read_views_length:
  assumes "read_views env token limit s = (Inr (hm, es, is), s')"
  shows "length es \<le> page_limit limit \<and> length is \<le> page_limit limit"
  using assms unfolding read_views_def
  by (elim bind_InrE) (auto simp: lift_io_def ret_def dest: py_take_length)

lemma scan_ledger_shape:
  assumes "scan_ledger fuel env limit s = (Inr (Some sc), s')"
  shows "length (sc_decoded sc) \<le> page_limit limit \<and> length (sc_intents sc) \<le> page_limit limit \<and>
    intents_keyed env (sc_intents sc)"
proof -
  obtain token hm es "is" s1 s2 where v: "read_views env token limit s1 = (Inr (hm, es, is), s2)"
    and sc: "sc_decoded sc = decode_entries env es" "sc_intents sc = read_intents env is []"
    using assms unfolding scan_ledger_def Let_def
    by (elim bind_InrE) (auto simp: lift_io_def ret_def elim!: bind_InrE split: prod.splits option.splits)
  show ?thesis
    using read_views_length [OF v] length_decode_entries [of env es] length_read_intents [of env "is" "[]"]
      read_intents_keyed [of env "[]" "is"] by (auto simp: sc intents_keyed_def)
qed

lemma get_audit_page:
  assumes "get_audit fuel env x_api_key limit verify s = (Inr (Some (Inr page)), s')"
  obtains sc s1 where "scan_ledger fuel env limit s = (Inr (Some sc), s1)" "audit_rows env sc verify s1 = (Inr page, s')"
  using assms unfolding get_audit_def
  by (auto simp: ret_def split: sum.splits if_splits option.splits elim!: attemptE bind_InrE)

section \<open>A default page asks the verifier nothing\<close>

lemma content_row_state: "snd (content_row env c s) = s"
  by (cases c) (simp_all add: content_row_def lift_io_def cpeek_def)

lemma content_row_stays: "content_row env c s = (r, s') \<Longrightarrow> s' = s"
  using content_row_state [of env c s] by simp

lemma decision_row_stays: "decision_row env sc key d tx v s = (r, s') \<Longrightarrow> s' = s"
  unfolding decision_row_def Let_def
  by (auto simp: ret_def lift_io_def dest!: content_row_stays elim!: bind_ioE split: prod.splits if_splits)

lemma intent_row_verification:
  assumes "intent_row env sc verify k i s = (Inr e, s')"
  shows "if verify then \<exists>ok s1. verify_one_key env (it_encoded_key i) s = (Inr (ae_verification e, ok), s1)
    else ae_verification e = deferred_verification"
proof -
  obtain v s1 where v: "(if \<not> verify then ret deferred_verification
      else bind_io (verify_one_key env (it_encoded_key i)) (\<lambda>(v, _). ret v)) s = (Inr v, s1)"
    and e: "ae_verification e = v"
    using assms unfolding intent_row_def
    by (elim bind_InrE) (auto simp: lift_io_def ret_def split: prod.splits elim!: bind_InrE)
  then show ?thesis by (auto simp: ret_def elim!: bind_InrE)
qed

lemma intent_row_deferred: "intent_row env sc False k i s = (r, s') \<Longrightarrow> s' = s"
  unfolding intent_row_def
  by (auto simp: ret_def lift_io_def dest!: content_row_stays elim!: bind_ioE split: prod.splits)

lemma decision_rows_deferred: "decision_rows env sc False up rows entries s = (r, s') \<Longrightarrow> s' = s"
  by (induction rows arbitrary: entries s)
    (auto simp: ret_def raise_io_def row_verification_def attempt_def split: prod.splits sum.splits json.splits
      dest!: decision_row_stays)

lemma intent_rows_deferred: "intent_rows env sc False completed rows entries s = (r, s') \<Longrightarrow> s' = s"
  by (induction rows arbitrary: entries s)
    (auto simp: ret_def attempt_def split: prod.splits sum.splits if_splits dest!: intent_row_deferred)

section \<open>The circuit breaker\<close>

definition unreachable :: "('w, 'sk, 'vk) cenv \<Rightarrow> exn \<Rightarrow> bool" where
  "unreachable env exc \<longleftrightarrow> (\<forall>key w. fst (ce_verify env key None w) = Inl exc)"

lemma verify_unreachable:
  "unreachable env exc \<Longrightarrow> \<exists>s'. verify_one_key env key s = (Inr (unverifiable (DetailRaised exc), False), s')"
proof -
  assume "unreachable env exc"
  then obtain w' where "ce_verify env key None (cworld s) = (Inl exc, w')"
    unfolding unreachable_def by (metis prod.collapse)
  then show ?thesis by (simp add: verify_one_key_def attempt_def outside_def ret_def)
qed

lemma decision_rows_down:
  assumes "decision_rows env sc True False rows entries s = (r, s')"
  shows "\<exists>es. r = Inr (entries @ es) \<and> (\<forall>e \<in> set es. ae_verification e = deferred_verification)"
  using assms
proof (induction rows arbitrary: entries s)
  case Nil
  then have "r = Inr entries" by (simp add: ret_def)
  then show ?case by (intro exI [of _ "[]"]) simp
next
  case (Cons row rest)
  obtain key log_entry tx where row: "row = (key, log_entry, tx)" by (cases row)
  obtain m s2 where m: "(case log_entry of JObj d \<Rightarrow> decision_row env sc key d tx deferred_verification | _ \<Rightarrow> raise_io attribute_error) s = (m, s2)"
    by fastforce
  have run: "(case m of Inl exc \<Rightarrow> decision_rows env sc True False rest entries
      | Inr entry \<Rightarrow> decision_rows env sc True False rest (entries @ [entry])) s2 = (r, s')"
    using Cons.prems m row by (simp add: row_verification_def attempt_def ret_def)
  show ?case
  proof (cases m)
    case (Inl exc)
    then show ?thesis using Cons.IH run by simp
  next
    case (Inr entry)
    then have "ae_verification entry = deferred_verification"
      using m decision_row_says [of env sc key _ tx deferred_verification s entry s2]
      by (auto simp: raise_io_def split: json.splits)
    moreover obtain es where "r = Inr ((entries @ [entry]) @ es)" "\<forall>e \<in> set es. ae_verification e = deferred_verification"
      using Cons.IH [of "entries @ [entry]"] run Inr by auto
    ultimately show ?thesis by (intro exI [of _ "entry # es"]) auto
  qed
qed

lemma decision_rows_breaker:
  assumes "unreachable env exc" "decision_rows env sc True True rows [] s = (Inr ds, s')"
  shows "\<forall>e \<in> set (tl ds). ae_verification e = deferred_verification"
proof (cases rows)
  case (Cons row rest)
  obtain key log_entry tx where row: "row = (key, log_entry, tx)" by (cases row)
  let ?v = "unverifiable (DetailRaised exc)"
  obtain s1 where v: "verify_one_key env key s = (Inr (?v, False), s1)"
    using verify_unreachable [OF assms(1)] by blast
  obtain m s2 where m: "(case log_entry of JObj d \<Rightarrow> decision_row env sc key d tx ?v | _ \<Rightarrow> raise_io attribute_error) s1 = (m, s2)"
    by fastforce
  have run: "(case m of Inl exc \<Rightarrow> decision_rows env sc True False rest []
      | Inr entry \<Rightarrow> decision_rows env sc True False rest [entry]) s2 = (Inr ds, s')"
    using assms(2) v m row Cons by (simp add: row_verification_def attempt_def ret_def bind_io_def)
  show ?thesis
  proof (cases m)
    case (Inl exc')
    then have "decision_rows env sc True False rest [] s2 = (Inr ds, s')" using run by simp
    from decision_rows_down [OF this] show ?thesis by (cases ds) auto
  next
    case (Inr entry)
    then have "decision_rows env sc True False rest [entry] s2 = (Inr ds, s')" using run by simp
    from decision_rows_down [OF this] show ?thesis by auto
  qed
qed (use assms in \<open>simp add: ret_def\<close>)

lemma intent_rows_unreachable:
  assumes "unreachable env exc" "from_intent env sc True e"
  shows "ae_verification e = unverifiable (DetailRaised exc)"
proof -
  obtain k i s s' where "intent_row env sc True k i s = (Inr e, s')" using assms(2) unfolding from_intent_def by blast
  then obtain ok s1 where "verify_one_key env (it_encoded_key i) s = (Inr (ae_verification e, ok), s1)"
    using intent_row_verification by fastforce
  then show ?thesis using verify_unreachable [OF assms(1), of "it_encoded_key i" s] by auto
qed

section \<open>A page of one row\<close>

definition test_log :: dict where
  "test_log = [(lit ''call_id'', JStr (lit ''c''))]"

definition test_row :: json where
  "test_row = JObj [(lit ''score'', JInt 1001),
     (lit ''entry'', row_json (''tool_call:c'', encode_ascii (dumps_compact (JObj test_log)), 5))]"

definition view_of :: "json list \<Rightarrow> json \<Rightarrow> bytes \<Rightarrow> nat \<Rightarrow> (unit, reply) io" where
  "view_of rows token view_set n = ret \<lparr>re_status = 200, re_body = Some (JObj
     [(lit ''entries'', JArr (if view_set = VIEW_DECISION then rows else []))])\<rparr>"

definition test_audit_env :: "json list \<Rightarrow> (unit, bytes, bytes) cenv" where
  "test_audit_env rows = test_cenv\<lparr>ce_zscan := view_of rows\<rparr>"

lemma test_log_back: "loads_bytes (encode_ascii (dumps_compact (JObj test_log))) = Some (JObj test_log)"
  by (rule loads_bytes_compact) (simp add: test_log_def lit_def is_scalar_def is_surrogate_def)

lemma test_session: "ledger_session (test_audit_env rows) s = (Inr (JStr (lit ''t'')), s)"
  by (simp add: ledger_session_def immudb_login_def test_audit_env_def test_cenv_def bind_io_def lift_io_def
      text_b64_def utf8_encode_def lit_def is_scalar_def is_surrogate_def outside_def ret_def checked_body_def
      raise_for_status_def json_body_def dget_def dict_get_def)

lemma test_reserve: "assert_reserve_agrees (test_audit_env rows) t (test_cstate ()) = (Inr (), test_cstate ())"
  by (simp add: assert_reserve_agrees_def read_page_reserve_def bind_io_def cpeek_def test_cstate_def test_audit_env_def
      test_cenv_def outside_def ret_def lift_io_def checked_body_def raise_for_status_def json_body_def
      get_default_def dict_get_def)

lemma test_views:
  "read_views (test_audit_env [test_row]) t 100 s = (Inr (False, [test_row], []), s)"
proof -
  have "row_position (test_audit_env rows) test_row = Inr (1001, 5)" for rows
    using py_int_strip_show [of 5]
    by (simp add: row_position_def test_row_def dict_get_def item_def row_json_def json_int_def test_audit_env_def
        test_cenv_def lit_def)
  then show ?thesis
    by (simp add: read_views_def zscan_view_def bind_io_def test_audit_env_def view_of_def outside_def ret_def lift_io_def
        checked_body_def raise_for_status_def json_body_def get_default_def dict_get_def VIEW_DECISION_def VIEW_INTENT_def
        check_view_def assert_score_order_matches_commit_order_def page_limit_def scan_limit_def MAX_SCAN_LIMIT_def)
qed

lemma test_count: "ledger_decision_count (test_audit_env rows) t s = (Inr 0, s)"
proof -
  have "b64encode TOOL_CALL_PREFIX \<noteq> []" by (rule b64encode_nonempty) (simp add: TOOL_CALL_PREFIX_def)
  then show ?thesis
    by (simp add: ledger_decision_count_def bind_io_def test_audit_env_def test_cenv_def outside_def ret_def lift_io_def
        checked_body_def raise_for_status_def json_body_def get_default_def dict_get_def json_int_def)
qed

lemma test_decoded:
  "decode_entries (test_audit_env rows) [test_row] = [(JStr (b64encode ''tool_call:c''), JObj test_log, 5)]"
  using py_int_strip_show [of 5] test_log_back
  by (simp add: decode_entries_def decode_entry_def test_row_def item_def dict_get_def lit_def
      row_json_item [unfolded item_def lit_def] decode_json_def json_int_def test_audit_env_def test_cenv_def row_json_def
      get_default_def)

lemma test_ids:
  "page_call_ids (test_audit_env rows) [(k, JObj test_log, 5)] [] = Inr [(KStr (lit ''c''), JStr (lit ''c''))]"
  by (simp add: page_call_ids_def row_call_id_def test_log_def dget_def dict_get_def hash_key_def add_id_def lit_def)

lemma test_tombstoned:
  "tombstoned_call_ids (test_audit_env rows) t [(KStr (lit ''c''), JStr (lit ''c''))] s = (Inr {}, s)"
  by (simp add: tombstoned_call_ids_def sorted_ids_def is_text_def bind_io_def lift_io_def text_b64_def utf8_encode_def
      lit_def is_scalar_def is_surrogate_def test_audit_env_def test_cenv_def outside_def ret_def checked_body_def
      raise_for_status_def json_body_def get_default_def dict_get_def)

lemma test_txs: "traverse (row_tx (test_audit_env rows)) [test_row] = Inr [[5]]"
  using py_int_strip_show [of 5]
  by (simp add: row_tx_def test_row_def dget_def dict_get_def lit_def row_json_def get_default_def json_int_def
      test_audit_env_def test_cenv_def)

lemma test_faults: "page_faults 1 (test_audit_env rows) t [5] s = (Inr (Some []), s)"
  by (simp add: page_faults_def faults_in_tx_window_def bind_io_def test_audit_env_def test_cenv_def outside_def ret_def
      lift_io_def checked_body_def raise_for_status_def json_body_def get_default_def dict_get_def MAX_SCAN_LIMIT_def)

definition test_scan :: scan where
  "test_scan = \<lparr>sc_has_more = False, sc_decoded = [(JStr (b64encode ''tool_call:c''), JObj test_log, 5)],
     sc_intents = [], sc_tombstoned = {}, sc_faults = [], sc_count = 0\<rparr>"

lemma test_scanned:
  "scan_ledger 1 (test_audit_env [test_row]) 100 (test_cstate ()) = (Inr (Some test_scan), test_cstate ())"
  using test_faults [unfolded One_nat_def] test_txs
  by (simp add: scan_ledger_def bind_io_def test_session test_reserve test_views test_count test_decoded test_ids
      test_tombstoned lift_io_def ret_def test_scan_def)

lemma test_rows:
  "\<exists>e. audit_rows (test_audit_env [test_row]) test_scan False (test_cstate ()) =
     (Inr \<lparr>ap_entries = [e], ap_total = 0, ap_has_more = False, ap_verifier_reachable = True\<rparr>, test_cstate ())"
  by (simp add: audit_rows_def bind_io_def probe_verifier_reachable_def attempt_def outside_def test_audit_env_def
      test_cenv_def ret_def test_scan_def row_verification_def decision_row_def Let_def test_log_def dget_def dict_get_def
      content_row_def cpeek_def lift_io_def hash_key_def payload_state_def test_cstate_def lit_def)

lemma test_page:
  "\<exists>e. get_audit 1 (test_audit_env [test_row]) (lit ''r'') 100 False (test_cstate ()) =
     (Inr (Some (Inr \<lparr>ap_entries = [e], ap_total = 0, ap_has_more = False, ap_verifier_reachable = True\<rparr>)), test_cstate ())"
proof -
  have "page_require_read_key (test_audit_env [test_row]) (lit ''r'') = Inr ()" "ce_user (test_audit_env [test_row]) = Some (lit ''u'')"
    "ce_password (test_audit_env [test_row]) = Some (lit ''p'')" "lit ''u'' \<noteq> []" "lit ''p'' \<noteq> []"
    by (simp_all add: page_require_read_key_def test_audit_env_def test_cenv_def lit_def)
  then show ?thesis
    using test_rows test_scanned by (auto simp: get_audit_def attempt_def bind_io_def ret_def)
qed

definition test_down_env :: "(unit, bytes, bytes) cenv" where
  "test_down_env = test_cenv\<lparr>ce_verify := (\<lambda>_ _. raise_io (RpcError ''down''))\<rparr>"

definition test_intent :: "nat \<Rightarrow> call_key \<times> intent" where
  "test_intent n = (KStr [n], \<lparr>it_call_id = JStr [n], it_value = [], it_tx_id = int n, it_encoded_key = JStr [n]\<rparr>)"

definition test_orphans :: scan where
  "test_orphans = \<lparr>sc_has_more = False, sc_decoded = [], sc_intents = [test_intent 1, test_intent 2],
     sc_tombstoned = {}, sc_faults = [], sc_count = 0\<rparr>"

lemma test_orphan_rows:
  "\<exists>page. audit_rows test_down_env test_orphans True (test_cstate ()) = (Inr page, test_cstate ()) \<and>
     length (ap_entries page) = 2"
  by (simp add: audit_rows_def bind_io_def probe_verifier_reachable_def attempt_def outside_def test_down_env_def
      test_cenv_def ret_def test_orphans_def test_intent_def intent_row_def verify_one_key_def raise_io_def
      completed_call_ids_def content_row_def cpeek_def lift_io_def payload_state_def test_cstate_def dget_def dict_get_def
      lit_def)

section \<open>Properties\<close>

text \<open>
  A page is bounded whatever the limit asked for, the ledger and the services: at most
  twice the page limit, which is never above 2499, rows are served.
\<close>

theorem page_is_bounded:
  assumes "get_audit fuel env x_api_key limit verify s = (Inr (Some (Inr page)), s')"
  shows "length (ap_entries page) \<le> 2 * page_limit limit \<and> page_limit limit \<le> 2499"
proof -
  obtain sc s1 where "scan_ledger fuel env limit s = (Inr (Some sc), s1)" "audit_rows env sc verify s1 = (Inr page, s')"
    using get_audit_page [OF assms] .
  from scan_ledger_shape [OF this(1)] audit_rows_all [OF this(2)]
  have "length (ap_entries page) \<le> 2 * page_limit limit" by linarith
  then show ?thesis by (simp add: page_limit_def scan_limit_def MAX_SCAN_LIMIT_def)
qed

theorem page_is_bounded_witness:
  "\<exists>page s'. get_audit 1 (test_audit_env [test_row]) (lit ''r'') 100 False (test_cstate ()) = (Inr (Some (Inr page)), s') \<and>
     length (ap_entries page) = 1 \<and> length (ap_entries page) \<le> 2 * page_limit 100 \<and> page_limit 100 \<le> 2499"
proof -
  obtain e where p: "get_audit 1 (test_audit_env [test_row]) (lit ''r'') 100 False (test_cstate ()) =
     (Inr (Some (Inr \<lparr>ap_entries = [e], ap_total = 0, ap_has_more = False, ap_verifier_reachable = True\<rparr>)), test_cstate ())"
    using test_page by blast
  from page_is_bounded [OF p] p show ?thesis by auto
qed

text \<open>
  C21: no row says more than the services did. A row reads \<open>verified\<close> only if the verifier
  answered that very key with a proof, and a row shows a payload only as \<open>present\<close> and only
  when its call id is not among the tombstoned of the scan.
\<close>

theorem rows_say_no_more_than_the_services:
  assumes "scan_ledger fuel env limit s0 = (Inr (Some sc), s)"
    and "audit_rows env sc verify s = (Inr page, s')" "e \<in> set (ap_entries page)"
  shows "(vs_state (ae_verification e) = lit ''verified'' \<longrightarrow> verify \<and> proved_by_verifier env (ae_ledger_key e)) \<and>
    (ae_payload e \<noteq> JNull \<longrightarrow> ae_payload_state e = lit ''present'' \<and>
      (truthy (ae_call_id e) \<longrightarrow> (\<exists>k. hash_key env (ae_call_id e) = Inr k \<and> k \<notin> sc_tombstoned sc)))"
proof -
  consider "from_decision env sc verify e" | "from_intent env sc verify e"
    using audit_rows_all [OF assms(2)] assms(3) by blast
  then show ?thesis
  proof cases
    case 1
    then obtain key d tx v up up' s0 s1 s2 where r: "row_verification env verify up key s0 = (Inr (v, up'), s1)"
      "decision_row env sc key d tx v s1 = (Inr e, s2)" unfolding from_decision_def by blast
    have "vs_state v = lit ''verified'' \<longrightarrow> verify"
      using r(1) by (auto simp: row_verification_def ret_def deferred_verification_def split: if_splits)
    then show ?thesis using decision_row_says [OF r(2)] row_verification_verified [OF r(1)] by auto
  next
    case 2
    then obtain k i s1 s2 where i: "(k, i) \<in> set (sc_intents sc)" "intent_row env sc verify k i s1 = (Inr e, s2)"
      unfolding from_intent_def by blast
    have "hash_key env (it_call_id i) = Inr k"
      using scan_ledger_shape [OF assms(1)] i(1) by (auto simp: intents_keyed_def)
    moreover have "vs_state (ae_verification e) = lit ''verified'' \<longrightarrow> verify"
      using i(2) by (auto simp: intent_row_def ret_def deferred_verification_def bind_io_def split: if_splits
          sum.splits prod.splits)
    ultimately show ?thesis using intent_row_says [OF i(2)] by auto
  qed
qed

theorem rows_say_no_more_than_the_services_witness:
  "\<exists>e page. fst (audit_rows (test_audit_env [test_row]) test_scan False (test_cstate ())) = Inr page \<and>
     ap_entries page = [e] \<and> vs_state (ae_verification e) \<noteq> lit ''verified''"
proof -
  obtain e where p: "audit_rows (test_audit_env [test_row]) test_scan False (test_cstate ()) =
     (Inr \<lparr>ap_entries = [e], ap_total = 0, ap_has_more = False, ap_verifier_reachable = True\<rparr>, test_cstate ())"
    using test_rows by blast
  from rows_say_no_more_than_the_services [OF test_scanned p, of e] p show ?thesis by auto
qed

text \<open>
  A page that was not asked to verify claims nothing about any record and asks the verifier
  nothing but its health: every row is \<open>asserted\<close>, and the world moved only by the probe.
\<close>

theorem default_page_claims_nothing:
  assumes "audit_rows env sc False s = (Inr page, s')"
  shows "(\<forall>e \<in> set (ap_entries page). ae_verification e = deferred_verification) \<and>
    (\<exists>r. ce_health env (cworld s) = (r, cworld s'))"
proof
  show "\<forall>e \<in> set (ap_entries page). ae_verification e = deferred_verification"
  proof
    fix e assume "e \<in> set (ap_entries page)"
    then consider "from_decision env sc False e" | "from_intent env sc False e"
      using audit_rows_all [OF assms] by blast
    then show "ae_verification e = deferred_verification"
    proof cases
      case 1
      then show ?thesis
        by (auto simp: from_decision_def row_verification_def ret_def dest: decision_row_says)
    next
      case 2
      then show ?thesis
        by (auto simp: from_intent_def dest: intent_row_verification)
    qed
  qed
  obtain reachable s1 where "probe_verifier_reachable env s = (Inr reachable, s1)" "cworld s' = cworld s1"
    using assms unfolding audit_rows_def
    by (elim bind_InrE) (auto simp: ret_def dest!: decision_rows_deferred intent_rows_deferred)
  then show "\<exists>r. ce_health env (cworld s) = (r, cworld s')"
    by (auto simp: probe_verifier_reachable_def ret_def split: sum.splits elim!: attemptE outsideE)
qed

theorem default_page_claims_nothing_witness:
  "\<exists>e page. fst (audit_rows (test_audit_env [test_row]) test_scan False (test_cstate ())) = Inr page \<and>
     ap_entries page = [e] \<and> ae_verification e = deferred_verification"
proof -
  obtain e where p: "audit_rows (test_audit_env [test_row]) test_scan False (test_cstate ()) =
     (Inr \<lparr>ap_entries = [e], ap_total = 0, ap_has_more = False, ap_verifier_reachable = True\<rparr>, test_cstate ())"
    using test_rows by blast
  from default_page_claims_nothing [OF p] p show ?thesis by auto
qed

text \<open>
  The circuit breaker covers the decision rows only. With the verifier unreachable, the
  decision rows after the first are deferred without a call, and every row of an unfollowed
  intent still made its own call and reads \<open>unverifiable\<close>.
\<close>

theorem breaker_does_not_cover_intents:
  assumes "unreachable env exc" "audit_rows env sc True s = (Inr page, s')"
  shows "\<exists>ds is. ap_entries page = ds @ is \<and> length ds \<le> length (sc_decoded sc) \<and>
    (\<forall>e \<in> set (tl ds). ae_verification e = deferred_verification) \<and>
    (\<forall>e \<in> set is. from_intent env sc True e \<and> ae_verification e = unverifiable (DetailRaised exc))"
proof -
  obtain entries all s1 s2 s3 where
    d: "decision_rows env sc True True (sc_decoded sc) [] s1 = (Inr entries, s2)" and
    i: "intent_rows env sc True (completed_call_ids env entries) (sc_intents sc) entries s2 = (Inr all, s3)" and
    p: "ap_entries page = all"
    using assms(2) unfolding audit_rows_def by (auto simp: ret_def bind_io_def split: prod.splits sum.splits)
  obtain es where "all = entries @ es" "\<forall>e \<in> set es. from_intent env sc True e"
    using intent_rows_all [OF i] by auto
  moreover have "length entries \<le> length (sc_decoded sc)" using decision_rows_all [OF d] by auto
  ultimately show ?thesis
    using decision_rows_breaker [OF assms(1) d] intent_rows_unreachable [OF assms(1)] p by blast
qed

theorem breaker_does_not_cover_intents_witness:
  "\<exists>page s'. audit_rows test_down_env test_orphans True (test_cstate ()) = (Inr page, s') \<and>
     length (ap_entries page) = 2 \<and>
     (\<forall>e \<in> set (ap_entries page). ae_verification e = unverifiable (DetailRaised (RpcError ''down'')))"
proof -
  obtain page where p: "audit_rows test_down_env test_orphans True (test_cstate ()) = (Inr page, test_cstate ())"
    "length (ap_entries page) = 2" using test_orphan_rows by blast
  have u: "unreachable test_down_env (RpcError ''down'')" by (simp add: unreachable_def test_down_env_def raise_io_def)
  have "sc_decoded test_orphans = []" by (simp add: test_orphans_def)
  with breaker_does_not_cover_intents [OF u p(1)] p show ?thesis by auto
qed

text \<open>
  C22: one decision record whose value is JSON but not an object refuses every page it is on: a
  scan that succeeds has decoded every such row to an object with a hashable call id, so the
  row is not skipped as a malformed one is.
\<close>

theorem scanned_rows_are_objects:
  assumes "scan_ledger fuel env limit s = (Inr (Some sc), s')" "(key, j, tx) \<in> set (sc_decoded sc)"
  shows "\<exists>d. j = JObj d \<and> (truthy (dget d ''call_id'') \<longrightarrow> (\<exists>k. hash_key env (dget d ''call_id'') = Inr k))"
proof -
  obtain decoded "is" ids where "page_call_ids env decoded is = Inr ids" "sc_decoded sc = decoded"
    using assms(1) unfolding scan_ledger_def Let_def
    by (elim bind_InrE) (auto simp: lift_io_def ret_def elim!: bind_InrE split: prod.splits option.splits)
  then obtain found where "traverse (row_call_id env) (sc_decoded sc) = Inr found"
    by (auto simp: page_call_ids_def bind_sum_Inr_iff)
  then obtain c where "row_call_id env (key, j, tx) = Inr c" using traverse_Inr assms(2) by metis
  then show ?thesis by (auto simp: row_call_id_def bind_sum_Inr_iff get_field_Inr split: if_splits)
qed

theorem scanned_rows_are_objects_witness:
  "\<exists>key j tx. (key, j, tx) \<in> set (sc_decoded test_scan) \<and> (\<exists>d. j = JObj d)"
proof -
  have "(JStr (b64encode ''tool_call:c''), JObj test_log, 5) \<in> set (sc_decoded test_scan)" by (simp add: test_scan_def)
  from scanned_rows_are_objects [OF test_scanned this] this show ?thesis by blast
qed

end
