(* ===== verification/AuditOrder.thy ===== *)
theory AuditOrder
  imports AuditRows OrderedLedger
begin

text \<open>
  The order check of the audit page against the ordered write of the verifier: what the check
  accepts (a reference definition), that it accepts every page of a ledger whose transactions
  follow the protocol, and that such a page is the newest part of each view.
\<close>

section \<open>What the check accepts\<close>

definition falls :: "rat \<times> int \<Rightarrow> rat \<times> int \<Rightarrow> bool" where
  "falls a b \<longleftrightarrow> fst a > fst b \<and> snd a > snd b"

lemma falls_trans: "falls a b \<Longrightarrow> falls b c \<Longrightarrow> falls a c"
  by (auto simp: falls_def)

lemma adjacent_order_iff: "adjacent_order view rows = Inr () \<longleftrightarrow> sorted_wrt falls rows"
proof (induction view rows rule: adjacent_order.induct)
  case (1 view sa ta sb tb rows)
  show ?case
  proof (cases "falls (sa, ta) (sb, tb)")
    case True
    then have "(\<forall>r \<in> set rows. falls (sb, tb) r) \<Longrightarrow> (\<forall>r \<in> set rows. falls (sa, ta) r)"
      using falls_trans by blast
    then show ?thesis using 1 True by (auto simp: falls_def)
  qed (auto simp: falls_def)
qed simp_all

lemma adjacent_order_Inl:
  "adjacent_order view rows = Inl e \<Longrightarrow>
     \<exists>as a b bs. rows = as @ a # b # bs \<and> \<not> falls a b \<and> e = OrderingFault view a b"
proof (induction view rows rule: adjacent_order.induct)
  case (1 view sa ta sb tb rows)
  show ?case
  proof (cases "falls (sa, ta) (sb, tb)")
    case True
    then have "adjacent_order view ((sb, tb) # rows) = Inl e" using 1(2) by (simp add: falls_def)
    with 1(1) True obtain as a b bs where "(sb, tb) # rows = as @ a # b # bs" "\<not> falls a b" "e = OrderingFault view a b"
      by (auto simp: falls_def)
    then show ?thesis by (intro exI [of _ "(sa, ta) # as"]) auto
  next
    case False
    then have "e = OrderingFault view (sa, ta) (sb, tb)" using 1(2) by (auto simp: falls_def split: if_splits)
    then show ?thesis using False by (intro exI [of _ "[]"]) auto
  qed
qed simp_all

section \<open>The views of a ledger\<close>

text \<open>The entries of a set, newest position first.\<close>

definition newest_first :: "history \<Rightarrow> bytes \<Rightarrow> (rat \<times> int \<times> bytes \<times> bytes) list" where
  "newest_first h view_set = rev (sort_key fst (filter (\<lambda>(p, i, s, k). s = view_set) (positions h)))"

text \<open>What \<open>zscan\<close> gives of one: its score, and the current entry of its key.\<close>

definition zrow_of :: "('w, 'sk, 'vk) cenv \<Rightarrow> history \<Rightarrow> rat \<times> int \<times> bytes \<times> bytes \<Rightarrow> json \<Rightarrow> bool" where
  "zrow_of env h = (\<lambda>(p, i, s, k) raw. \<exists>d x v t. raw = JObj d \<and> dict_get d (lit ''score'') = Some x \<and>
     ce_float env x = Inr p \<and> lookup h k = Some (v, t) \<and> dict_get d (lit ''entry'') = Some (row_json (k, v, t)))"

definition zscan_exact :: "('w, 'sk, 'vk) cenv \<Rightarrow> ('w \<Rightarrow> history) \<Rightarrow> bool" where
  "zscan_exact env hist \<longleftrightarrow>
     (\<forall>token view_set n w. (\<forall>k \<in> members (hist w). lookup (hist w) k \<noteq> None) \<longrightarrow> (\<exists>re w' d raws. ce_zscan env token view_set n w = (Inr re, w') \<and> hist w' = hist w \<and>
        200 \<le> re_status re \<and> re_status re < 300 \<and> re_body re = Some (JObj d) \<and>
        get_default (JObj d) ''entries'' (JArr []) = Inr (JArr raws) \<and>
        list_all2 (zrow_of env (hist w)) (take n (newest_first (hist w) view_set)) raws))"

text \<open>Where the protocol was followed, the positions come in commit order.\<close>

lemma good_newest_first:
  assumes "good h"
  shows "newest_first h view_set = rev (filter (\<lambda>(p, i, s, k). s = view_set) (positions h))"
proof -
  have "sorted_wrt before (positions h)" using good_positions [OF assms] by simp
  then have "sorted (map fst (filter (\<lambda>(p, i, s, k). s = view_set) (positions h)))"
    unfolding sorted_wrt_map
    by (intro sorted_wrt_mono_rel [OF _ sorted_wrt_filter]) (auto simp: before_def)
  then have "sort_key fst (filter (\<lambda>(p, i, s, k). s = view_set) (positions h)) =
      filter (\<lambda>(p, i, s, k). s = view_set) (positions h)"
    by (rule sort_key_id_if_sorted)
  then show ?thesis by (simp add: newest_first_def)
qed

lemma zrow_position:
  assumes "good h" "e \<in> set (positions h)" "zrow_of env h e raw"
  shows "row_position env raw = Inr (fst e, fst (snd e))"
proof -
  obtain p i s k where e: "e = (p, i, s, k)" by (cases e)
  obtain d x v t where r: "raw = JObj d" "dict_get d (lit ''score'') = Some x" "ce_float env x = Inr p"
    "lookup h k = Some (v, t)" "dict_get d (lit ''entry'') = Some (row_json (k, v, t))"
    using assms(3) e by (auto simp: zrow_of_def)
  have "t = i" using good_positions [OF assms(1)] assms(2) e r(4) by (force simp: placed_def)
  moreover have "item (row_json (k, v, t)) ''tx'' = Inr (JStr (show_int t))"
    by (simp add: row_json_def item_def dict_get_def lit_def)
  moreover have "0 \<le> t" using lookup_bounds [OF r(4)] by linarith
  ultimately show ?thesis
    using r e py_int_strip_show [of t] by (simp add: row_position_def item_def json_int_def)
qed

lemma traverse_positions:
  assumes "good h" "list_all2 (zrow_of env h) es raws" "set es \<subseteq> set (positions h)"
  shows "traverse (row_position env) raws = Inr (map (\<lambda>e. (fst e, fst (snd e))) es)"
  using assms(2,3) by (induction rule: list_all2_induct) (auto simp: zrow_position [OF assms(1)])

lemma newest_first_falls:
  assumes "good h"
  shows "sorted_wrt falls (map (\<lambda>e. (fst e, fst (snd e))) (take n (newest_first h view_set)))"
proof -
  have "sorted_wrt before (filter (\<lambda>(p, i, s, k). s = view_set) (positions h))"
    using good_positions [OF assms] by (intro sorted_wrt_filter) simp
  then have "sorted_wrt (\<lambda>a b. falls (fst a, fst (snd a)) (fst b, fst (snd b))) (newest_first h view_set)"
    unfolding good_newest_first [OF assms] sorted_wrt_rev
    by (rule sorted_wrt_mono_rel [rotated]) (simp add: before_def falls_def)
  then show ?thesis unfolding sorted_wrt_map by (rule sorted_wrt_take)
qed

lemma check_view_good:
  assumes "good h" "list_all2 (zrow_of env h) (take n (newest_first h view_set)) raws"
  shows "check_view env raws view = Inr ()"
proof -
  have "set (take n (newest_first h view_set)) \<subseteq> set (positions h)"
    unfolding good_newest_first [OF assms(1)] by (auto dest: in_set_takeD)
  from traverse_positions [OF assms this] have "check_view env raws view =
    adjacent_order view (filter (\<lambda>(s, tx). s \<ge> FIRST_ALLOCATED_POSITION env)
      (map (\<lambda>e. (fst e, fst (snd e))) (take n (newest_first h view_set))))"
    by (simp add: check_view_def assert_score_order_matches_commit_order_def)
  then show ?thesis
    using sorted_wrt_filter [OF newest_first_falls [OF assms(1)]] by (simp add: adjacent_order_iff)
qed

lemma good_members_written: "good h \<Longrightarrow> \<forall>k \<in> members h. lookup h k \<noteq> None"
  using good_positions [of h] by (fastforce simp: positions_members placed_def)

lemma zscan_view_exact:
  assumes "zscan_exact env hist" "good (hist (cworld s))"
  shows "\<exists>raws s'. zscan_view env token view_set n s = (Inr (JArr raws), s') \<and> hist (cworld s') = hist (cworld s) \<and>
    list_all2 (zrow_of env (hist (cworld s))) (take n (newest_first (hist (cworld s)) view_set)) raws"
proof -
  obtain re w' d raws where "ce_zscan env token view_set n (cworld s) = (Inr re, w')" "hist w' = hist (cworld s)"
    "200 \<le> re_status re" "re_status re < 300" "re_body re = Some (JObj d)"
    "get_default (JObj d) ''entries'' (JArr []) = Inr (JArr raws)"
    "list_all2 (zrow_of env (hist (cworld s))) (take n (newest_first (hist (cworld s)) view_set)) raws"
    using assms(1) [unfolded zscan_exact_def, rule_format, of "cworld s" token view_set n]
      good_members_written [OF assms(2)] by blast
  then show ?thesis
    by (auto simp: zscan_view_def bind_io_def outside_def lift_io_def checked_body_def raise_for_status_def json_body_def)
qed

section \<open>Properties\<close>

text \<open>
  C20: the order check is the order it claims. It passes exactly when among the allocated
  positions every one above another also stands for a later transaction, not only the adjacent
  ones; otherwise it names two adjacent rows that disagree, under the view it was given.
\<close>

theorem order_check_is_the_order:
  "(assert_score_order_matches_commit_order env rows view = Inr () \<longleftrightarrow>
      sorted_wrt falls (filter (\<lambda>(s, tx). s \<ge> FIRST_ALLOCATED_POSITION env) rows)) \<and>
   (\<exists>r. assert_score_order_matches_commit_order env rows view = r \<and>
      (case r of Inr _ \<Rightarrow> True
       | Inl e \<Rightarrow> \<exists>as a b bs. filter (\<lambda>(s, tx). s \<ge> FIRST_ALLOCATED_POSITION env) rows = as @ a # b # bs \<and>
            \<not> falls a b \<and> e = OrderingFault view a b))"
  unfolding assert_score_order_matches_commit_order_def
  using adjacent_order_iff adjacent_order_Inl by (auto split: sum.split)

text \<open>
  C19: on a ledger whose every transaction followed the ordered-write protocol, no page is
  refused for its order, and the page is the newest of each view: the scan of the two views
  serves exactly the newest entries up to the page limit, and says there is more exactly when
  either view holds more than that.
\<close>

theorem good_ledger_serves_the_newest:
  assumes "good (hist (cworld s))" "zscan_exact env hist"
  shows "\<exists>es is s'. read_views env token limit s =
      (Inr (page_limit limit < length (newest_first (hist (cworld s)) VIEW_DECISION) \<or>
            page_limit limit < length (newest_first (hist (cworld s)) VIEW_INTENT), es, is), s') \<and>
    list_all2 (zrow_of env (hist (cworld s))) (take (page_limit limit) (newest_first (hist (cworld s)) VIEW_DECISION)) es \<and>
    list_all2 (zrow_of env (hist (cworld s))) (take (page_limit limit) (newest_first (hist (cworld s)) VIEW_INTENT)) is"
proof -
  let ?h = "hist (cworld s)" and ?n = "scan_limit limit" and ?m = "page_limit limit"
  obtain ds s1 where d: "zscan_view env token VIEW_DECISION ?n s = (Inr (JArr ds), s1)" "hist (cworld s1) = ?h"
    "list_all2 (zrow_of env ?h) (take ?n (newest_first ?h VIEW_DECISION)) ds"
    using zscan_view_exact [OF assms(2,1)] by blast
  obtain js s2 where j: "zscan_view env token VIEW_INTENT ?n s1 = (Inr (JArr js), s2)"
    "list_all2 (zrow_of env ?h) (take ?n (newest_first ?h VIEW_INTENT)) js"
    using zscan_view_exact [OF assms(2), of s1 token VIEW_INTENT ?n] d(2) assms(1) by auto
  have n: "?n = Suc ?m" by (simp add: page_limit_def scan_limit_def)
  have more: "length xs > ?m \<longleftrightarrow> length L > ?m" if "list_all2 (zrow_of env ?h) (take ?n L) xs" for L xs
    using list_all2_lengthD [OF that] by (auto simp: n)
  have part: "list_all2 (zrow_of env ?h) (take ?m L) (take ?m xs)" if "list_all2 (zrow_of env ?h) (take ?n L) xs" for L xs
    using list_all2_takeI [OF that, of ?m] by (simp add: n min_def)
  have "read_views env token limit s =
      (Inr (length ds > ?m \<or> length js > ?m, take ?m ds, take ?m js), s2)"
    using d(1) j(1) check_view_good [OF assms(1) d(3)] check_view_good [OF assms(1) j(2)]
    by (simp add: read_views_def bind_io_def lift_io_def ret_def)
  then show ?thesis using more part d(3) j(2) by auto
qed

text \<open>A gateway in memory whose scores are fractions.\<close>

definition fraction :: "json \<Rightarrow> exn + rat" where
  "fraction v = (case v of JArr [JInt a, JInt b] \<Rightarrow> Inr (Fract a b) | _ \<Rightarrow> Inl ValueError)"

definition zrow :: "history \<Rightarrow> rat \<times> int \<times> bytes \<times> bytes \<Rightarrow> json" where
  "zrow h = (\<lambda>(p, i, s, k). JObj
     [(lit ''score'', JArr [JInt (fst (quotient_of p)), JInt (snd (quotient_of p))]),
      (lit ''entry'', row_json (k, the (lookup h k)))])"

definition mem_view :: "json \<Rightarrow> bytes \<Rightarrow> nat \<Rightarrow> (history, reply) io" where
  "mem_view token view_set n h = (Inr \<lparr>re_status = 200, re_body = Some (JObj
     [(lit ''entries'', JArr (map (zrow h) (take n (newest_first h view_set))))])\<rparr>, h)"

definition test_views_env :: "(history, bytes, bytes) cenv" where
  "test_views_env = test_cenv\<lparr>ce_zscan := mem_view, ce_float := fraction\<rparr>"

lemma test_views_exact: "zscan_exact test_views_env id"
proof -
  have row: "zrow_of test_views_env h e (zrow h e)"
    if e: "e \<in> set (take n (newest_first h vs))" and m: "\<forall>k \<in> members h. lookup h k \<noteq> None" for h e n vs
  proof -
    obtain p i s k where k: "e = (p, i, s, k)" by (cases e)
    have "e \<in> set (positions h)" using e by (auto simp: newest_first_def dest!: in_set_takeD)
    then have "k \<in> members h" using k positions_members by blast
    then obtain v t where "lookup h k = Some (v, t)" using m by auto
    moreover have "fraction (JArr [JInt (fst (quotient_of p)), JInt (snd (quotient_of p))]) = Inr p"
      by (cases "quotient_of p") (simp add: fraction_def Fract_of_int_quotient quotient_of_div [symmetric])
    ultimately show ?thesis
      using k by (simp add: zrow_of_def zrow_def test_views_env_def dict_get_def lit_def)
  qed
  show ?thesis
    unfolding zscan_exact_def
    by (auto simp: test_views_env_def mem_view_def get_default_def dict_get_def list_all2_map2 list.rel_map
        intro!: list.rel_refl_strong row [unfolded test_views_env_def])
qed

theorem good_ledger_serves_the_newest_witness:
  "\<exists>es is s'. read_views test_views_env (JStr []) 100 (test_cstate
       [ordered_ops 1000 True ''tool_call:c'' ''v'' VIEW_DECISION 1001]) = (Inr (False, es, is), s') \<and>
     length es = 1 \<and> is = []"
proof -
  let ?h = "[] @ [ordered_ops 1000 True ''tool_call:c'' ''v'' VIEW_DECISION 1001]"
  have "ordered_step [] ''tool_call:c'' ''v'' VIEW_DECISION 1001
      (ordered_ops 1000 True ''tool_call:c'' ''v'' VIEW_DECISION 1001)"
    by (simp add: ordered_step_def SEQUENCE_KEY_def RESERVE_KEY_def FAULT_KEY_PREFIX_BYTES_def FAULT_KEY_PREFIX_def
        encode_ascii_def lit_def MAX_POSITION_def reserve_in_range_def)
  then have st: "good_step [] (ordered_ops 1000 True ''tool_call:c'' ''v'' VIEW_DECISION 1001)"
    "positions ?h = [(1001, 1, VIEW_DECISION, ''tool_call:c'')]"
    by (auto simp: good_step_def ordered_step_positions next_tx_def simp del: append_Nil)
  have "good ?h" by (rule good.snoc [OF good.empty st(1)])
  then have g: "good (id (cworld (test_cstate ?h)))" by (simp add: test_cstate_def)
  have "newest_first ?h VIEW_DECISION = [(1001, 1, VIEW_DECISION, ''tool_call:c'')]" "newest_first ?h VIEW_INTENT = []"
    unfolding newest_first_def st(2) by (simp_all add: VIEW_DECISION_def VIEW_INTENT_def)
  with good_ledger_serves_the_newest [OF g test_views_exact, of "JStr []" 100] show ?thesis
    by (auto simp: test_cstate_def page_limit_def scan_limit_def MAX_SCAN_LIMIT_def list_all2_Cons1)
qed

section \<open>A record that refuses its pages\<close>

definition list_row :: json where
  "list_row = JObj [(lit ''score'', JInt 1001), (lit ''entry'', row_json (''tool_call:c'', ''[]'', 5))]"

lemma list_value: "loads_bytes ''[]'' = Some (JArr [])"
  by code_simp

lemma list_row_scan: "scan_ledger 1 (test_audit_env [list_row]) 100 (test_cstate ()) = (Inl attribute_error, test_cstate ())"
proof -
  have pos: "row_position (test_audit_env rows) list_row = Inr (1001, 5)" for rows
    using py_int_strip_show [of 5]
    by (simp add: row_position_def list_row_def dict_get_def item_def row_json_def json_int_def test_audit_env_def
        test_cenv_def lit_def)
  have "read_views (test_audit_env [list_row]) t 100 s = (Inr (False, [list_row], []), s)" for t s
    using pos
    by (simp add: read_views_def zscan_view_def bind_io_def test_audit_env_def view_of_def outside_def ret_def lift_io_def
        checked_body_def raise_for_status_def json_body_def get_default_def dict_get_def VIEW_DECISION_def VIEW_INTENT_def
        check_view_def assert_score_order_matches_commit_order_def page_limit_def scan_limit_def MAX_SCAN_LIMIT_def)
  moreover have "decode_entries (test_audit_env rows) [list_row] = [(JStr (b64encode ''tool_call:c''), JArr [], 5)]" for rows
    using py_int_strip_show [of 5] list_value
    by (simp add: decode_entries_def decode_entry_def list_row_def item_def dict_get_def lit_def decode_json_def
        json_int_def test_audit_env_def test_cenv_def row_json_def get_default_def)
  moreover have "page_call_ids env [(k, JArr [], 5)] [] = Inl attribute_error" for env :: "(unit, bytes, bytes) cenv" and k
    by (simp add: page_call_ids_def row_call_id_def get_field_def get_default_def)
  ultimately show ?thesis
    by (simp add: scan_ledger_def bind_io_def test_session test_reserve test_count lift_io_def)
qed

text \<open>
  The ordered route accepts a decision record whose value is the JSON list \<open>[]\<close>, and the
  audit page that reads it is refused as a whole with a 503, where a record that is not JSON at
  all is skipped.
\<close>

theorem list_record_refuses_the_page:
  "refuse_reason_for_ordered_write ''tool_call:c'' ''[]'' = None \<and>
   fst (get_audit 1 (test_audit_env [list_row]) (lit ''r'') 100 False (test_cstate ())) =
     Inr (Some (Inl (AuditRefused (HTTPException 503))))"
proof
  show "refuse_reason_for_ordered_write ''tool_call:c'' ''[]'' = None"
    using list_value
    by (simp add: refuse_reason_for_ordered_write_def FAULT_KEY_PREFIX_BYTES_def FAULT_KEY_PREFIX_def encode_ascii_def lit_def)
  have "page_require_read_key (test_audit_env [list_row]) (lit ''r'') = Inr ()" "ce_user (test_audit_env [list_row]) = Some (lit ''u'')"
    "ce_password (test_audit_env [list_row]) = Some (lit ''p'')" "lit ''u'' \<noteq> []" "lit ''p'' \<noteq> []"
    by (simp_all add: page_require_read_key_def test_audit_env_def test_cenv_def lit_def)
  then show "fst (get_audit 1 (test_audit_env [list_row]) (lit ''r'') 100 False (test_cstate ())) =
     Inr (Some (Inl (AuditRefused (HTTPException 503))))"
    using list_row_scan by (simp add: get_audit_def attempt_def ret_def scan_refusal_def)
qed

end
