(* ===== verification/EvidenceBundle.thy ===== *)
theory EvidenceBundle
  imports ControlState
begin

text \<open>
  Anchors and evidence bundles of the control plane (\<open>/anchors\<close>, \<open>/anchors/latest\<close>,
  \<open>/audit/bundle\<close> in \<open>control_plane/main.py\<close>). A bundle is modelled as the JSON object
  it serves; the indented text of it is what \<open>json.dumps\<close> prints.
\<close>

section \<open>Recording anchors\<close>

record anchor_checkpoint =
  ac_db :: pystr
  ac_tx_id :: int
  ac_tx_hash :: pystr
  ac_signature :: pystr

record anchor_external =
  ax_log_url :: pystr
  ax_log_url_source :: pystr
  ax_log_index :: pystr
  ax_key_fingerprint :: pystr
  ax_payload_format :: pystr
  ax_entry :: dict

record anchor_request =
  aq_checkpoint :: anchor_checkpoint
  aq_external :: anchor_external

definition row_of_request :: "anchor_request \<Rightarrow> anchor_row" where
  "row_of_request payload =
     (let c = aq_checkpoint payload; x = aq_external payload
      in \<lparr>ar_tx_id = ac_tx_id c, ar_db = ac_db c, ar_tx_hash = ac_tx_hash c, ar_signature = ac_signature c,
          ar_log_url = ax_log_url x, ar_log_url_source = ax_log_url_source x, ar_log_index = ax_log_index x,
          ar_key_fingerprint = ax_key_fingerprint x, ar_payload_format = ax_payload_format x,
          ar_entry_json = dumps_compact (JObj (ax_entry x))\<rparr>)"

definition find_anchor :: "int \<Rightarrow> anchor_row list \<Rightarrow> anchor_row option" where
  "find_anchor tx rows = find (\<lambda>a. ar_tx_id a = tx) rows"

definition record_anchor ::
  "('w, 'sk, 'vk) cenv \<Rightarrow> pystr \<Rightarrow> anchor_request \<Rightarrow> ('w, 'sk, 'vk, http_error + bool) cio" where
  "record_anchor env x_api_key payload =
     (case page_require_write_key env x_api_key of
        Inl e \<Rightarrow> ret (Inl e)
      | Inr _ \<Rightarrow>
          bind_io (cpeek (\<lambda>s. find_anchor (ac_tx_id (aq_checkpoint payload)) (anchors s))) (\<lambda>existing.
            if existing \<noteq> None then ret (Inr False)
            else bind_io (db_commit env (anchors_update (\<lambda>rows. rows @ [row_of_request payload])))
                   (\<lambda>_. ret (Inr True))))"

text \<open>\<open>order_by(checkpoint_tx_id.desc()).first()\<close>\<close>

definition latest_anchor :: "('w, 'sk, 'vk) cstate \<Rightarrow> anchor_row option" where
  "latest_anchor s =
     (if anchors s = [] then None else Some (hd (sort_key (\<lambda>a. - ar_tx_id a) (anchors s))))"

definition entry_object :: "anchor_row \<Rightarrow> exn + json" where
  "entry_object a = of_option ValueError (loads (ar_entry_json a))"

definition anchor_as_dict :: "anchor_row \<Rightarrow> exn + dict" where
  "anchor_as_dict a =
     bind_sum (entry_object a) (\<lambda>entry. Inr
       [(lit ''checkpoint'', JObj
          [(lit ''db'', JStr (ar_db a)), (lit ''tx_id'', JInt (ar_tx_id a)),
           (lit ''tx_hash'', JStr (ar_tx_hash a)), (lit ''signature'', JStr (ar_signature a))]),
        (lit ''external'', JObj
          [(lit ''log_url'', JStr (ar_log_url a)), (lit ''log_url_source'', JStr (ar_log_url_source a)),
           (lit ''log_index'', JStr (ar_log_index a)),
           (lit ''anchor_key_fingerprint'', JStr (ar_key_fingerprint a)),
           (lit ''anchor_payload_format'', JStr (ar_payload_format a)),
           (lit ''transparency_log_entry'', entry)])])"

definition get_latest_anchor :: "('w, 'sk, 'vk) cenv \<Rightarrow> pystr \<Rightarrow> ('w, 'sk, 'vk, http_error + dict) cio" where
  "get_latest_anchor env x_api_key =
     (case page_require_read_key env x_api_key of
        Inl e \<Rightarrow> ret (Inl e)
      | Inr _ \<Rightarrow>
          bind_io (cpeek latest_anchor) (\<lambda>anchor. case anchor of
            None \<Rightarrow> ret (Inr [(lit ''anchored'', JBool False),
                              (lit ''detail'', JStr (lit ''no checkpoint has been anchored yet''))])
          | Some a \<Rightarrow> bind_io (lift_io (anchor_as_dict a)) (\<lambda>d. ret (Inr ((lit ''anchored'', JBool True) # d)))))"

section \<open>The record's class, read from its bytes\<close>

definition page_record_type_of :: "bytes \<Rightarrow> pystr" where
  "page_record_type_of raw_value =
     (case loads_bytes raw_value of
        Some (JObj value) \<Rightarrow>
          (case dget value ''record_type'' of
             JStr t \<Rightarrow>
               if t \<in> {lit ''content_erasure'', lit ''decision_intent''} then t
               else (case dget value ''outcome_type'' of
                       JStr u \<Rightarrow> if u \<in> {lit ''policy_allow'', lit ''policy_deny'', lit ''schema_deny'', lit ''fault''}
                                 then u else lit ''unknown''
                     | _ \<Rightarrow> lit ''unknown'')
           | _ \<Rightarrow> (case dget value ''outcome_type'' of
                       JStr u \<Rightarrow> if u \<in> {lit ''policy_allow'', lit ''policy_deny'', lit ''schema_deny'', lit ''fault''}
                                 then u else lit ''unknown''
                     | _ \<Rightarrow> lit ''unknown''))
      | _ \<Rightarrow> lit ''unknown'')"

section \<open>\<open>GET /audit/bundle\<close>\<close>

definition EVIDENCE_BUNDLE_FORMAT :: pystr where
  "EVIDENCE_BUNDLE_FORMAT = lit ''ail-evidence-bundle/2''"

definition ANCHOR_STATE_ANCHORED :: pystr where
  "ANCHOR_STATE_ANCHORED = lit ''anchored''"

definition ANCHOR_STATE_NOT_ANCHORED :: pystr where
  "ANCHOR_STATE_NOT_ANCHORED = lit ''not_anchored''"

definition not_anchored_detail :: pystr where
  "not_anchored_detail =
     lit (''no checkpoint covering this record has been submitted to a public '' @
          ''transparency log, so this bundle makes no claim of external '' @
          ''corroboration. The local proof chain above is unaffected.'')"

definition external_anchor_section :: "anchor_row option \<Rightarrow> exn + dict" where
  "external_anchor_section anchor =
     (case anchor of
        None \<Rightarrow> Inr [(lit ''state'', JStr ANCHOR_STATE_NOT_ANCHORED), (lit ''detail'', JStr not_anchored_detail)]
      | Some a \<Rightarrow>
          bind_sum (entry_object a) (\<lambda>entry. Inr
            [(lit ''state'', JStr ANCHOR_STATE_ANCHORED), (lit ''log_url'', JStr (ar_log_url a)),
             (lit ''log_url_source'', JStr (ar_log_url_source a)), (lit ''log_index'', JStr (ar_log_index a)),
             (lit ''anchor_key_fingerprint'', JStr (ar_key_fingerprint a)),
             (lit ''anchor_payload_format'', JStr (ar_payload_format a)),
             (lit ''transparency_log_entry'', entry)]))"

definition anchor_payload :: "anchor_row \<Rightarrow> json" where
  "anchor_payload a = JObj [(lit ''db'', JStr (ar_db a)), (lit ''tx_id'', JInt (ar_tx_id a)),
     (lit ''tx_hash'', JStr (ar_tx_hash a)), (lit ''signature'', JStr (ar_signature a))]"

text \<open>\<open>_call_verifier\<close>: any failure is a 503.\<close>

definition call_verifier ::
  "('w, 'sk, 'vk) cenv \<Rightarrow> pystr \<Rightarrow> json option \<Rightarrow> ('w, 'sk, 'vk, http_error + json) cio" where
  "call_verifier env key anchor =
     attempt (bind_io (outside (ce_verify env (JStr key) anchor)) (\<lambda>vr. lift_io (checked_body vr))) (\<lambda>r. case r of
       Inl exc \<Rightarrow> ret (Inl (HTTPException 503))
     | Inr vdata \<Rightarrow> ret (Inr vdata))"

text \<open>The proof that is exported, and the anchor it was made against if any.\<close>

definition proof_for_bundle ::
  "('w, 'sk, 'vk) cenv \<Rightarrow> pystr \<Rightarrow> anchor_row option \<Rightarrow>
   ('w, 'sk, 'vk, http_error + json \<times> anchor_row option) cio" where
  "proof_for_bundle env key anchor =
     (case anchor of
        None \<Rightarrow> bind_io (call_verifier env key None) (\<lambda>r. ret (map_sum id (\<lambda>v. (v, None)) r))
      | Some a \<Rightarrow>
          bind_io (call_verifier env key (Some (anchor_payload a))) (\<lambda>r. case r of
            Inl e \<Rightarrow> ret (Inl e)
          | Inr vdata \<Rightarrow>
              bind_io (lift_io (get_field vdata ''verified'')) (\<lambda>verified.
                if truthy verified then ret (Inr (vdata, Some a))
                else bind_io (lift_io (get_field vdata ''error_class'')) (\<lambda>error_class.
                       if error_class = JStr (lit ''anchor_precedes_record'')
                       then bind_io (call_verifier env key None) (\<lambda>r. ret (map_sum id (\<lambda>v. (v, None)) r))
                       else ret (Inr (vdata, None))))))"

definition bundle_object ::
  "pystr \<Rightarrow> pystr \<Rightarrow> dict \<Rightarrow> json \<Rightarrow> anchor_row option \<Rightarrow> exn + dict" where
  "bundle_object key now vdata proof anchor =
     bind_sum (of_option (KeyError (lit ''value'')) (dict_get vdata (lit ''value''))) (\<lambda>v.
       bind_sum (of_option ValueError (b64decode_json v)) (\<lambda>raw_value.
         bind_sum (get_field proof ''signing_key_fingerprint'') (\<lambda>fingerprint.
           bind_sum (external_anchor_section anchor) (\<lambda>external. Inr
             [(lit ''bundle_format'', JStr EVIDENCE_BUNDLE_FORMAT), (lit ''exported_at'', JStr (now @ lit ''Z'')),
              (lit ''exported_by'', JStr (lit ''ail-control-plane'')),
              (lit ''record'', JObj
                 [(lit ''ledger_key'', JStr key), (lit ''value'', v), (lit ''tx_id'', dget vdata ''tx_id''),
                  (lit ''timestamp'', dget vdata ''timestamp''),
                  (lit ''record_type'', JStr (page_record_type_of raw_value))]),
              (lit ''proof'', proof),
              (lit ''signing_key'', JObj [(lit ''fingerprint'', fingerprint)]),
              (lit ''external_anchor'', JObj external)]))))"

definition get_audit_bundle ::
  "('w, 'sk, 'vk) cenv \<Rightarrow> pystr \<Rightarrow> pystr \<Rightarrow> ('w, 'sk, 'vk, http_error + dict) cio" where
  "get_audit_bundle env x_api_key key =
     (case page_require_read_key env x_api_key of
        Inl e \<Rightarrow> ret (Inl e)
      | Inr _ \<Rightarrow>
          (case b64decode_validate key of
             None \<Rightarrow> ret (Inl (HTTPException 400))
           | Some raw_key \<Rightarrow>
               if raw_key = [] then ret (Inl (HTTPException 400))
               else bind_io (cpeek latest_anchor) (\<lambda>anchor.
                 bind_io (proof_for_bundle env key anchor) (\<lambda>r. case r of
                   Inl e \<Rightarrow> ret (Inl e)
                 | Inr (vdata, against) \<Rightarrow>
                     bind_io (lift_io (get_field vdata ''verified'')) (\<lambda>verified.
                       if \<not> truthy verified then ret (Inl (HTTPException 404))
                       else bind_io (lift_io (get_field vdata ''proof_material'')) (\<lambda>proof.
                         if \<not> truthy proof then ret (Inl (HTTPException 503))
                         else bind_io (cpeek (\<lambda>s. ce_now env (cworld s))) (\<lambda>now.
                           bind_io (lift_io (case vdata of JObj d \<Rightarrow> bundle_object key now d proof against
                             | _ \<Rightarrow> Inl attribute_error)) (\<lambda>bundle. ret (Inr bundle)))))))))"

section \<open>Anchors\<close>

lemma find_anchor_None: "find_anchor tx rows = None \<longleftrightarrow> tx \<notin> ar_tx_id ` set rows"
  by (auto simp: find_anchor_def find_None_iff)

lemma find_anchor_append: "find_anchor tx rows = Some a \<Longrightarrow> find_anchor tx (rows @ more_rows) = Some a"
  by (induction rows) (auto simp: find_anchor_def)

lemma latest_is_greatest:
  "case latest_anchor s of None \<Rightarrow> anchors s = []
   | Some a \<Rightarrow> a \<in> set (anchors s) \<and> (\<forall>b \<in> set (anchors s). ar_tx_id b \<le> ar_tx_id a)"
proof (cases "sort_key (\<lambda>a. - ar_tx_id a) (anchors s)")
  case Nil
  then have "anchors s = []" by (metis set_empty set_sort)
  then show ?thesis by (simp add: latest_anchor_def)
next
  case (Cons a as)
  then have ne: "anchors s \<noteq> []" by auto
  have "set (a # as) = set (anchors s)" by (simp flip: Cons)
  moreover have "sorted (map (\<lambda>a. - ar_tx_id a) (a # as))" by (simp flip: Cons)
  ultimately show ?thesis using Cons ne by (auto simp: latest_anchor_def)
qed

lemma record_anchor_cases:
  assumes "record_anchor env x_api_key payload s = (r, s')"
  shows "s' = s \<and> r \<noteq> Inr (Inr True) \<and> (r = Inr (Inr False) \<longrightarrow> find_anchor (ac_tx_id (aq_checkpoint payload)) (anchors s) \<noteq> None) \<or>
    r = Inr (Inr True) \<and> find_anchor (ac_tx_id (aq_checkpoint payload)) (anchors s) = None \<and>
    s' = s\<lparr>anchors := anchors s @ [row_of_request payload]\<rparr>"
  using assms
  by (auto simp: record_anchor_def bind_io_def cpeek_def cpoke_def ret_def raise_io_def db_commit_def
      split: sum.splits if_splits)

section \<open>Bundles\<close>

lemma external_state:
  "external_anchor_section against = Inr x \<Longrightarrow> dget x ''state'' = JStr ANCHOR_STATE_ANCHORED \<longleftrightarrow> against \<noteq> None"
  by (auto simp: external_anchor_section_def dget_def dict_get_def bind_sum_Inr_iff ANCHOR_STATE_ANCHORED_def
      ANCHOR_STATE_NOT_ANCHORED_def lit_def split: option.splits)

lemma bundle_object_external:
  "bundle_object key now d proof against = Inr b \<Longrightarrow>
     \<exists>x. dict_get b (lit ''external_anchor'') = Some (JObj x) \<and> external_anchor_section against = Inr x"
  by (auto simp: bundle_object_def bind_sum_Inr_iff dict_get_def lit_def)

lemma call_verifier_reply:
  assumes "call_verifier env key a s = (Inr (Inr v), s')"
  shows "\<exists>re w w'. ce_verify env (JStr key) a w = (Inr re, w') \<and> 200 \<le> re_status re \<and> re_status re < 300 \<and> re_body re = Some v"
proof -
  obtain re w w' where "ce_verify env (JStr key) a w = (Inr re, w')" "checked_body re = Inr v"
    using assms unfolding call_verifier_def
    by (elim attemptE) (auto simp: ret_def lift_io_def split: sum.splits elim!: bind_InrE outsideE)
  then show ?thesis
    by (auto simp: checked_body_def raise_for_status_def json_body_def of_option_def bind_sum_Inr_iff
        split: if_splits option.splits)
qed

lemma proof_for_bundle_reply:
  assumes "proof_for_bundle env key anchor s = (Inr (Inr (JObj d, against)), s')"
  shows "(against = None \<or> against = anchor \<and> truthy (dget d ''verified'')) \<and>
    (truthy (dget d ''verified'') \<longrightarrow> (\<exists>re w w'. ce_verify env (JStr key) (map_option anchor_payload against) w = (Inr re, w') \<and>
      200 \<le> re_status re \<and> re_status re < 300 \<and> re_body re = Some (JObj d)))"
proof (cases anchor)
  case None
  then obtain s1 where "call_verifier env key None s = (Inr (Inr (JObj d)), s1)" "against = None"
    using assms by (auto simp: proof_for_bundle_def ret_def map_sum_def split: sum.splits elim!: bind_InrE)
  then show ?thesis using call_verifier_reply by fastforce
next
  case (Some a)
  obtain r s1 where r: "call_verifier env key (Some (anchor_payload a)) s = (Inr r, s1)"
    using assms Some by (auto simp: proof_for_bundle_def elim!: bind_InrE)
  then obtain v where v: "r = Inr v" using assms Some by (cases r) (auto simp: proof_for_bundle_def bind_io_def ret_def)
  then have "(\<exists>e. v = JObj e)" using assms Some r by (auto simp: proof_for_bundle_def bind_io_def lift_io_def get_field_def
      get_default_def split: json.splits)
  then obtain e where e: "v = JObj e" by blast
  have run: "(if truthy (dget e ''verified'') then (Inr (Inr (v, Some a)), s1)
     else if dget e ''error_class'' = JStr (lit ''anchor_precedes_record'')
     then bind_io (call_verifier env key None) (\<lambda>r. ret (map_sum id (\<lambda>v. (v, None)) r)) s1
     else (Inr (Inr (v, None)), s1)) = (Inr (Inr (JObj d, against)), s')"
    using assms Some r v e by (simp add: proof_for_bundle_def bind_io_def lift_io_def ret_def split: if_splits)
  show ?thesis
  proof (cases "truthy (dget e ''verified'')")
    case True
    then have "d = e" "against = Some a" using run e by auto
    then show ?thesis using True e Some call_verifier_reply [OF r [unfolded v]] by simp
  next
    case False
    then consider s2 where "call_verifier env key None s1 = (Inr (Inr (JObj d)), s2)" "against = None"
      | "d = e" "against = None"
      using run e by (auto simp: ret_def map_sum_def split: if_splits sum.splits elim!: bind_InrE)
    then show ?thesis
    proof cases
      case 1
      then show ?thesis using call_verifier_reply [OF 1(1)] by simp
    qed (use False in simp)
  qed
qed

lemma get_audit_bundleE:
  assumes "get_audit_bundle env x_api_key key s = (Inr (Inr b), s')"
  obtains d against now s1 where "proof_for_bundle env key (latest_anchor s) s = (Inr (Inr (JObj d, against)), s1)"
    "truthy (dget d ''verified'')" "truthy (dget d ''proof_material'')"
    "bundle_object key now d (dget d ''proof_material'') against = Inr b" "b64decode_validate key \<noteq> None"
  using assms unfolding get_audit_bundle_def
  by (auto simp: ret_def cpeek_def lift_io_def get_field_Inr split: sum.splits option.splits if_splits prod.splits
      elim!: bind_InrE)

section \<open>A first anchor and a proved record\<close>

definition test_request :: anchor_request where
  "test_request = \<lparr>aq_checkpoint = \<lparr>ac_db = [], ac_tx_id = 7, ac_tx_hash = [], ac_signature = []\<rparr>,
     aq_external = \<lparr>ax_log_url = [], ax_log_url_source = [], ax_log_index = [], ax_key_fingerprint = [],
       ax_payload_format = [], ax_entry = []\<rparr>\<rparr>"

definition test_proving_env :: "(unit, bytes, bytes) cenv" where
  "test_proving_env = test_cenv\<lparr>ce_verify := (\<lambda>_ _. ret \<lparr>re_status = 200, re_body = Some (JObj
     [(lit ''verified'', JBool True), (lit ''value'', JStr (b64encode ''v'')),
      (lit ''proof_material'', JObj [(lit ''prove_since_tx'', JInt 1)])])\<rparr>)\<rparr>"

lemma test_bundle:
  "\<exists>b. get_audit_bundle test_proving_env (lit ''r'') (b64encode ''k'') (test_cstate ()) = (Inr (Inr b), test_cstate ())"
  by (simp add: get_audit_bundle_def page_require_read_key_def test_proving_env_def test_cenv_def bind_io_def cpeek_def
      latest_anchor_def test_cstate_def proof_for_bundle_def call_verifier_def attempt_def outside_def ret_def lift_io_def
      checked_body_def raise_for_status_def json_body_def dget_def dict_get_def bundle_object_def
      external_anchor_section_def get_default_def lit_def)

section \<open>Properties\<close>

text \<open>
  C24: the anchors are append-only. Recording one never changes or removes a row, the transactions
  of the rows stay distinct, the table changes exactly when the route says \<open>recorded\<close>, and
  the latest anchor is the one of the greatest transaction.
\<close>

theorem anchors_are_append_only:
  assumes "record_anchor env x_api_key payload s = (r, s')" "distinct (map ar_tx_id (anchors s))"
  shows "(\<exists>rows. anchors s' = anchors s @ rows \<and> (rows \<noteq> [] \<longleftrightarrow> r = Inr (Inr True))) \<and>
    distinct (map ar_tx_id (anchors s')) \<and>
    (\<forall>tx a. find_anchor tx (anchors s) = Some a \<longrightarrow> find_anchor tx (anchors s') = Some a) \<and>
    (\<forall>b. r = Inr (Inr b) \<longrightarrow> (\<exists>a m. find_anchor (ac_tx_id (aq_checkpoint payload)) (anchors s') = Some a \<and>
       latest_anchor s' = Some m \<and> (\<forall>x \<in> set (anchors s'). ar_tx_id x \<le> ar_tx_id m)))"
proof -
  have tx: "ar_tx_id (row_of_request payload) = ac_tx_id (aq_checkpoint payload)"
    by (simp add: row_of_request_def Let_def)
  note c = record_anchor_cases [OF assms(1)]
  have shape: "(\<exists>rows. anchors s' = anchors s @ rows \<and> (rows \<noteq> [] \<longleftrightarrow> r = Inr (Inr True)))"
    using c by auto
  moreover have "distinct (map ar_tx_id (anchors s'))"
    using c assms(2) by (auto simp: find_anchor_None tx)
  moreover have "\<forall>tx a. find_anchor tx (anchors s) = Some a \<longrightarrow> find_anchor tx (anchors s') = Some a"
    using shape find_anchor_append by auto
  moreover have "\<exists>a m. find_anchor (ac_tx_id (aq_checkpoint payload)) (anchors s') = Some a \<and>
       latest_anchor s' = Some m \<and> (\<forall>x \<in> set (anchors s'). ar_tx_id x \<le> ar_tx_id m)" if "r = Inr (Inr b)" for b
  proof -
    have "ac_tx_id (aq_checkpoint payload) \<in> ar_tx_id ` set (anchors s')"
      using c that by (auto simp: find_anchor_None tx)
    then obtain a where "find_anchor (ac_tx_id (aq_checkpoint payload)) (anchors s') = Some a"
      using find_anchor_None by (metis not_None_eq)
    moreover have "anchors s' \<noteq> []" using calculation by (auto simp: find_anchor_def)
    ultimately show ?thesis using latest_is_greatest [of s'] by (auto split: option.splits)
  qed
  ultimately show ?thesis by blast
qed

theorem anchors_are_append_only_witness:
  "\<exists>r s'. record_anchor test_cenv (lit ''w'') test_request (test_cstate ()) = (r, s') \<and> r = Inr (Inr True) \<and>
     (\<exists>rows. anchors s' = [] @ rows \<and> rows \<noteq> []) \<and> distinct (map ar_tx_id (anchors s'))"
proof -
  obtain r s' where run: "record_anchor test_cenv (lit ''w'') test_request (test_cstate ()) = (r, s')" by fastforce
  have "r = Inr (Inr True)"
    using run by (simp add: record_anchor_def page_require_write_key_def test_cenv_def lit_def bind_io_def cpeek_def
        test_cstate_def find_anchor_def db_commit_def cpoke_def ret_def)
  moreover have "distinct (map ar_tx_id (anchors (test_cstate ())))" by (simp add: test_cstate_def)
  ultimately show ?thesis using anchors_are_append_only [OF run] run by (auto simp: test_cstate_def)
qed

text \<open>
  C23: a bundle claims what was proved. It is exported only on an answer of the verifier that the
  record is verified, with that answer's value and proof, and it says \<open>anchored\<close> exactly when
  the proof was made against the newest anchor, which is then the one it carries.
\<close>

theorem bundle_claims_what_was_proved:
  assumes "get_audit_bundle env x_api_key key s = (Inr (Inr b), s')"
  shows "\<exists>against re w w' d now x. ce_verify env (JStr key) (map_option anchor_payload against) w = (Inr re, w') \<and>
    200 \<le> re_status re \<and> re_status re < 300 \<and> re_body re = Some (JObj d) \<and>
    truthy (dget d ''verified'') \<and> truthy (dget d ''proof_material'') \<and>
    (against = None \<or> against = latest_anchor s) \<and>
    bundle_object key now d (dget d ''proof_material'') against = Inr b \<and>
    dict_get b (lit ''external_anchor'') = Some (JObj x) \<and>
    (dget x ''state'' = JStr ANCHOR_STATE_ANCHORED \<longleftrightarrow> against \<noteq> None)"
proof -
  obtain d against now s1 where p: "proof_for_bundle env key (latest_anchor s) s = (Inr (Inr (JObj d, against)), s1)"
    and v: "truthy (dget d ''verified'')" "truthy (dget d ''proof_material'')"
    and o: "bundle_object key now d (dget d ''proof_material'') against = Inr b"
    using assms by (rule get_audit_bundleE)
  from bundle_object_external [OF o] external_state proof_for_bundle_reply [OF p] v o show ?thesis by metis
qed

theorem bundle_claims_what_was_proved_witness:
  "\<exists>b s' x. get_audit_bundle test_proving_env (lit ''r'') (b64encode ''k'') (test_cstate ()) = (Inr (Inr b), s') \<and>
     dict_get b (lit ''external_anchor'') = Some (JObj x) \<and> dget x ''state'' \<noteq> JStr ANCHOR_STATE_ANCHORED"
proof -
  obtain b s' where run: "get_audit_bundle test_proving_env (lit ''r'') (b64encode ''k'') (test_cstate ()) = (Inr (Inr b), s')"
    using test_bundle by blast
  have "latest_anchor (test_cstate ()) = None" by (simp add: latest_anchor_def test_cstate_def)
  with bundle_claims_what_was_proved [OF run] run show ?thesis by auto
qed

end
