(* ===== verification/OfflineChecker.thy ===== *)
theory OfflineChecker
  imports ControlState PyKey
begin

text \<open>
  The offline evidence-bundle checker (\<open>tools/ail_verify_bundle.py\<close>). A check either gives
  what it established, raises \<open>BundleCheckFailed\<close> with its result class, or lets another
  exception through (\<open>Escaped\<close>). The client library's proof verification, the ECDSA
  library, sigstore and the files are fields of \<open>ckenv\<close>; the canonical forms and the
  record's label are this tool's own copies of the services' rules.
\<close>

section \<open>Formats and outcomes\<close>

definition BUNDLE_FORMAT :: pystr where
  "BUNDLE_FORMAT = lit ''ail-evidence-bundle/2''"

definition CK_PROOF_MATERIAL_FORMAT :: pystr where
  "CK_PROOF_MATERIAL_FORMAT = lit ''ail-proof-material/2''"

definition CK_RECORD_SIGNATURE_FORMAT :: pystr where
  "CK_RECORD_SIGNATURE_FORMAT = lit ''ail-record-signature/1''"

definition CK_SIGNATURE_FIELD :: string where
  "CK_SIGNATURE_FIELD = ''writer_signature''"

definition CK_FINGERPRINT_FIELD :: string where
  "CK_FINGERPRINT_FIELD = ''writer_key_fingerprint''"

definition SIGNATURE_FORMAT_FIELD :: string where
  "SIGNATURE_FORMAT_FIELD = ''writer_signature_format''"

definition CK_ANCHOR_PAYLOAD_FORMAT :: pystr where
  "CK_ANCHOR_PAYLOAD_FORMAT = lit ''ail-immudb-state-anchor/1''"

definition CK_ANCHOR_STATE_ANCHORED :: pystr where
  "CK_ANCHOR_STATE_ANCHORED = lit ''anchored''"

definition CK_ANCHOR_STATE_NOT_ANCHORED :: pystr where
  "CK_ANCHOR_STATE_NOT_ANCHORED = lit ''not_anchored''"

text \<open>\<open>RESULT_CLASSES\<close> but for \<open>verified\<close>, which no failure carries.\<close>

datatype result_class =
    CONSISTENCY_FAILURE
  | SIGNATURE_FAILURE
  | RECORD_MISMATCH
  | KEY_MISMATCH
  | MALFORMED_BUNDLE
  | WRITER_SIGNATURE_MISSING
  | WRITER_SIGNATURE_FAILURE
  | WRITER_KEY_UNKNOWN
  | WRITER_KEY_REVOKED
  | ANCHOR_FAILURE
  | ANCHOR_KEY_UNKNOWN
  | ANCHOR_UNCHECKED

datatype check_error = BundleCheckFailed result_class | Escaped exn

type_synonym 'a check = "check_error + 'a"

abbreviation failed :: "result_class \<Rightarrow> 'a check" where
  "failed c \<equiv> Inl (BundleCheckFailed c)"

text \<open>A step whose exceptions the checker does not catch.\<close>

definition escaping :: "(exn + 'a) \<Rightarrow> 'a check" where
  "escaping r = map_sum Escaped id r"

text \<open>\<open>except Exception\<close>: every exception but the end of the process becomes the failure \<open>c\<close>.\<close>

definition rejecting :: "result_class \<Rightarrow> (exn + 'a) \<Rightarrow> 'a check" where
  "rejecting c r =
     (case r of
        Inl (SystemExit e) \<Rightarrow> Inl (Escaped (SystemExit e))
      | Inl _ \<Rightarrow> failed c
      | Inr x \<Rightarrow> Inr x)"

definition on_bad_signature :: "result_class \<Rightarrow> (exn + 'a) \<Rightarrow> 'a check" where
  "on_bad_signature c r =
     (case r of
        Inl (BadSignatureError _) \<Rightarrow> failed c
      | Inl e \<Rightarrow> Inl (Escaped e)
      | Inr x \<Rightarrow> Inr x)"

section \<open>What the checker is given\<close>

text \<open>The anchor of the proof, as the client library's \<open>State\<close>, and a proven entry.\<close>

record bundle_anchor =
  ba_db :: json
  ba_tx :: int
  ba_hash :: bytes
  ba_sig :: bytes

record proven_entry =
  pe_verified :: bool
  pe_id :: int
  pe_key :: bytes
  pe_value :: bytes
  pe_timestamp :: int

record ('sk, 'vk) ckenv =
  ck_crypto :: "('sk, 'vk) crypto"
  ck_float :: "pystr \<Rightarrow> rat option"
  ck_repr :: "json \<Rightarrow> pystr"
  ck_read_text :: "pystr \<Rightarrow> exn + pystr"
  ck_load_pem :: "pystr \<Rightarrow> exn + 'vk"
  ck_parse_entry :: "bytes \<Rightarrow> bool"
  ck_verify_state :: "'vk \<Rightarrow> bundle_anchor \<Rightarrow> exn + unit"
  ck_verified_get :: "bytes \<Rightarrow> bundle_anchor \<Rightarrow> bytes \<Rightarrow> 'vk \<Rightarrow> exn + proven_entry"
  ck_ecdsa_verify :: "'vk \<Rightarrow> bytes \<Rightarrow> bytes \<Rightarrow> exn + unit"
  ck_sigstore :: bool
  ck_log_verify :: "pystr \<Rightarrow> json \<Rightarrow> exn + unit"

text \<open>\<open>int(v)\<close> and \<open>str(v)\<close> of a JSON value.\<close>

definition ck_int :: "('sk, 'vk) ckenv \<Rightarrow> json \<Rightarrow> exn + int" where
  "ck_int env v =
     (case v of
        JInt i \<Rightarrow> Inr i
      | JBool b \<Rightarrow> Inr (if b then 1 else 0)
      | JStr s \<Rightarrow> of_option ValueError (py_int (strip s))
      | JFloat f \<Rightarrow> (case ck_float env f of
            None \<Rightarrow> Inl (if f = lit ''NaN'' then ValueError else Foreign ''OverflowError'' [])
          | Some q \<Rightarrow> Inr (if 0 \<le> q then \<lfloor>q\<rfloor> else \<lceil>q\<rceil>))
      | _ \<Rightarrow> Inl TypeError)"

definition ck_str :: "('sk, 'vk) ckenv \<Rightarrow> json \<Rightarrow> pystr" where
  "ck_str env v = (case v of JStr s \<Rightarrow> s | JInt i \<Rightarrow> show_int i | _ \<Rightarrow> ck_repr env v)"

section \<open>Loading\<close>

definition ck_key_fingerprint :: "('sk, 'vk) ckenv \<Rightarrow> 'vk \<Rightarrow> pystr" where
  "ck_key_fingerprint env vk =
     lit ''sha256:'' @ hexdigest (sha256 (ck_crypto env) (to_der (ck_crypto env) vk))"

definition load_key :: "('sk, 'vk) ckenv \<Rightarrow> pystr \<Rightarrow> 'vk check" where
  "load_key env key_path = map_sum (\<lambda>_. BundleCheckFailed MALFORMED_BUNDLE) id (ck_load_pem env key_path)"

fun load_writer_keys :: "('sk, 'vk) ckenv \<Rightarrow> pystr list \<Rightarrow> (pystr \<times> 'vk) list \<Rightarrow> (pystr \<times> 'vk) list check" where
  "load_writer_keys env [] keys = Inr keys"
| "load_writer_keys env (path # paths) keys =
     bind_sum (load_key env path) (\<lambda>vk.
       load_writer_keys env paths (assoc_set keys (ck_key_fingerprint env vk) vk))"

type_synonym deny_list = "(call_key \<times> json) list"

definition no_reason :: json where
  "no_reason = JStr (lit ''no reason recorded'')"

fun deny_entries :: "('sk, 'vk) ckenv \<Rightarrow> json list \<Rightarrow> deny_list \<Rightarrow> deny_list check" where
  "deny_entries env [] denied = Inr denied"
| "deny_entries env (entry # entries) denied =
     (case entry of
        JObj e \<Rightarrow>
          if \<not> truthy (dget e ''fingerprint'') then failed MALFORMED_BUNDLE
          else bind_sum (escaping (key_of (ck_float env) (dget e ''fingerprint''))) (\<lambda>k.
                 deny_entries env entries
                   (assoc_set denied k (if truthy (dget e ''reason'') then dget e ''reason'' else no_reason)))
      | _ \<Rightarrow> failed MALFORMED_BUNDLE)"

definition load_deny_list :: "('sk, 'vk) ckenv \<Rightarrow> pystr option \<Rightarrow> deny_list check" where
  "load_deny_list env path =
     (case path of
        None \<Rightarrow> Inr []
      | Some p \<Rightarrow>
          if p = [] then Inr []
          else (case bind_sum (ck_read_text env p) (\<lambda>t. of_option ValueError (loads t)) of
                  Inl _ \<Rightarrow> failed MALFORMED_BUNDLE
                | Inr data \<Rightarrow>
                    (case data of
                       JObj d \<Rightarrow> (case dget d ''revoked'' of
                           JArr entries \<Rightarrow> deny_entries env entries []
                         | _ \<Rightarrow> failed MALFORMED_BUNDLE)
                     | _ \<Rightarrow> failed MALFORMED_BUNDLE)))"

definition label_of_fields :: "json \<Rightarrow> json \<Rightarrow> pystr" where
  "label_of_fields record_type outcome_type =
     (if record_type \<in> {JStr (lit ''content_erasure''), JStr (lit ''decision_intent'')}
      then (case record_type of JStr t \<Rightarrow> t | _ \<Rightarrow> lit ''unknown'')
      else if outcome_type \<in> {JStr (lit ''policy_allow''), JStr (lit ''policy_deny''),
                              JStr (lit ''schema_deny''), JStr (lit ''fault'')}
      then (case outcome_type of JStr t \<Rightarrow> t | _ \<Rightarrow> lit ''unknown'')
      else lit ''unknown'')"

definition record_type_of :: "bytes \<Rightarrow> pystr" where
  "record_type_of raw_value =
     (case loads_bytes raw_value of
        Some (JObj v) \<Rightarrow> label_of_fields (dget v ''record_type'') (dget v ''outcome_type'')
      | _ \<Rightarrow> lit ''unknown'')"

definition require_field :: "json \<Rightarrow> string \<Rightarrow> json check" where
  "require_field mapping field =
     (case mapping of
        JObj d \<Rightarrow> of_option (BundleCheckFailed MALFORMED_BUNDLE) (dict_get d (lit field))
      | _ \<Rightarrow> failed MALFORMED_BUNDLE)"

definition ck_b64 :: "json \<Rightarrow> bytes check" where
  "ck_b64 v =
     (case v of
        JStr s \<Rightarrow> of_option (BundleCheckFailed MALFORMED_BUNDLE) (b64decode_validate s)
      | _ \<Rightarrow> failed MALFORMED_BUNDLE)"

definition is_os_error :: "exn \<Rightarrow> bool" where
  "is_os_error e = (case e of Foreign c _ \<Rightarrow> c = ''OSError'' | _ \<Rightarrow> False)"

definition load_bundle :: "('sk, 'vk) ckenv \<Rightarrow> pystr \<Rightarrow> json check" where
  "load_bundle env bundle_path =
     (case ck_read_text env bundle_path of
        Inl e \<Rightarrow> if is_os_error e then failed MALFORMED_BUNDLE else Inl (Escaped e)
      | Inr raw \<Rightarrow>
          (case loads raw of
             Some (JObj d) \<Rightarrow>
               if dget d ''bundle_format'' \<noteq> JStr BUNDLE_FORMAT then failed MALFORMED_BUNDLE
               else if (case dget d ''proof'' of JObj p \<Rightarrow> dget p ''format'' | _ \<Rightarrow> JNull)
                         \<noteq> JStr CK_PROOF_MATERIAL_FORMAT
                 then failed MALFORMED_BUNDLE
               else Inr (JObj d)
           | _ \<Rightarrow> failed MALFORMED_BUNDLE))"

section \<open>The writer's signature\<close>

text \<open>\<open>keys.get(fingerprint)\<close>\<close>

definition held_key :: "(pystr \<times> 'vk) list \<Rightarrow> call_key \<Rightarrow> (pystr \<times> 'vk) option" where
  "held_key keys k = (case k of KStr fp \<Rightarrow> map_option (Pair fp) (map_of keys fp) | _ \<Rightarrow> None)"

definition ck_canonical_record_bytes :: "dict \<Rightarrow> bytes" where
  "ck_canonical_record_bytes rec =
     (let payload = filter (\<lambda>(k, v). k \<noteq> lit CK_SIGNATURE_FIELD) rec
      in encode_ascii (dumps_canonical (JObj payload)))"

definition verify_writer_signature ::
  "('sk, 'vk) ckenv \<Rightarrow> json option \<Rightarrow> (pystr \<times> 'vk) list \<Rightarrow> deny_list \<Rightarrow> pystr check" where
  "verify_writer_signature env proven writer_keys deny_list =
     (case proven of
        Some (JObj rec) \<Rightarrow>
          (let signature_b64 = dget rec CK_SIGNATURE_FIELD;
               fingerprint = dget rec CK_FINGERPRINT_FIELD
           in if \<not> truthy signature_b64 \<or> \<not> truthy fingerprint then failed WRITER_SIGNATURE_MISSING
              else if dget rec SIGNATURE_FORMAT_FIELD \<noteq> JStr CK_RECORD_SIGNATURE_FORMAT
                then failed MALFORMED_BUNDLE
              else bind_sum (escaping (key_of (ck_float env) fingerprint)) (\<lambda>k.
                if k \<in> fst ` set deny_list then failed WRITER_KEY_REVOKED
                else case held_key writer_keys k of
                  None \<Rightarrow> failed WRITER_KEY_UNKNOWN
                | Some (fp, vk) \<Rightarrow>
                    bind_sum (ck_b64 signature_b64) (\<lambda>signature.
                      bind_sum (rejecting WRITER_SIGNATURE_FAILURE
                          (ck_ecdsa_verify env vk signature (ck_canonical_record_bytes rec))) (\<lambda>_. Inr fp))))
      | _ \<Rightarrow> failed WRITER_SIGNATURE_MISSING)"

section \<open>The external anchor\<close>

definition ck_canonical_anchor_bytes :: "json \<Rightarrow> int \<Rightarrow> json \<Rightarrow> json \<Rightarrow> bytes" where
  "ck_canonical_anchor_bytes db tx_id tx_hash_b64 signature_b64 =
     encode_ascii (dumps_canonical (JObj
       [(lit ''anchor_payload_format'', JStr CK_ANCHOR_PAYLOAD_FORMAT), (lit ''db'', db),
        (lit ''tx_id'', JInt tx_id), (lit ''tx_hash'', tx_hash_b64), (lit ''signature'', signature_b64)]))"

definition ck_anchor_payload_digest :: "('sk, 'vk) ckenv \<Rightarrow> bytes \<Rightarrow> bytes" where
  "ck_anchor_payload_digest env payload = sha256 (ck_crypto env) payload"

definition hashedrekord_body :: "json \<Rightarrow> dict check" where
  "hashedrekord_body entry =
     bind_sum (escaping (get_field entry ''canonicalizedBody'')) (\<lambda>body_b64.
       if \<not> truthy body_b64 then failed ANCHOR_FAILURE
       else case Option.bind (b64decode_json body_b64) loads_detect of
         None \<Rightarrow> failed ANCHOR_FAILURE
       | Some (JObj b) \<Rightarrow>
           bind_sum (escaping (get_field (or_empty (dget b ''spec'')) ''hashedRekordV002'')) (\<lambda>spec.
             case spec of JObj sp \<Rightarrow> Inr sp | _ \<Rightarrow> failed ANCHOR_FAILURE)
       | Some _ \<Rightarrow> Inl (Escaped attribute_error))"

fun matching_logs :: "('sk, 'vk) ckenv \<Rightarrow> json \<Rightarrow> json list \<Rightarrow> exn + json list" where
  "matching_logs env key_id [] = Inr []"
| "matching_logs env key_id (tlog # tlogs) =
     bind_sum (get_field tlog ''logId'') (\<lambda>log_id.
       bind_sum (get_field (or_empty log_id) ''keyId'') (\<lambda>held.
         bind_sum (matching_logs env key_id tlogs) (\<lambda>ms.
           Inr (if json_eq (ck_float env) held key_id then tlog # ms else ms))))"

fun known_urls :: "json list \<Rightarrow> exn + pystr list" where
  "known_urls [] = Inr []"
| "known_urls (tlog # tlogs) =
     bind_sum (get_field tlog ''baseUrl'') (\<lambda>base.
       bind_sum (rstrip_slash (or_text base)) (\<lambda>u.
         map_sum id (Cons u) (known_urls tlogs)))"

definition claimed_place :: "('sk, 'vk) ckenv \<Rightarrow> pystr \<Rightarrow> json \<Rightarrow> json \<Rightarrow> unit check" where
  "claimed_place env trusted_root_path section_obj entry =
     bind_sum (require_field section_obj ''log_index'') (\<lambda>claimed_index.
       bind_sum (escaping (get_field entry ''logIndex'')) (\<lambda>log_index.
         if ck_str env log_index \<noteq> ck_str env claimed_index then failed ANCHOR_FAILURE
         else bind_sum (require_field section_obj ''log_url'') (\<lambda>claimed_url.
           bind_sum (escaping (bind_sum (get_field entry ''logId'') (\<lambda>l. get_field (or_empty l) ''keyId''))) (\<lambda>key_id.
             if \<not> truthy key_id then failed ANCHOR_FAILURE
             else case bind_sum (ck_read_text env trusted_root_path) (\<lambda>t. of_option ValueError (loads t)) of
               Inl _ \<Rightarrow> failed MALFORMED_BUNDLE
             | Inr doc \<Rightarrow>
                 bind_sum (escaping (bind_sum (get_field doc ''tlogs'') (\<lambda>t.
                   bind_sum (if truthy t then py_iter t else Inr []) (matching_logs env key_id)))) (\<lambda>matching.
                 if matching = [] then failed ANCHOR_FAILURE
                 else bind_sum (escaping (known_urls matching)) (\<lambda>urls.
                   bind_sum (escaping (rstrip_slash claimed_url)) (\<lambda>u.
                     if u \<notin> set urls then failed ANCHOR_FAILURE else Inr ())))))))"

datatype anchor_result = NotAnchored | AnchorSkipped | AnchorChecked json json pystr int

text \<open>\<open>d.get(k)\<close> of each of a chain of keys, \<open>{}\<close> in place of a missing one\<close>

fun get_chain :: "json \<Rightarrow> string list \<Rightarrow> exn + json" where
  "get_chain v [] = Inr v"
| "get_chain v [k] = get_field v k"
| "get_chain v (k # ks) = bind_sum (get_field v k) (\<lambda>x. get_chain (or_empty x) ks)"

definition logged_entry ::
  "('sk, 'vk) ckenv \<Rightarrow> (pystr \<times> 'vk) list \<Rightarrow> bytes \<Rightarrow> json \<Rightarrow> json \<Rightarrow> pystr check" where
  "logged_entry env anchor_keys payload anchor_fp entry =
     bind_sum (hashedrekord_body entry) (\<lambda>spec.
       bind_sum (escaping (get_chain (JObj spec) [''data'', ''digest''])) (\<lambda>logged_digest.
         if \<not> truthy logged_digest then failed ANCHOR_FAILURE
         else bind_sum (ck_b64 logged_digest) (\<lambda>digest.
           if digest \<noteq> ck_anchor_payload_digest env payload then failed ANCHOR_FAILURE
           else bind_sum (escaping (key_of (ck_float env) anchor_fp)) (\<lambda>k.
             case held_key anchor_keys k of
               None \<Rightarrow> failed ANCHOR_KEY_UNKNOWN
             | Some (fp, anchor_key) \<Rightarrow>
                 bind_sum (escaping (get_chain (JObj spec)
                     [''signature'', ''verifier'', ''publicKey'', ''rawBytes''])) (\<lambda>logged_key.
                   if \<not> truthy logged_key then failed ANCHOR_FAILURE
                   else bind_sum (ck_b64 logged_key) (\<lambda>der.
                     if der \<noteq> to_der (ck_crypto env) anchor_key then failed ANCHOR_FAILURE
                     else bind_sum (escaping (get_chain (JObj spec) [''signature'', ''content''])) (\<lambda>logged_signature.
                       if \<not> truthy logged_signature then failed ANCHOR_FAILURE
                       else bind_sum (ck_b64 logged_signature) (\<lambda>signature.
                         bind_sum (on_bad_signature ANCHOR_FAILURE
                             (ck_ecdsa_verify env anchor_key signature payload)) (\<lambda>_. Inr fp)))))))))"

definition log_proof :: "('sk, 'vk) ckenv \<Rightarrow> pystr \<Rightarrow> json \<Rightarrow> unit check" where
  "log_proof env trusted_root_path entry =
     (if \<not> ck_sigstore env then failed ANCHOR_UNCHECKED
      else case ck_log_verify env trusted_root_path entry of
        Inl (SystemExit e) \<Rightarrow> Inl (Escaped (SystemExit e))
      | Inl e \<Rightarrow> if (case e of Foreign c _ \<Rightarrow> c = ''NetworkAccessAttempted'' | _ \<Rightarrow> False)
                 then Inl (Escaped e) else failed ANCHOR_FAILURE
      | Inr _ \<Rightarrow> Inr ())"

definition anchor_claim ::
  "('sk, 'vk) ckenv \<Rightarrow> json \<Rightarrow> json \<Rightarrow> pystr option \<Rightarrow> (pystr \<times> 'vk) list \<Rightarrow> bool \<Rightarrow> anchor_result check" where
  "anchor_claim env section_obj source_state trusted_root_path anchor_keys skip =
     bind_sum (require_field section_obj ''anchor_payload_format'') (\<lambda>declared.
       if declared \<noteq> JStr CK_ANCHOR_PAYLOAD_FORMAT then failed MALFORMED_BUNDLE
       else bind_sum (require_field section_obj ''anchor_key_fingerprint'') (\<lambda>anchor_fp.
         bind_sum (require_field section_obj ''transparency_log_entry'') (\<lambda>entry.
           if skip then Inr AnchorSkipped
           else if (case trusted_root_path of None \<Rightarrow> True | Some p \<Rightarrow> p = []) \<or> anchor_keys = []
             then failed ANCHOR_UNCHECKED
           else bind_sum (require_field source_state ''db'') (\<lambda>db.
             bind_sum (bind_sum (require_field source_state ''tx_id'') (\<lambda>t. escaping (ck_int env t))) (\<lambda>tx_id.
               bind_sum (require_field source_state ''tx_hash'') (\<lambda>tx_hash.
                 bind_sum (require_field source_state ''signature'') (\<lambda>sg.
                   let payload = ck_canonical_anchor_bytes db tx_id tx_hash (or_text sg)
                   in bind_sum (logged_entry env anchor_keys payload anchor_fp entry) (\<lambda>fp.
                        bind_sum (claimed_place env (the trusted_root_path) section_obj entry) (\<lambda>_.
                          bind_sum (log_proof env (the trusted_root_path) entry) (\<lambda>_.
                            bind_sum (escaping (get_field section_obj ''log_url'')) (\<lambda>url.
                              bind_sum (escaping (get_field section_obj ''log_index'')) (\<lambda>index.
                                Inr (AnchorChecked url index fp tx_id)))))))))))))"

definition verify_external_anchor ::
  "('sk, 'vk) ckenv \<Rightarrow> json \<Rightarrow> json \<Rightarrow> pystr option \<Rightarrow> (pystr \<times> 'vk) list \<Rightarrow> bool \<Rightarrow> anchor_result check" where
  "verify_external_anchor env bundle source_state trusted_root_path anchor_keys skip =
     bind_sum (require_field bundle ''external_anchor'') (\<lambda>section_obj.
       bind_sum (require_field section_obj ''state'') (\<lambda>state.
         if state = JStr CK_ANCHOR_STATE_NOT_ANCHORED
         then bind_sum (require_field section_obj ''detail'') (\<lambda>_. Inr NotAnchored)
         else if state \<noteq> JStr CK_ANCHOR_STATE_ANCHORED then failed MALFORMED_BUNDLE
         else anchor_claim env section_obj source_state trusted_root_path anchor_keys skip))"

section \<open>The check\<close>

text \<open>The signing key the bundle names, twice, is the supplied one.\<close>

definition check_key_named :: "('sk, 'vk) ckenv \<Rightarrow> json \<Rightarrow> json \<Rightarrow> 'vk \<Rightarrow> unit check" where
  "check_key_named env bundle proof vk =
     bind_sum (require_field bundle ''signing_key'') (\<lambda>sk.
       bind_sum (escaping (get_field sk ''fingerprint'')) (\<lambda>expected_fp.
         if \<not> truthy expected_fp then failed KEY_MISMATCH
         else if expected_fp \<noteq> JStr (ck_key_fingerprint env vk) then failed KEY_MISMATCH
         else bind_sum (require_field proof ''signing_key_fingerprint'') (\<lambda>proof_fp.
           if proof_fp \<noteq> expected_fp then failed KEY_MISMATCH else Inr ())))"

definition bundle_anchor_of :: "('sk, 'vk) ckenv \<Rightarrow> json \<Rightarrow> bundle_anchor check" where
  "bundle_anchor_of env src =
     bind_sum (require_field src ''db'') (\<lambda>db.
       bind_sum (bind_sum (require_field src ''tx_id'') (\<lambda>t. escaping (ck_int env t))) (\<lambda>tx.
         bind_sum (bind_sum (require_field src ''tx_hash'') ck_b64) (\<lambda>h.
           bind_sum (bind_sum (escaping (get_field src ''signature''))
               (\<lambda>s. ck_b64 (or_text s))) (\<lambda>sg.
             Inr \<lparr>ba_db = db, ba_tx = tx, ba_hash = h, ba_sig = sg\<rparr>))))"

definition check_anchor_signed :: "('sk, 'vk) ckenv \<Rightarrow> 'vk \<Rightarrow> bundle_anchor \<Rightarrow> unit check" where
  "check_anchor_signed env vk anchor = rejecting SIGNATURE_FAILURE (ck_verify_state env vk anchor)"

definition prove_entry ::
  "('sk, 'vk) ckenv \<Rightarrow> 'vk \<Rightarrow> bundle_anchor \<Rightarrow> bytes \<Rightarrow> bytes \<Rightarrow> proven_entry check" where
  "prove_entry env vk anchor ventry ledger_key =
     (case ck_verified_get env ventry anchor ledger_key vk of
        Inl e \<Rightarrow>
          (case e of
             ErrCorruptedData _ \<Rightarrow> failed CONSISTENCY_FAILURE
           | BadSignatureError _ \<Rightarrow> failed SIGNATURE_FAILURE
           | SystemExit _ \<Rightarrow> failed MALFORMED_BUNDLE
           | Foreign c _ \<Rightarrow> if c = ''ErrUnsupportedTxVersion'' then failed MALFORMED_BUNDLE else Inl (Escaped e)
           | _ \<Rightarrow> Inl (Escaped e))
      | Inr result \<Rightarrow> if \<not> pe_verified result then failed CONSISTENCY_FAILURE else Inr result)"

text \<open>A field whose integer must be \<open>n\<close>.\<close>

definition same_int :: "('sk, 'vk) ckenv \<Rightarrow> json \<Rightarrow> string \<Rightarrow> int \<Rightarrow> unit check" where
  "same_int env mapping field n =
     bind_sum (require_field mapping field) (\<lambda>v.
       bind_sum (escaping (ck_int env v)) (\<lambda>i. if i \<noteq> n then failed RECORD_MISMATCH else Inr ()))"

definition check_readable_copy ::
  "('sk, 'vk) ckenv \<Rightarrow> json \<Rightarrow> json \<Rightarrow> bundle_anchor \<Rightarrow> bytes \<Rightarrow> proven_entry \<Rightarrow> unit check" where
  "check_readable_copy env rec proof anchor ledger_key result =
     bind_sum (bind_sum (require_field rec ''value'') ck_b64) (\<lambda>claimed_value.
       if claimed_value \<noteq> pe_value result then failed RECORD_MISMATCH
       else if pe_key result \<noteq> ledger_key then failed RECORD_MISMATCH
       else bind_sum (same_int env rec ''tx_id'' (pe_id result)) (\<lambda>_.
         bind_sum (same_int env rec ''timestamp'' (pe_timestamp result)) (\<lambda>_.
           bind_sum (require_field rec ''record_type'') (\<lambda>claimed_type.
             if claimed_type \<noteq> JStr (record_type_of (pe_value result)) then failed RECORD_MISMATCH
             else bind_sum (same_int env proof ''entry_tx_id'' (pe_id result)) (\<lambda>_.
               same_int env proof ''prove_since_tx'' (ba_tx anchor))))))"

record checked_bundle =
  cb_tx_id :: int
  cb_ledger_key :: pystr
  cb_value :: bytes
  cb_timestamp :: int
  cb_record_type :: pystr
  cb_key_fingerprint :: pystr
  cb_anchor_tx_id :: int
  cb_writer_key_fingerprint :: pystr
  cb_external_anchor :: anchor_result

definition verify_bundle ::
  "('sk, 'vk) ckenv \<Rightarrow> json \<Rightarrow> 'vk \<Rightarrow> (pystr \<times> 'vk) list \<Rightarrow> deny_list \<Rightarrow> pystr option \<Rightarrow>
   (pystr \<times> 'vk) list \<Rightarrow> bool \<Rightarrow> checked_bundle check" where
  "verify_bundle env bundle vk writer_keys deny_list trusted_root_path anchor_keys skip_anchor_check =
     bind_sum (require_field bundle ''record'') (\<lambda>rec.
     bind_sum (require_field bundle ''proof'') (\<lambda>proof.
     bind_sum (check_key_named env bundle proof vk) (\<lambda>_.
     bind_sum (require_field proof ''source_state'') (\<lambda>src.
     bind_sum (bundle_anchor_of env src) (\<lambda>anchor.
     bind_sum (check_anchor_signed env vk anchor) (\<lambda>_.
     bind_sum (bind_sum (require_field proof ''verifiable_entry'') ck_b64) (\<lambda>ventry.
     if \<not> ck_parse_entry env ventry then failed MALFORMED_BUNDLE
     else
     bind_sum (bind_sum (require_field rec ''ledger_key'') ck_b64) (\<lambda>ledger_key.
     bind_sum (prove_entry env vk anchor ventry ledger_key) (\<lambda>result.
     bind_sum (check_readable_copy env rec proof anchor ledger_key result) (\<lambda>_.
     bind_sum (verify_writer_signature env (loads_bytes (pe_value result)) writer_keys deny_list) (\<lambda>writer.
     bind_sum (verify_external_anchor env bundle src trusted_root_path anchor_keys skip_anchor_check) (\<lambda>ext.
       Inr \<lparr>cb_tx_id = pe_id result, cb_ledger_key = utf8_decode_replace (pe_key result),
             cb_value = pe_value result, cb_timestamp = pe_timestamp result,
             cb_record_type = record_type_of (pe_value result),
             cb_key_fingerprint = ck_key_fingerprint env vk, cb_anchor_tx_id = ba_tx anchor,
             cb_writer_key_fingerprint = writer, cb_external_anchor = ext\<rparr>))))))))))))"

section \<open>The command line\<close>

record checker_args =
  ca_bundle :: pystr
  ca_key :: pystr
  ca_writer_key :: "pystr list"
  ca_deny_list :: "pystr option"
  ca_trusted_root :: "pystr option"
  ca_anchor_key :: "pystr list"
  ca_skip_anchor_check :: bool

definition check_paths :: "('sk, 'vk) ckenv \<Rightarrow> checker_args \<Rightarrow> checked_bundle check" where
  "check_paths env args =
     bind_sum (load_key env (ca_key args)) (\<lambda>vk.
     bind_sum (load_writer_keys env (ca_writer_key args) []) (\<lambda>writer_keys.
     bind_sum (load_writer_keys env (ca_anchor_key args) []) (\<lambda>anchor_keys.
     bind_sum (load_deny_list env (ca_deny_list args)) (\<lambda>deny_list.
     bind_sum (load_bundle env (ca_bundle args)) (\<lambda>bundle.
       verify_bundle env bundle vk writer_keys deny_list (ca_trusted_root args) anchor_keys
         (ca_skip_anchor_check args))))))"

datatype anchor_line = AnchoredAt json json | NotChecked | NoneClaimed

datatype report = FailedReport result_class | OkReport checked_bundle anchor_line

definition anchor_line_of :: "anchor_result \<Rightarrow> anchor_line" where
  "anchor_line_of external =
     (case external of
        AnchorChecked url index _ _ \<Rightarrow> AnchoredAt url index
      | AnchorSkipped \<Rightarrow> NotChecked
      | NotAnchored \<Rightarrow> NoneClaimed)"

text \<open>The report that is printed and the exit code, or the exception that ends the process.\<close>

definition checker_main :: "('sk, 'vk) ckenv \<Rightarrow> checker_args \<Rightarrow> exn + report \<times> nat" where
  "checker_main env args =
     (case check_paths env args of
        Inl (BundleCheckFailed c) \<Rightarrow> Inr (FailedReport c, 1)
      | Inl (Escaped e) \<Rightarrow> Inl e
      | Inr result \<Rightarrow> Inr (OkReport result (anchor_line_of (cb_external_anchor result)), 0))"

end
