(* ===== verification/OfflineFacts.thy ===== *)
theory OfflineFacts
  imports OfflineChecker
begin

text \<open>
  What the offline checker establishes: the attribution of a record agrees with the services' own
  check, what a passing bundle displays is what was proved, a report of corroboration is about
  this bundle's anchor, and which malformed files end the process.
\<close>

section \<open>Reading the steps of a check\<close>

lemma escaping_Inr_iff [simp]: "escaping r = Inr x \<longleftrightarrow> r = Inr x"
  by (cases r) (simp_all add: escaping_def)

lemma require_field_Inr: "require_field j f = Inr v \<longleftrightarrow> (\<exists>d. j = JObj d \<and> dict_get d (lit f) = Some v)"
  by (auto simp: require_field_def of_option_def split: json.splits option.splits)

lemma ck_b64_Inr: "ck_b64 v = Inr b \<longleftrightarrow> (\<exists>s. v = JStr s \<and> b64decode_validate s = Some b)"
  by (auto simp: ck_b64_def of_option_def split: json.splits option.splits)

lemma same_int_Inr:
  "same_int env j f n = Inr () \<longleftrightarrow> (\<exists>d v. j = JObj d \<and> dict_get d (lit f) = Some v \<and> ck_int env v = Inr n)"
  by (auto simp: same_int_def bind_sum_Inr_iff require_field_Inr split: if_splits)

lemma rejecting_Inr [simp]: "rejecting c r = Inr x \<longleftrightarrow> r = Inr x"
  by (auto simp: rejecting_def split: sum.splits exn.splits)

lemma on_bad_signature_Inr [simp]: "on_bad_signature c r = Inr x \<longleftrightarrow> r = Inr x"
  by (auto simp: on_bad_signature_def split: sum.splits exn.splits)

lemma held_key_Some: "held_key keys k = Some (fp, vk) \<longleftrightarrow> k = KStr fp \<and> map_of keys fp = Some vk"
  by (auto simp: held_key_def split: call_key.splits)

text \<open>Strict decoding accepts fewer texts and decodes them alike.\<close>

lemma a2b_strict: "a2b True q l p pd s = Some x \<Longrightarrow> a2b False q l p pd s = Some x"
proof (induction True q l p pd s arbitrary: x rule: a2b.induct)
  case (2 q l p pd c cs)
  show ?case
  proof (cases "c = 61")
    case True
    then show ?thesis using 2 by (auto split: if_splits)
  next
    case False
    then show ?thesis using 2 by (cases "b64_value c") (auto split: if_splits)
  qed
qed simp

lemma validate_decodes: "b64decode_validate s = Some b \<Longrightarrow> b64decode s = Some b"
  by (auto simp: b64decode_validate_def b64decode_def dest: a2b_strict split: if_splits)

section \<open>The checker's copy of the canonical form\<close>

lemma ck_fields:
  "lit CK_SIGNATURE_FIELD = SIGNATURE_FIELD" "lit CK_FINGERPRINT_FIELD = FINGERPRINT_FIELD"
  "lit SIGNATURE_FORMAT_FIELD = FORMAT_FIELD" "CK_RECORD_SIGNATURE_FORMAT = RECORD_SIGNATURE_FORMAT"
  "CK_ANCHOR_PAYLOAD_FORMAT = ANCHOR_PAYLOAD_FORMAT"
  by (simp_all add: CK_SIGNATURE_FIELD_def SIGNATURE_FIELD_def CK_FINGERPRINT_FIELD_def FINGERPRINT_FIELD_def
      SIGNATURE_FORMAT_FIELD_def FORMAT_FIELD_def CK_RECORD_SIGNATURE_FORMAT_def RECORD_SIGNATURE_FORMAT_def
      CK_ANCHOR_PAYLOAD_FORMAT_def ANCHOR_PAYLOAD_FORMAT_def)

lemma ck_canonical: "ck_canonical_record_bytes = canonical_record_bytes"
  by (simp add: fun_eq_iff ck_canonical_record_bytes_def canonical_record_bytes_def ck_fields Let_def)

lemma ck_fingerprint: "ck_key_fingerprint env vk = key_fingerprint (ck_crypto env) vk"
  by (simp add: ck_key_fingerprint_def key_fingerprint_def)

lemma ck_anchor_bytes:
  "ck_canonical_anchor_bytes (JStr db) tx (JStr h) (JStr s) = canonical_anchor_bytes db tx h s"
  by (simp add: ck_canonical_anchor_bytes_def canonical_anchor_bytes_def ck_fields)

interpretation checker: canonical_form ck_canonical_record_bytes
  unfolding ck_canonical by (rule writer.canonical_form_axioms)

section \<open>The keys the checker holds\<close>

definition named_keys :: "('sk, 'vk) ckenv \<Rightarrow> (pystr \<times> 'vk) list \<Rightarrow> bool" where
  "named_keys env keys \<longleftrightarrow> (\<forall>fp vk. map_of keys fp = Some vk \<longrightarrow> fp = key_fingerprint (ck_crypto env) vk)"

lemma load_writer_keys_named:
  "load_writer_keys env paths keys = Inr ks \<Longrightarrow> named_keys env keys \<Longrightarrow> named_keys env ks"
proof (induction paths arbitrary: keys)
  case (Cons path paths)
  then obtain vk where vk: "load_writer_keys env paths (assoc_set keys (ck_key_fingerprint env vk) vk) = Inr ks"
    by (auto simp: bind_sum_Inr_iff)
  have "named_keys env (assoc_set keys (ck_key_fingerprint env vk) vk)"
    using Cons.prems(2) by (simp add: named_keys_def ck_fingerprint)
  then show ?case using Cons.IH [OF vk] by blast
qed simp

text \<open>The check of the ECDSA library, which raises or returns.\<close>

definition ecdsa_agrees :: "('sk, 'vk) ckenv \<Rightarrow> bool" where
  "ecdsa_agrees env \<longleftrightarrow> (\<forall>vk s m. ck_ecdsa_verify env vk s m = Inr () \<longleftrightarrow> ec_verify (ck_crypto env) vk s m)"

lemma attributed_iff:
  "verify_writer_signature env (Some (JObj rec)) keys deny = Inr fp \<longleftrightarrow>
   (\<exists>s sig vk. dict_get rec SIGNATURE_FIELD = Some (JStr s) \<and> s \<noteq> [] \<and> fp \<noteq> [] \<and>
      dict_get rec FINGERPRINT_FIELD = Some (JStr fp) \<and>
      dict_get rec FORMAT_FIELD = Some (JStr RECORD_SIGNATURE_FORMAT) \<and>
      KStr fp \<notin> fst ` set deny \<and> map_of keys fp = Some vk \<and> b64decode_validate s = Some sig \<and>
      ck_ecdsa_verify env vk sig (canonical_record_bytes rec) = Inr ())" (is "?l \<longleftrightarrow> ?r")
proof
  assume ?l
  then obtain s sig vk k where f: "truthy (dget rec CK_SIGNATURE_FIELD)" "truthy (dget rec CK_FINGERPRINT_FIELD)"
      "dget rec SIGNATURE_FORMAT_FIELD = JStr CK_RECORD_SIGNATURE_FORMAT"
      "key_of (ck_float env) (dget rec CK_FINGERPRINT_FIELD) = Inr k" "k \<notin> fst ` set deny" "k = KStr fp"
      "map_of keys fp = Some vk" "ck_b64 (dget rec CK_SIGNATURE_FIELD) = Inr sig"
      "ck_ecdsa_verify env vk sig (ck_canonical_record_bytes rec) = Inr ()"
    by (auto simp: verify_writer_signature_def Let_def bind_sum_Inr_iff held_key_Some
        split: if_splits option.splits)
  then show ?r
    by (auto simp: ck_canonical ck_fields dget_def ck_b64_Inr key_of_def json_num_def of_option_def
        split: option.splits json.splits)
next
  assume ?r
  then show ?l
    by (auto simp: verify_writer_signature_def Let_def ck_canonical ck_fields dget_def key_of_def escaping_def ck_b64_def
        held_key_def rejecting_def)
qed

section \<open>The steps of a bundle that passes\<close>

lemma verify_bundleE:
  assumes "verify_bundle env bundle vk keys deny tr akeys skip = Inr cb"
  obtains rec pf src anchor ventry key result ext fp where
    "require_field bundle ''record'' = Inr rec" "require_field bundle ''proof'' = Inr pf"
    "check_key_named env bundle pf vk = Inr ()" "require_field pf ''source_state'' = Inr src"
    "bundle_anchor_of env src = Inr anchor" "ck_verify_state env vk anchor = Inr ()"
    "bind_sum (require_field rec ''ledger_key'') ck_b64 = Inr key" "prove_entry env vk anchor ventry key = Inr result"
    "check_readable_copy env rec pf anchor key result = Inr ()"
    "verify_writer_signature env (loads_bytes (pe_value result)) keys deny = Inr fp"
    "verify_external_anchor env bundle src tr akeys skip = Inr ext"
    "cb_value cb = pe_value result" "cb_record_type cb = record_type_of (pe_value result)"
    "cb_tx_id cb = pe_id result" "cb_writer_key_fingerprint cb = fp" "cb_external_anchor cb = ext"
    "cb_anchor_tx_id cb = ba_tx anchor"
  using assms unfolding verify_bundle_def bind_sum_Inr_iff check_anchor_signed_def rejecting_Inr
  by (elim exE conjE) (auto simp: bind_sum_Inr_iff split: if_splits)

lemma check_key_named_Inr:
  "check_key_named env bundle pf vk = Inr () \<longleftrightarrow>
   (\<exists>d. require_field bundle ''signing_key'' = Inr (JObj d) \<and> dget d ''fingerprint'' = JStr (ck_key_fingerprint env vk)) \<and>
   require_field pf ''signing_key_fingerprint'' = Inr (JStr (ck_key_fingerprint env vk))"
  by (auto simp: check_key_named_def bind_sum_Inr_iff get_field_Inr ck_key_fingerprint_def lit_def split: if_splits)

lemma prove_entry_Inr:
  "prove_entry env vk anchor ventry key = Inr result \<longleftrightarrow>
   ck_verified_get env ventry anchor key vk = Inr result \<and> pe_verified result"
  by (auto simp: prove_entry_def split: sum.splits exn.splits if_splits)

lemma check_readable_copy_Inr:
  "check_readable_copy env rec pf anchor key result = Inr () \<longleftrightarrow>
   bind_sum (require_field rec ''value'') ck_b64 = Inr (pe_value result) \<and> pe_key result = key \<and>
   same_int env rec ''tx_id'' (pe_id result) = Inr () \<and> same_int env rec ''timestamp'' (pe_timestamp result) = Inr () \<and>
   require_field rec ''record_type'' = Inr (JStr (record_type_of (pe_value result))) \<and>
   same_int env pf ''entry_tx_id'' (pe_id result) = Inr () \<and> same_int env pf ''prove_since_tx'' (ba_tx anchor) = Inr ()"
  by (auto simp: check_readable_copy_def bind_sum_Inr_iff split: if_splits)

lemma anchor_checkedE:
  assumes "verify_external_anchor env bundle src tr akeys skip = Inr (AnchorChecked url index fp tx)"
  obtains db h sg entry p section_obj afp where "\<not> skip" "tr = Some p"
    "require_field bundle ''external_anchor'' = Inr section_obj" "require_field section_obj ''transparency_log_entry'' = Inr entry"
    "require_field src ''db'' = Inr db" "require_field src ''tx_hash'' = Inr h" "require_field src ''signature'' = Inr sg"
    "bind_sum (require_field src ''tx_id'') (\<lambda>t. escaping (ck_int env t)) = Inr tx"
    "logged_entry env akeys (ck_canonical_anchor_bytes db tx h (or_text sg)) afp entry = Inr fp"
    "log_proof env p entry = Inr ()"
  using assms unfolding verify_external_anchor_def anchor_claim_def
  by (auto simp: bind_sum_Inr_iff Let_def split: if_splits option.splits)

lemma logged_entryE:
  assumes "logged_entry env akeys payload afp entry = Inr fp"
  obtains spec s akey sig where "hashedrekord_body entry = Inr spec"
    "get_chain (JObj spec) [''data'', ''digest''] = Inr (JStr s)" "b64decode_validate s = Some (sha256 (ck_crypto env) payload)"
    "map_of akeys fp = Some akey" "ck_ecdsa_verify env akey sig payload = Inr ()"
  using assms unfolding logged_entry_def
  by (auto simp: bind_sum_Inr_iff held_key_Some ck_b64_Inr ck_anchor_payload_digest_def
      simp del: get_chain.simps split: if_splits option.splits)

section \<open>A checker for the witnesses\<close>

definition test_ckenv :: "(bytes, bytes) ckenv" where
  "test_ckenv = \<lparr>ck_crypto = test_crypto, ck_float = (\<lambda>_. None), ck_repr = dumps,
     ck_read_text = (\<lambda>_. Inl UnicodeError), ck_load_pem = (\<lambda>_. Inr ''sk''), ck_parse_entry = (\<lambda>_. True),
     ck_verify_state = (\<lambda>_ _. Inr ()), ck_verified_get = (\<lambda>_ _ _ _. Inl (ErrCorruptedData [])),
     ck_ecdsa_verify = (\<lambda>vk s m. if ec_verify test_crypto vk s m then Inr () else Inl (BadSignatureError [])),
     ck_sigstore = True, ck_log_verify = (\<lambda>_ _. Inr ())\<rparr>"

lemma test_ecdsa_agrees: "ck_crypto env = test_crypto \<Longrightarrow> ck_ecdsa_verify env = ck_ecdsa_verify test_ckenv \<Longrightarrow> ecdsa_agrees env"
  by (simp add: ecdsa_agrees_def test_ckenv_def)

definition test_args :: checker_args where
  "test_args = \<lparr>ca_bundle = lit ''b'', ca_key = lit ''k'', ca_writer_key = [lit ''w''], ca_deny_list = None,
     ca_trusted_root = None, ca_anchor_key = [], ca_skip_anchor_check = False\<rparr>"

section \<open>Properties\<close>

text \<open>
  C27: the checker attributes a record to a key exactly when the services' own check accepts the
  record under that key, the key was supplied and is not on the deny-list, and the signature's
  text is strict base64.
\<close>

theorem attribution_agrees_with_the_services:
  assumes "load_writer_keys env paths [] = Inr keys" "ecdsa_agrees env"
  shows "verify_writer_signature env (Some (JObj rec)) keys deny = Inr fp \<longleftrightarrow>
    (\<exists>vk s. map_of keys fp = Some vk \<and> KStr fp \<notin> fst ` set deny \<and>
       dict_get rec SIGNATURE_FIELD = Some (JStr s) \<and> b64decode_validate s \<noteq> None \<and>
       verify_record (ck_crypto env) rec vk)"
proof -
  have named: "fp = key_fingerprint (ck_crypto env) vk" if "map_of keys fp = Some vk" for vk
  proof -
    have "named_keys env []" by (simp add: named_keys_def)
    then have "named_keys env keys" by (rule load_writer_keys_named [OF assms(1)])
    then show ?thesis using that unfolding named_keys_def by blast
  qed
  have ne: "key_fingerprint (ck_crypto env) vk \<noteq> []" for vk by (simp add: key_fingerprint_def lit_def)
  show ?thesis (is "?l \<longleftrightarrow> ?r")
  proof
    assume ?l
    then obtain s sig vk where f: "map_of keys fp = Some vk" "b64decode_validate s = Some sig"
      "dict_get rec SIGNATURE_FIELD = Some (JStr s)" "KStr fp \<notin> fst ` set deny" "s \<noteq> []"
      "dict_get rec FINGERPRINT_FIELD = Some (JStr fp)" "dict_get rec FORMAT_FIELD = Some (JStr RECORD_SIGNATURE_FORMAT)"
      "ec_verify (ck_crypto env) vk sig (canonical_record_bytes rec)"
      using assms(2) unfolding attributed_iff by (auto simp: ecdsa_agrees_def)
    then have "verify_record (ck_crypto env) rec vk"
      using named [OF f(1)] validate_decodes [OF f(2)] by (simp add: verify_record_def)
    then show ?r using f by auto
  next
    assume ?r
    then obtain vk s sig where f: "map_of keys fp = Some vk" "KStr fp \<notin> fst ` set deny"
      "dict_get rec SIGNATURE_FIELD = Some (JStr s)" "b64decode_validate s = Some sig" "verify_record (ck_crypto env) rec vk"
      by auto
    then show ?l
      using assms(2) named [OF f(1)] ne [of vk] validate_decodes [OF f(4)] unfolding attributed_iff
      by (auto simp: verify_record_def ecdsa_agrees_def split: if_splits)
  qed
qed

theorem attribution_agrees_with_the_services_witness:
  "let rec = sign_record test_crypto [] ''sk'' ''sk''; fp = key_fingerprint test_crypto ''sk''
   in verify_writer_signature test_ckenv (Some (JObj rec)) [(fp, ''sk'')] [] = Inr fp"
proof -
  let ?r = "sign_record test_crypto [] ''sk'' ''sk''"
  have load: "load_writer_keys test_ckenv [lit ''w''] [] = Inr [(key_fingerprint test_crypto ''sk'', ''sk'')]"
    by (simp add: load_key_def ck_fingerprint test_ckenv_def)
  have "verify_record test_crypto ?r ''sk''"
    using sign_verifies [OF test_crypto_ok, of "[]" "''sk''"] by (simp add: test_crypto_def)
  then show ?thesis
    using attribution_agrees_with_the_services [OF load test_ecdsa_agrees, of ?r "[]" "key_fingerprint test_crypto ''sk''"]
      sign_record_canon [of "[]" test_crypto "''sk''" "''sk''"]
    by (simp add: test_ckenv_def)
qed

text \<open>
  The strictness matters: a signature written with one character outside the base64 alphabet is
  the same signature to the services and a malformed bundle to the checker.
\<close>

lemma lenient_signature_text_divides_the_checks:
  fixes C :: "('sk, 'vk) crypto" and sk :: 'sk
  assumes "crypto_ok C" "distinct (map fst record)"
  defines "wk \<equiv> verifying_key_of C sk" and "signed \<equiv> sign_record C record sk (verifying_key_of C sk)"
  defines "spelt \<equiv> dict_set signed SIGNATURE_FIELD
    (JStr (33 # b64encode (sign_deterministic C sk (canonical_record_bytes signed))))"
  assumes "ck_crypto env = C" "map_of keys (key_fingerprint C wk) = Some wk" "KStr (key_fingerprint C wk) \<notin> fst ` set deny"
  shows "verify_record C spelt wk \<and>
    verify_writer_signature env (Some (JObj spelt)) keys deny = failed MALFORMED_BUNDLE"
proof -
  have c: "canonical_record_bytes spelt = canonical_record_bytes signed"
    unfolding spelt_def signed_def by (rule writer.skips_signature [OF distinct_sign_record [OF assms(2)]])
  have f: "dict_get spelt SIGNATURE_FIELD = Some (JStr (33 # b64encode (sign_deterministic C sk (canonical_record_bytes signed))))"
    "dict_get spelt FINGERPRINT_FIELD = Some (JStr (key_fingerprint C wk))"
    "dict_get spelt FORMAT_FIELD = Some (JStr RECORD_SIGNATURE_FORMAT)"
    by (simp_all add: spelt_def signed_def wk_def sign_record_fields)
  have ne: "key_fingerprint C wk \<noteq> []" by (simp add: key_fingerprint_def lit_def)
  have "b64decode (33 # s) = b64decode s" for s by (simp add: b64decode_def b64_value_def)
  then have "verify_record C spelt wk"
    using f c assms(1) by (simp add: verify_record_def crypto_ok_def wk_def)
  moreover have "b64decode_validate (33 # s) = None" for s by (simp add: b64decode_validate_def b64_value_def)
  then have "verify_writer_signature env (Some (JObj spelt)) keys deny = failed MALFORMED_BUNDLE"
    using f assms(6-) ne
    by (simp add: verify_writer_signature_def ck_fields dget_def key_of_def escaping_def ck_b64_def held_key_def Let_def)
  ultimately show ?thesis ..
qed

text \<open>
  C26: a bundle that passes displays what was proved. The client library proved an entry against an
  anchor the supplied key signed, and the bundle's value, key, transaction, timestamp and label
  are that entry's; its writer holds a supplied key that is not on the deny-list.
\<close>

theorem verified_bundle_displays_what_was_proved:
  assumes "verify_bundle env bundle vk keys deny tr akeys skip = Inr cb"
  shows "\<exists>rec pf src anchor ventry key result r sig wk.
    require_field bundle ''record'' = Inr rec \<and> require_field bundle ''proof'' = Inr pf \<and>
    require_field pf ''signing_key_fingerprint'' = Inr (JStr (key_fingerprint (ck_crypto env) vk)) \<and>
    require_field pf ''source_state'' = Inr src \<and> bundle_anchor_of env src = Inr anchor \<and>
    ck_verify_state env vk anchor = Inr () \<and>
    ck_verified_get env ventry anchor key vk = Inr result \<and> pe_verified result \<and> pe_key result = key \<and>
    bind_sum (require_field rec ''ledger_key'') ck_b64 = Inr key \<and>
    bind_sum (require_field rec ''value'') ck_b64 = Inr (pe_value result) \<and>
    same_int env rec ''tx_id'' (pe_id result) = Inr () \<and> same_int env rec ''timestamp'' (pe_timestamp result) = Inr () \<and>
    require_field rec ''record_type'' = Inr (JStr (record_type_of (pe_value result))) \<and>
    cb_value cb = pe_value result \<and> cb_record_type cb = record_type_of (pe_value result) \<and>
    loads_bytes (pe_value result) = Some (JObj r) \<and>
    KStr (cb_writer_key_fingerprint cb) \<notin> fst ` set deny \<and>
    map_of keys (cb_writer_key_fingerprint cb) = Some wk \<and>
    ck_ecdsa_verify env wk sig (canonical_record_bytes r) = Inr ()"
proof -
  from assms obtain rec pf src anchor ventry key result fp where f:
    "require_field bundle ''record'' = Inr rec" "require_field bundle ''proof'' = Inr pf"
    "check_key_named env bundle pf vk = Inr ()" "require_field pf ''source_state'' = Inr src"
    "bundle_anchor_of env src = Inr anchor" "ck_verify_state env vk anchor = Inr ()"
    "bind_sum (require_field rec ''ledger_key'') ck_b64 = Inr key" "prove_entry env vk anchor ventry key = Inr result"
    "check_readable_copy env rec pf anchor key result = Inr ()"
    "verify_writer_signature env (loads_bytes (pe_value result)) keys deny = Inr fp"
    "cb_value cb = pe_value result" "cb_record_type cb = record_type_of (pe_value result)"
    "cb_writer_key_fingerprint cb = fp"
    by (rule verify_bundleE)
  obtain r where r: "loads_bytes (pe_value result) = Some (JObj r)"
    using f(10) by (auto simp: verify_writer_signature_def split: option.splits json.splits)
  obtain wk sig where "map_of keys fp = Some wk" "KStr fp \<notin> fst ` set deny"
    "ck_ecdsa_verify env wk sig (canonical_record_bytes r) = Inr ()"
    using f(10) unfolding r attributed_iff by blast
  with f r show ?thesis
    unfolding check_key_named_Inr prove_entry_Inr check_readable_copy_Inr ck_fingerprint by blast
qed

text \<open>
  C0: a report of corroboration is about this bundle's own anchor. The command says so only when
  it was not told to skip the check, the log's entry carries the digest of the anchor the proof
  runs to and a supplied key's signature over it, and the log's own proof was accepted.
\<close>

theorem corroboration_is_of_this_anchor:
  assumes "checker_main env args = Inr (OkReport cb (AnchoredAt url index), n)"
  shows "n = 0 \<and> \<not> ca_skip_anchor_check args \<and>
    (\<exists>bundle pf src anchor vk db h sg entry spec s akey fp sig p.
       require_field bundle ''proof'' = Inr pf \<and> require_field pf ''source_state'' = Inr src \<and>
       bundle_anchor_of env src = Inr anchor \<and> ck_verify_state env vk anchor = Inr () \<and>
       require_field src ''db'' = Inr db \<and> require_field src ''tx_hash'' = Inr h \<and>
       require_field src ''signature'' = Inr sg \<and>
       hashedrekord_body entry = Inr spec \<and> get_chain (JObj spec) [''data'', ''digest''] = Inr (JStr s) \<and>
       b64decode_validate s = Some (sha256 (ck_crypto env)
         (ck_canonical_anchor_bytes db (cb_anchor_tx_id cb) h (or_text sg))) \<and>
       load_writer_keys env (ca_anchor_key args) [] = Inr akey \<and> fp \<in> fst ` set akey \<and>
       ca_trusted_root args = Some p \<and> log_proof env p entry = Inr ())"
proof -
  obtain vk keys akeys deny bd where b: "n = 0"
    "load_writer_keys env (ca_anchor_key args) [] = Inr akeys"
    "verify_bundle env bd vk keys deny (ca_trusted_root args) akeys (ca_skip_anchor_check args) = Inr cb"
    "anchor_line_of (cb_external_anchor cb) = AnchoredAt url index"
    using assms by (auto simp: checker_main_def check_paths_def bind_sum_Inr_iff split: sum.splits check_error.splits)
  from b(3) obtain pf src anchor ext where f:
    "require_field bd ''proof'' = Inr pf" "require_field pf ''source_state'' = Inr src"
    "bundle_anchor_of env src = Inr anchor" "ck_verify_state env vk anchor = Inr ()"
    "verify_external_anchor env bd src (ca_trusted_root args) akeys (ca_skip_anchor_check args) = Inr ext"
    "cb_external_anchor cb = ext" "cb_anchor_tx_id cb = ba_tx anchor"
    by (rule verify_bundleE)
  obtain fp tx where "ext = AnchorChecked url index fp tx"
    using b(4) f(6) by (auto simp: anchor_line_of_def split: anchor_result.splits)
  with f(5) obtain db h sg entry p afp where g: "\<not> ca_skip_anchor_check args" "ca_trusted_root args = Some p"
    "require_field src ''db'' = Inr db" "require_field src ''tx_hash'' = Inr h" "require_field src ''signature'' = Inr sg"
    "bind_sum (require_field src ''tx_id'') (\<lambda>t. escaping (ck_int env t)) = Inr tx"
    "logged_entry env akeys (ck_canonical_anchor_bytes db tx h (or_text sg)) afp entry = Inr fp"
    "log_proof env p entry = Inr ()"
    by (auto elim: anchor_checkedE)
  have "ba_tx anchor = tx" using f(3) g(6) by (auto simp: bundle_anchor_of_def bind_sum_Inr_iff)
  moreover obtain spec s akey where "hashedrekord_body entry = Inr spec"
    "get_chain (JObj spec) [''data'', ''digest''] = Inr (JStr s)"
    "b64decode_validate s = Some (sha256 (ck_crypto env)
       (ck_canonical_anchor_bytes db tx h (or_text sg)))" "map_of akeys fp = Some akey"
    using logged_entryE [OF g(7)] by metis
  moreover have "fp \<in> fst ` set akeys" using calculation(5) by (force dest: map_of_SomeD)
  ultimately show ?thesis using b(1,2) f(1-4,7) g by metis
qed

text \<open>
  C28: three kinds of malformed file end the command with an exception of Python's instead of a
  named failure, though the source says it never raises a bare one: a bundle that is not UTF-8
  text, one whose signing key is not an object, and one whose anchor's transaction is a text
  that is not a number.
\<close>

theorem malformed_files_escape:
  assumes "load_key env (ca_key args) = Inr vk" "load_writer_keys env (ca_writer_key args) [] = Inr ws"
    "load_writer_keys env (ca_anchor_key args) [] = Inr akeys" "load_deny_list env (ca_deny_list args) = Inr deny"
  shows "(ck_read_text env (ca_bundle args) = Inl UnicodeError \<longrightarrow> checker_main env args = Inl UnicodeError) \<and>
    (\<forall>b rec pf. load_bundle env (ca_bundle args) = Inr b \<longrightarrow> require_field b ''record'' = Inr rec \<longrightarrow>
       require_field b ''proof'' = Inr pf \<longrightarrow>
       (\<forall>x. require_field b ''signing_key'' = Inr (JStr x) \<longrightarrow> checker_main env args = Inl attribute_error) \<and>
       (\<forall>src db x. check_key_named env b pf vk = Inr () \<longrightarrow> require_field pf ''source_state'' = Inr src \<longrightarrow>
          require_field src ''db'' = Inr db \<longrightarrow> require_field src ''tx_id'' = Inr (JStr x) \<longrightarrow>
          py_int (strip x) = None \<longrightarrow> checker_main env args = Inl ValueError))"
proof (intro conjI allI impI)
  assume "ck_read_text env (ca_bundle args) = Inl UnicodeError"
  then have "load_bundle env (ca_bundle args) = Inl (Escaped UnicodeError)"
    by (simp add: load_bundle_def is_os_error_def)
  then show "checker_main env args = Inl UnicodeError" using assms by (simp add: checker_main_def check_paths_def)
next
  fix b rec pf x
  assume b: "load_bundle env (ca_bundle args) = Inr b" "require_field b ''record'' = Inr rec" "require_field b ''proof'' = Inr pf"
  show "checker_main env args = Inl attribute_error" if "require_field b ''signing_key'' = Inr (JStr x)"
  proof -
    have "check_key_named env b pf vk = Inl (Escaped attribute_error)"
      using that by (simp add: check_key_named_def get_field_def get_default_def escaping_def)
    then show ?thesis using assms b by (simp add: checker_main_def check_paths_def verify_bundle_def)
  qed
  show "checker_main env args = Inl ValueError"
    if "check_key_named env b pf vk = Inr ()" "require_field pf ''source_state'' = Inr src"
      "require_field src ''db'' = Inr db" "require_field src ''tx_id'' = Inr (JStr x)" "py_int (strip x) = None" for src db
  proof -
    have "bundle_anchor_of env src = Inl (Escaped ValueError)"
      using that by (simp add: bundle_anchor_of_def ck_int_def escaping_def)
    then show ?thesis using assms b that by (simp add: checker_main_def check_paths_def verify_bundle_def)
  qed
qed

theorem malformed_files_escape_witness: "checker_main test_ckenv test_args = Inl UnicodeError"
proof -
  have k: "load_key test_ckenv (ca_key test_args) = Inr ''sk''"
    "load_writer_keys test_ckenv (ca_writer_key test_args) [] = Inr [(ck_key_fingerprint test_ckenv ''sk'', ''sk'')]"
    "load_writer_keys test_ckenv (ca_anchor_key test_args) [] = Inr []"
    "load_deny_list test_ckenv (ca_deny_list test_args) = Inr []"
    by (simp_all add: load_key_def load_deny_list_def test_args_def) (simp_all add: test_ckenv_def)
  show ?thesis using malformed_files_escape [OF k] by (simp add: test_ckenv_def)
qed

end
