(* ===== verification/BundleEndToEnd.thy ===== *)
theory BundleEndToEnd
  imports EvidenceBundle VerifyPath OfflineFacts
begin

text \<open>
  From the verifier to an auditor: the verifier's answer as the JSON the control plane receives,
  the bundle the control plane exports from it, and the offline check of that bundle.
\<close>

section \<open>The verifier's answer as JSON\<close>

definition opt_json :: "('a \<Rightarrow> json) \<Rightarrow> 'a option \<Rightarrow> json" where
  "opt_json f x = (case x of None \<Rightarrow> JNull | Some y \<Rightarrow> f y)"

definition source_state_json :: "source_state \<Rightarrow> json" where
  "source_state_json so = JObj
     [(lit ''db'', JStr (so_db so)), (lit ''tx_id'', JInt (so_tx_id so)),
      (lit ''tx_hash'', JStr (so_tx_hash so)), (lit ''signature'', opt_json JStr (so_signature so))]"

definition proof_material_json :: "proof_material \<Rightarrow> json" where
  "proof_material_json pm = JObj
     [(lit ''format'', JStr (pm_format pm)), (lit ''sdk'', JStr (pm_sdk pm)),
      (lit ''source_state'', source_state_json (pm_source_state pm)),
      (lit ''verifiable_entry'', JStr (pm_verifiable_entry pm)),
      (lit ''prove_since_tx'', JInt (pm_prove_since_tx pm)), (lit ''entry_tx_id'', JInt (pm_entry_tx_id pm)),
      (lit ''signing_key_fingerprint'', opt_json JStr (pm_signing_key_fingerprint pm))]"

text \<open>The texts of the two reporting fields are arguments.\<close>

definition response_fields ::
  "(verify_detail \<Rightarrow> pystr) \<Rightarrow> (state_read \<Rightarrow> json) \<Rightarrow> verify_response \<Rightarrow> dict" where
  "response_fields dt rt r =
     [(lit ''verified'', JBool (vf_verified r)), (lit ''tx_id'', opt_json JInt (vf_tx_id r)),
      (lit ''value'', opt_json JStr (vf_value r)), (lit ''timestamp'', opt_json JInt (vf_timestamp r)),
      (lit ''state_id'', opt_json JInt (vf_state_id r)),
      (lit ''detail'', opt_json (\<lambda>d. JStr (dt d)) (vf_detail r)),
      (lit ''error_class'', opt_json JStr (vf_error_class r)),
      (lit ''proof_material'', opt_json proof_material_json (vf_proof_material r)),
      (lit ''state_read'', opt_json rt (vf_state_read r))]"

section \<open>The three parties\<close>

text \<open>A verifier that holds its connection, a signed anchor and no other key's fingerprint.\<close>

definition ready :: "('w, 'sk, 'vk) venv \<Rightarrow> 'vk \<Rightarrow> ('w, 'sk, 'vk) vstate \<Rightarrow> bool" where
  "ready venv vk s \<longleftrightarrow> client_held s \<and>
     (\<exists>st. rs_cache (root s) = Some st \<and> ve_verify_state venv vk st = Inr ()) \<and>
     fingerprint_cache s \<in> {None, Some (key_fingerprint (ve_crypto venv) vk)}"

definition verifier_behind ::
  "('v, 'sk, 'vk) cenv \<Rightarrow> ('w, 'sk, 'vk) venv \<Rightarrow> 'vk \<Rightarrow> (verify_detail \<Rightarrow> pystr) \<Rightarrow> (state_read \<Rightarrow> json) \<Rightarrow>
   pystr \<Rightarrow> bool" where
  "verifier_behind env venv vk dt rt key \<longleftrightarrow>
     ve_vk venv = Some vk \<and> ve_pubkey_there venv \<and> ve_load_pubkey venv = Inr vk \<and>
     (\<forall>a w re w' j. ce_verify env (JStr key) a w = (Inr re, w') \<longrightarrow> re_status re < 300 \<longrightarrow> re_body re = Some j \<longrightarrow>
        (\<exists>x_api_key anchor s r s'. ready venv vk s \<and> j = JObj (response_fields dt rt r) \<and>
           verify_route venv x_api_key \<lparr>vq_key = key, vq_anchor = anchor\<rparr> s = (Inr (Inr r), s')))"

definition anchor_of_state :: "signed_state \<Rightarrow> bundle_anchor" where
  "anchor_of_state st = \<lparr>ba_db = JStr (st_db st), ba_tx = st_tx st, ba_hash = st_hash st, ba_sig = st_sig st\<rparr>"

text \<open>The auditor runs the same client library and ECDSA library over the same public keys.\<close>

definition same_library :: "('sk, 'vk) ckenv \<Rightarrow> ('w, 'sk, 'vk) venv \<Rightarrow> 'vk \<Rightarrow> bool" where
  "same_library cenv venv vk \<longleftrightarrow>
     ck_crypto cenv = ve_crypto venv \<and> crypto_ok (ck_crypto cenv) \<and> ecdsa_agrees cenv \<and>
     (\<forall>st. ck_verify_state cenv vk (anchor_of_state st) = ve_verify_state venv vk st) \<and>
     (\<forall>ventry st key resp new. ve_sdk_check venv ventry st key (Some vk) = Inr (resp, new) \<longrightarrow>
        ck_parse_entry cenv ventry \<and>
        ck_verified_get cenv ventry (anchor_of_state st) key vk =
          Inr \<lparr>pe_verified = True, pe_id = en_id resp, pe_key = key, pe_value = en_value resp,
               pe_timestamp = en_timestamp resp\<rparr>)"

text \<open>The record under the key is one a service wrote, signed by a key the auditor holds.\<close>

definition written_by_held_key ::
  "('sk, 'vk) ckenv \<Rightarrow> (pystr \<times> 'vk) list \<Rightarrow> deny_list \<Rightarrow> bytes \<Rightarrow> bool" where
  "written_by_held_key cenv keys deny v \<longleftrightarrow>
     (\<exists>rec sk. let wk = verifying_key_of (ck_crypto cenv) sk; fp = key_fingerprint (ck_crypto cenv) wk
        in wf_json (JObj rec) \<and> map_of keys fp = Some wk \<and> KStr fp \<notin> fst ` set deny \<and>
           v = encode_ascii (dumps_compact (JObj (sign_record (ck_crypto cenv) rec sk wk))))"

section \<open>What the verifier answered rests on\<close>

definition keeps_fp :: "(('w, 'sk, 'vk) vstate, 'a) io \<Rightarrow> bool" where
  "keeps_fp m \<longleftrightarrow> (\<forall>s r s'. m s = (r, s') \<longrightarrow> fingerprint_cache s' = fingerprint_cache s)"

lemma keeps_fpD: "keeps_fp m \<Longrightarrow> m s = (r, s') \<Longrightarrow> fingerprint_cache s' = fingerprint_cache s"
  by (simp add: keeps_fp_def)

lemma keeps_fp_basic:
  "keeps_fp (ret x)" "keeps_fp (lift_io q)" "keeps_fp (peek f)" "keeps_fp (on_world m)"
  "keeps_fp (poke (root_update g))" "keeps_fp (poke (client_held_update h))" "keeps_fp (anchor_set env st)"
  by (auto simp: keeps_fp_def ret_def lift_io_def peek_def poke_def anchor_set_def on_world_def split: prod.splits)

lemma keeps_fp_bind: "keeps_fp m \<Longrightarrow> (\<And>x. keeps_fp (f x)) \<Longrightarrow> keeps_fp (bind_io m f)"
  unfolding keeps_fp_def by (intro allI impI, elim bind_ioE) fastforce+

lemma keeps_fp_attempt: "keeps_fp m \<Longrightarrow> (\<And>x. keeps_fp (f x)) \<Longrightarrow> keeps_fp (attempt m f)"
  unfolding keeps_fp_def by (intro allI impI, elim attemptE) fastforce

lemma keeps_fp_cases:
  "keeps_fp m \<Longrightarrow> keeps_fp m' \<Longrightarrow> keeps_fp (if b then m else m')"
  "keeps_fp m \<Longrightarrow> (\<And>y. keeps_fp (f y)) \<Longrightarrow> keeps_fp (case x of None \<Rightarrow> m | Some y \<Rightarrow> f y)"
  "(\<And>y. keeps_fp (g y)) \<Longrightarrow> (\<And>y. keeps_fp (h y)) \<Longrightarrow> keeps_fp (case z of Inl y \<Rightarrow> g y | Inr y \<Rightarrow> h y)"
  "(\<And>u v. keeps_fp (k u v)) \<Longrightarrow> keeps_fp (case p of (u, v) \<Rightarrow> k u v)"
  by (auto split: option.split sum.split prod.split)

lemma keeps_fp_anchor_get: "keeps_fp (anchor_get env)"
  unfolding anchor_get_def
  by (intro keeps_fp_bind keeps_fp_cases keeps_fp_basic keeps_fp_attempt) (auto simp: keeps_fp_def split: prod.splits)

lemma keeps_fp_get_client: "keeps_fp (get_client env)"
  using get_client_frame by (fastforce simp: keeps_fp_def)

lemmas keeps_fp_intros = keeps_fp_anchor_get keeps_fp_get_client keeps_fp_basic keeps_fp_cases keeps_fp_bind keeps_fp_attempt

lemma keeps_fp_prove: "keeps_fp (prove_record env key anchor)"
  unfolding prove_record_def choose_source_def sdk_verified_get_def by (intro keeps_fp_intros)

lemma keeps_fp_state_read: "keeps_fp (state_read_of env anchor)"
  unfolding state_read_of_def head_state_def Let_def by (intro keeps_fp_intros)

lemma material_of_answer:
  assumes "verify_key env key anchor s = (Inr r, s')" "vf_proof_material r = Some pm"
  obtains source ventry resp s1 sid sr s2 where
    "prove_record env key anchor s = (Inr (Inr (source, ventry, resp)), s1)"
    "fingerprint_cache s2 = fingerprint_cache s" "verified_response env source ventry resp sid sr s2 = (Inr r, s')"
proof -
  obtain q s1 where q: "prove_record env key anchor s = (q, s1)" by fastforce
  have "\<exists>source ventry resp. q = Inr (Inr (source, ventry, resp))"
  proof (rule ccontr)
    assume "\<nexists>source ventry resp. q = Inr (Inr (source, ventry, resp))"
    then have "is_refusal r"
      using assms(1) q proof_error_refusal prove_record_refusal [of env key anchor s _ s1]
      by (auto simp: verify_key_def attempt_def ret_def split: sum.splits)
    then show False using assms(2) by (simp add: is_refusal_def)
  qed
  then obtain source ventry resp where p: "q = Inr (Inr (source, ventry, resp))" by blast
  obtain sid sr s2 where sr: "state_read_of env anchor s1 = (Inr (sid, sr), s2)"
    using state_read_of_answers [of env anchor s1] by auto
  obtain v s3 where v: "verified_response env source ventry resp sid sr s2 = (v, s3)" by fastforce
  have "v = Inr r \<and> s3 = s'"
    using assms q p sr v by (auto simp: verify_key_def attempt_def bind_io_def ret_def split: sum.splits)
  then show thesis
    using that q p v keeps_fpD [OF keeps_fp_prove q] keeps_fpD [OF keeps_fp_state_read sr] by metis
qed

text \<open>The state a proof ran against is signed when the anchor held is.\<close>

lemma source_is_signed:
  assumes "prove_record env key anchor s = (Inr (Inr (source, ventry, resp)), s1)" "ready env vk s" "ve_vk env = Some vk"
  shows "ve_verify_state env vk source = Inr ()"
proof (cases anchor)
  case None
  obtain st where st: "rs_cache (root s) = Some st" "ve_verify_state env vk st = Inr ()" "client_held s"
    using assms(2) by (auto simp: ready_def)
  then have "get_client env s = (Inr (), s)" by (simp add: get_client_def bind_io_def peek_def ret_def)
  then have "source = st"
    using assms(1) st None anchor_get_held [OF st(1), of env]
    by (auto simp: prove_record_def choose_source_def bind_io_def ret_def split: prod.splits sum.splits if_splits)
  then show ?thesis using st by simp
next
  case (Some a)
  then show ?thesis using prove_record_established [OF assms(1)] assms(3) by (auto simp: established_def)
qed

section \<open>What is exported\<close>

definition material_of :: "('w, 'sk, 'vk) venv \<Rightarrow> 'vk \<Rightarrow> signed_state \<Rightarrow> bytes \<Rightarrow> sdk_entry \<Rightarrow> proof_material" where
  "material_of env vk source ventry resp =
     \<lparr>pm_format = PROOF_MATERIAL_FORMAT, pm_sdk = SDK_IDENTIFIER,
      pm_source_state =
        \<lparr>so_db = st_db source, so_tx_id = st_tx source, so_tx_hash = b64encode (st_hash source),
         so_signature = (if st_sig source = [] then None else Some (b64encode (st_sig source)))\<rparr>,
      pm_verifiable_entry = b64encode ventry, pm_prove_since_tx = st_tx source, pm_entry_tx_id = en_id resp,
      pm_signing_key_fingerprint = Some (key_fingerprint (ve_crypto env) vk)\<rparr>"

lemma verified_response_material:
  assumes "verified_response env source ventry resp sid sr s = (Inr r, s')"
    and "ve_pubkey_there env" "ve_load_pubkey env = Inr vk"
    and "fingerprint_cache s \<in> {None, Some (key_fingerprint (ve_crypto env) vk)}"
  shows "vf_tx_id r = Some (en_id resp) \<and> vf_value r = Some (b64encode (en_value resp)) \<and>
    vf_timestamp r = Some (en_timestamp resp) \<and> vf_proof_material r = Some (material_of env vk source ventry resp)"
  using assms
  by (auto simp: verified_response_def signing_key_fingerprint_def bind_io_def peek_def poke_def ret_def lift_io_def
      material_of_def key_fingerprint_def Let_def split: prod.splits if_splits)

definition record_json :: "pystr \<Rightarrow> sdk_entry \<Rightarrow> json" where
  "record_json key resp = JObj
     [(lit ''ledger_key'', JStr key), (lit ''value'', JStr (b64encode (en_value resp))),
      (lit ''tx_id'', JInt (en_id resp)), (lit ''timestamp'', JInt (en_timestamp resp)),
      (lit ''record_type'', JStr (page_record_type_of (en_value resp)))]"

definition exported :: "pystr \<Rightarrow> pystr \<Rightarrow> sdk_entry \<Rightarrow> proof_material \<Rightarrow> dict \<Rightarrow> dict" where
  "exported key now resp pm ext =
     [(lit ''bundle_format'', JStr EVIDENCE_BUNDLE_FORMAT), (lit ''exported_at'', JStr (now @ lit ''Z'')),
      (lit ''exported_by'', JStr (lit ''ail-control-plane'')),
      (lit ''record'', record_json key resp),
      (lit ''proof'', proof_material_json pm),
      (lit ''signing_key'', JObj [(lit ''fingerprint'', opt_json JStr (pm_signing_key_fingerprint pm))]),
      (lit ''external_anchor'', JObj ext)]"

lemma response_lookups:
  "dget (response_fields dt rt r) ''tx_id'' = opt_json JInt (vf_tx_id r)"
  "dget (response_fields dt rt r) ''timestamp'' = opt_json JInt (vf_timestamp r)"
  "dict_get (response_fields dt rt r) (lit ''value'') = Some (opt_json JStr (vf_value r))"
  "dget (response_fields dt rt r) ''proof_material'' = opt_json proof_material_json (vf_proof_material r)"
  by (simp_all add: response_fields_def dget_def dict_get_def lit_def)

lemma bundle_of_response:
  assumes "bundle_object key now (response_fields dt rt r) (dget (response_fields dt rt r) ''proof_material'') against = Inr b"
    and "vf_tx_id r = Some (en_id resp)" "vf_value r = Some (b64encode (en_value resp))"
    and "vf_timestamp r = Some (en_timestamp resp)" "vf_proof_material r = Some pm"
  obtains ext where "external_anchor_section against = Inr ext" "b = exported key now resp pm ext"
proof -
  have "get_field (proof_material_json pm) ''signing_key_fingerprint'' = Inr (opt_json JStr (pm_signing_key_fingerprint pm))"
    by (simp add: proof_material_json_def get_field_obj dget_def dict_get_def lit_def)
  then show thesis
    using assms that unfolding bundle_object_def response_lookups
    by (auto simp: opt_json_def bind_sum_Inr_iff exported_def record_json_def)
qed

section \<open>The check of what is exported\<close>

lemma label_agrees: "record_type_of v = page_record_type_of v"
  by (auto simp: record_type_of_def page_record_type_of_def label_of_fields_def split: option.splits json.splits)

lemma entry_of_material: "pm_verifiable_entry (material_of venv vk source ventry resp) = b64encode ventry"
  by (simp add: material_of_def)

lemma no_text_decodes: "b64decode_validate [] = Some []"
  using b64_roundtrip_validate [of "[]"] by (simp add: b64encode_def)

lemma source_lookups:
  "bundle_anchor_of env (source_state_json (pm_source_state (material_of venv vk source ventry resp))) = Inr (anchor_of_state source)"
  by (simp add: bundle_anchor_of_def source_state_json_def material_of_def require_field_def dict_get_def lit_def
      ck_b64_def escaping_def ck_int_def dget_def or_text_def opt_json_def anchor_of_state_def b64encode_nonempty no_text_decodes)

lemma exported_lookups:
  "require_field (JObj (exported key now resp pm ext)) ''record'' = Inr (record_json key resp)"
  "require_field (record_json key resp) ''ledger_key'' = Inr (JStr key)"
  "require_field (JObj (exported key now resp pm ext)) ''proof'' = Inr (proof_material_json pm)"
  "require_field (JObj (exported key now resp pm ext)) ''signing_key'' =
     Inr (JObj [(lit ''fingerprint'', opt_json JStr (pm_signing_key_fingerprint pm))])"
  "require_field (JObj (exported key now resp pm ext)) ''external_anchor'' = Inr (JObj ext)"
  "require_field (proof_material_json pm) ''source_state'' = Inr (source_state_json (pm_source_state pm))"
  "require_field (proof_material_json pm) ''verifiable_entry'' = Inr (JStr (pm_verifiable_entry pm))"
  "require_field (proof_material_json pm) ''signing_key_fingerprint'' = Inr (opt_json JStr (pm_signing_key_fingerprint pm))"
  by (simp_all add: exported_def record_json_def proof_material_json_def require_field_def dict_get_def lit_def)

lemma anchor_tx: "ba_tx (anchor_of_state st) = st_tx st"
  by (simp add: anchor_of_state_def)

lemma exported_fields:
  "dict_get (exported key now resp pm ext) (lit ''external_anchor'') = Some (JObj ext)"
  "require_field (record_json key resp) ''value'' = Inr (JStr (b64encode (en_value resp)))"
  by (simp_all add: exported_def record_json_def require_field_def dict_get_def lit_def)

lemma b64encode_eq: "b64encode a = b64encode b \<longleftrightarrow> a = b"
  by (metis b64_roundtrip option.inject)

lemma exported_value: "exported key now resp pm ext = exported key now' resp' pm' ext' \<Longrightarrow> en_value resp = en_value resp'"
  by (auto simp: exported_def record_json_def b64encode_eq)

lemma readable_copy_agrees:
  "check_readable_copy env
     (record_json key resp)
     (proof_material_json (material_of venv vk source ventry resp)) (anchor_of_state source) raw
     \<lparr>pe_verified = True, pe_id = en_id resp, pe_key = raw, pe_value = en_value resp, pe_timestamp = en_timestamp resp\<rparr> = Inr ()"
  by (simp add: check_readable_copy_Inr same_int_Inr require_field_def dict_get_def lit_def ck_b64_def ck_int_def
      label_agrees record_json_def proof_material_json_def material_of_def anchor_of_state_def)

lemma held_writer_attributed:
  assumes "written_by_held_key cenv keys deny v" "crypto_ok (ck_crypto cenv)" "ecdsa_agrees cenv"
  shows "\<exists>fp. verify_writer_signature cenv (loads_bytes v) keys deny = Inr fp"
proof -
  let ?C = "ck_crypto cenv"
  obtain rec sk where r: "wf_json (JObj rec)"
    "map_of keys (key_fingerprint ?C (verifying_key_of ?C sk)) = Some (verifying_key_of ?C sk)"
    "KStr (key_fingerprint ?C (verifying_key_of ?C sk)) \<notin> fst ` set deny"
    "v = encode_ascii (dumps_compact (JObj (sign_record ?C rec sk (verifying_key_of ?C sk))))"
    using assms(1) by (auto simp: written_by_held_key_def Let_def)
  let ?r = "sign_record ?C rec sk (verifying_key_of ?C sk)"
  have l: "loads_bytes v = Some (JObj ?r)" unfolding r(4) by (rule loads_bytes_compact [OF sign_record_wf [OF r(1)]])
  have d: "distinct (map fst rec)" using r(1) by simp
  have "ec_verify ?C (verifying_key_of ?C sk) (sign_deterministic ?C sk (canonical_record_bytes ?r)) (canonical_record_bytes ?r)"
    "b64encode (sign_deterministic ?C sk (canonical_record_bytes ?r)) \<noteq> []"
    using assms(2) by (simp_all add: crypto_ok_def b64encode_nonempty)
  then show ?thesis
    using assms(3) r(2,3) sign_record_canon [OF d, of ?C sk "verifying_key_of ?C sk"]
    unfolding l attributed_iff
    by (auto simp: sign_record_fields ecdsa_agrees_def key_fingerprint_def lit_def)
qed

lemma skipped_claim:
  assumes "external_anchor_section against = Inr ext"
    and "\<And>a. against = Some a \<Longrightarrow> ar_payload_format a = ANCHOR_PAYLOAD_FORMAT"
    and "require_field bundle ''external_anchor'' = Inr (JObj ext)" "skip \<or> against = None"
  shows "verify_external_anchor cenv bundle src tr akeys skip = Inr (if against = None then NotAnchored else AnchorSkipped)"
proof (cases against)
  case None
  then have "ext = [(lit ''state'', JStr ANCHOR_STATE_NOT_ANCHORED), (lit ''detail'', JStr not_anchored_detail)]"
    using assms(1) by (simp add: external_anchor_section_def)
  then show ?thesis using None assms(3)
    by (simp add: verify_external_anchor_def require_field_def [of "JObj ext" for ext] dict_get_def lit_def
        ANCHOR_STATE_NOT_ANCHORED_def CK_ANCHOR_STATE_NOT_ANCHORED_def)
next
  case (Some a)
  then obtain entry where "ext = [(lit ''state'', JStr ANCHOR_STATE_ANCHORED), (lit ''log_url'', JStr (ar_log_url a)),
      (lit ''log_url_source'', JStr (ar_log_url_source a)), (lit ''log_index'', JStr (ar_log_index a)),
      (lit ''anchor_key_fingerprint'', JStr (ar_key_fingerprint a)),
      (lit ''anchor_payload_format'', JStr ANCHOR_PAYLOAD_FORMAT), (lit ''transparency_log_entry'', entry)]"
    using assms(1) assms(2) [OF Some] by (auto simp: external_anchor_section_def bind_sum_Inr_iff)
  then show ?thesis using Some assms(3,4)
    by (simp add: verify_external_anchor_def anchor_claim_def require_field_def [of "JObj ext" for ext] dict_get_def lit_def
        ANCHOR_STATE_ANCHORED_def CK_ANCHOR_STATE_ANCHORED_def CK_ANCHOR_STATE_NOT_ANCHORED_def ck_fields)
qed

definition report_of :: "('sk, 'vk) ckenv \<Rightarrow> 'vk \<Rightarrow> signed_state \<Rightarrow> bytes \<Rightarrow> sdk_entry \<Rightarrow> pystr \<Rightarrow> anchor_result \<Rightarrow> checked_bundle" where
  "report_of cenv vk source raw resp writer ext =
     \<lparr>cb_tx_id = en_id resp, cb_ledger_key = utf8_decode_replace raw, cb_value = en_value resp,
      cb_timestamp = en_timestamp resp, cb_record_type = record_type_of (en_value resp),
      cb_key_fingerprint = ck_key_fingerprint cenv vk, cb_anchor_tx_id = st_tx source,
      cb_writer_key_fingerprint = writer, cb_external_anchor = ext\<rparr>"

text \<open>Of the offline check of an exported bundle, only the writer and the transparency log are left.\<close>

lemma exported_checks:
  assumes "get_audit_bundle env x_api_key key s = (Inr (Inr b), s')"
    and "verifier_behind env venv vk dt rt key" "same_library cenv venv vk"
  obtains source raw resp pm against ext now where
    "\<And>keys deny tr akeys skip. verify_bundle cenv (JObj b) vk keys deny tr akeys skip =
       bind_sum (verify_writer_signature cenv (loads_bytes (en_value resp)) keys deny) (\<lambda>fp.
       bind_sum (verify_external_anchor cenv (JObj b) (source_state_json (pm_source_state pm)) tr akeys skip) (\<lambda>e.
         Inr (report_of cenv vk source raw resp fp e)))"
    "b = exported key now resp pm ext" "external_anchor_section against = Inr ext"
    "against = None \<or> against = latest_anchor s"
proof -
  note lib = assms(3) [unfolded same_library_def]
  from assms(1) obtain d against now s1 where g: "proof_for_bundle env key (latest_anchor s) s = (Inr (Inr (JObj d, against)), s1)"
    "truthy (dget d ''verified'')" "truthy (dget d ''proof_material'')"
    "bundle_object key now d (dget d ''proof_material'') against = Inr b" "b64decode_validate key \<noteq> None"
    by (rule get_audit_bundleE)
  obtain anchor s2 r s3 w where v: "ready venv vk s2" "d = response_fields dt rt r"
    "verify_route venv w \<lparr>vq_key = key, vq_anchor = anchor\<rparr> s2 = (Inr (Inr r), s3)"
    using proof_for_bundle_reply [OF g(1)] g(2) assms(2) unfolding verifier_behind_def by blast
  have vk: "ve_vk venv = Some vk" "ve_pubkey_there venv" "ve_load_pubkey venv = Inr vk"
    using assms(2) by (simp_all add: verifier_behind_def)
  obtain raw where raw: "b64decode_validate key = Some raw" "b64decode key = Some raw"
    using g(5) validate_decodes by blast
  then have run: "verify_key venv raw anchor s2 = (Inr r, s3)"
    using v(3) by (auto simp: verify_route_def bind_io_def ret_def split: sum.splits prod.splits)
  obtain pm where pm: "vf_proof_material r = Some pm"
    using g(3) unfolding v(2) response_lookups by (cases "vf_proof_material r") (auto simp: opt_json_def)
  obtain source ventry resp s4 sid sr s5 where p: "prove_record venv raw anchor s2 = (Inr (Inr (source, ventry, resp)), s4)"
    "fingerprint_cache s5 = fingerprint_cache s2" "verified_response venv source ventry resp sid sr s5 = (Inr r, s3)"
    by (rule material_of_answer [OF run pm])
  have "fingerprint_cache s5 \<in> {None, Some (key_fingerprint (ve_crypto venv) vk)}"
    using p(2) v(1) by (simp add: ready_def)
  note m = verified_response_material [OF p(3) vk(2,3) this]
  then have pm_is: "pm = material_of venv vk source ventry resp" using pm by simp
  obtain ext where b: "external_anchor_section against = Inr ext" "b = exported key now resp pm ext"
    using bundle_of_response [OF g(4) [unfolded v(2)]] m pm by blast
  obtain new where sdk: "ve_sdk_check venv ventry source raw (Some vk) = Inr (resp, new)"
    using prove_record_established [OF p(1)] vk by (auto simp: established_def)
  have signed: "ck_verify_state cenv vk (anchor_of_state source) = Inr ()"
    using source_is_signed [OF p(1) v(1) vk(1)] lib by simp
  have key: "check_key_named cenv (JObj b) (proof_material_json pm) vk = Inr ()"
    using lib by (simp add: check_key_named_Inr b(2) exported_lookups pm_is material_of_def opt_json_def ck_fingerprint
        dget_def dict_get_def)
  have entry: "prove_entry cenv vk (anchor_of_state source) ventry raw = Inr
      \<lparr>pe_verified = True, pe_id = en_id resp, pe_key = raw, pe_value = en_value resp, pe_timestamp = en_timestamp resp\<rparr>"
    "ck_parse_entry cenv ventry"
    using lib [THEN conjunct2, THEN conjunct2, THEN conjunct2, THEN conjunct2, rule_format, OF sdk]
    by (simp_all add: prove_entry_Inr)
  have "verify_bundle cenv (JObj b) vk keys deny tr akeys skip =
       bind_sum (verify_writer_signature cenv (loads_bytes (en_value resp)) keys deny) (\<lambda>fp.
       bind_sum (verify_external_anchor cenv (JObj b) (source_state_json (pm_source_state pm)) tr akeys skip) (\<lambda>e.
         Inr (report_of cenv vk source raw resp fp e)))" for keys deny tr akeys skip
    using key signed entry raw(1)
    by (simp add: verify_bundle_def b(2) exported_lookups pm_is source_lookups check_anchor_signed_def rejecting_def
        ck_b64_def readable_copy_agrees entry_of_material report_of_def anchor_tx)
  then show thesis using that b proof_for_bundle_reply [OF g(1)] by blast
qed

section \<open>A verifier, a control plane and an auditor\<close>

definition test_signed :: dict where
  "test_signed = sign_record test_crypto [] ''sk'' ''sk''"

definition test_entry :: sdk_entry where
  "test_entry = \<lparr>en_id = 1, en_value = encode_ascii (dumps_compact (JObj test_signed)), en_timestamp = 0\<rparr>"

definition test_prover :: "(history \<times> fault_script, bytes, bytes) venv" where
  "test_prover = test_env\<lparr>ve_vk := Some ''vk'', ve_pubkey_there := True, ve_load_pubkey := Inr ''vk'',
     ve_sdk_check := (\<lambda>e st k vk. Inr (test_entry, st))\<rparr>"

definition test_anchored :: "(history \<times> fault_script, bytes, bytes) vstate" where
  "test_anchored = (test_state [] [])\<lparr>root := (new_root_service Missing (Some ''vk''))\<lparr>rs_cache := Some (state_at 1)\<rparr>\<rparr>"

definition test_answer :: verify_response where
  "test_answer = \<lparr>vf_verified = True, vf_tx_id = Some 1, vf_value = Some (b64encode (en_value test_entry)),
     vf_timestamp = Some 0, vf_state_id = Some 0, vf_detail = None, vf_error_class = None,
     vf_proof_material = Some (material_of test_prover ''vk'' (state_at 1) ''k'' test_entry),
     vf_state_read = Some \<lparr>sr_source = HeadState, sr_status = StateOk\<rparr>\<rparr>"

definition test_exporter :: "(unit, bytes, bytes) cenv" where
  "test_exporter = test_cenv\<lparr>ce_verify := (\<lambda>_ _. ret \<lparr>re_status = 200, re_body = Some (JObj
     (response_fields (\<lambda>_. []) (\<lambda>_. JNull) test_answer))\<rparr>)\<rparr>"

definition test_auditor :: "(bytes, bytes) ckenv" where
  "test_auditor = test_ckenv\<lparr>ck_verified_get := (\<lambda>e a k vk. Inr \<lparr>pe_verified = True, pe_id = 1, pe_key = k,
     pe_value = en_value test_entry, pe_timestamp = 0\<rparr>)\<rparr>"

definition test_writer_keys :: "(pystr \<times> bytes) list" where
  "test_writer_keys = [(key_fingerprint test_crypto ''sk'', ''sk'')]"

lemma test_moved: "rs_set v Saved st \<lparr>rs_key = Some vk, rs_db = None, rs_cache = Some st, rs_file = Missing\<rparr> =
    (case checked v (Some vk) st of Inl e \<Rightarrow> (Inl e, \<lparr>rs_key = Some vk, rs_db = None, rs_cache = Some st, rs_file = Missing\<rparr>)
     | Inr _ \<Rightarrow> (Inr (), \<lparr>rs_key = Some vk, rs_db = None, rs_cache = Some st, rs_file = States [(the None, st)]\<rparr>))"
  by (simp add: rs_set_def Let_def split: sum.splits)

lemma test_verifier_answers:
  "\<exists>s'. verify_key test_prover ''k'' None test_anchored = (Inr test_answer, s')"
  by (simp add: verify_key_def prove_record_def choose_source_def sdk_verified_get_def anchor_get_def anchor_set_def
      state_read_of_def head_state_def verified_response_def signing_key_fingerprint_def get_client_def attempt_def
      bind_io_def ret_def lift_io_def peek_def poke_def on_world_def Let_def test_anchored_def test_prover_def
      test_env_def test_state_def mem_def new_root_service_def test_moved checked_def state_at_def test_answer_def material_of_def
      key_fingerprint_def test_entry_def)

lemma test_behind: "verifier_behind test_exporter test_prover ''vk'' (\<lambda>_. []) (\<lambda>_. JNull) (b64encode ''k'')"
proof -
  obtain s' where run: "verify_key test_prover ''k'' None test_anchored = (Inr test_answer, s')"
    using test_verifier_answers by blast
  have "ready test_prover ''vk'' test_anchored"
    by (simp add: ready_def test_anchored_def test_state_def new_root_service_def test_prover_def test_env_def)
  moreover have "verify_route test_prover (lit ''r'') \<lparr>vq_key = b64encode ''k'', vq_anchor = None\<rparr> test_anchored =
      (Inr (Inr test_answer), s')"
    using run by (simp add: verify_route_def require_read_key_def bind_io_def ret_def test_prover_def test_env_def lit_def)
  moreover have "ve_vk test_prover = Some ''vk''" "ve_pubkey_there test_prover" "ve_load_pubkey test_prover = Inr ''vk''"
    by (simp_all add: test_prover_def)
  moreover have "j = JObj (response_fields (\<lambda>_. []) (\<lambda>_. JNull) test_answer)"
    if "ce_verify test_exporter k a w = (Inr re, w')" "re_body re = Some j" for k a w re w' j
    using that by (auto simp: test_exporter_def ret_def)
  ultimately show ?thesis unfolding verifier_behind_def by blast
qed

lemma test_same_library: "same_library test_auditor test_prover ''vk''"
  by (simp add: same_library_def test_ecdsa_agrees test_auditor_def test_prover_def test_env_def test_crypto_ok
      test_entry_def) (simp add: test_ckenv_def test_crypto_ok test_ecdsa_agrees)

lemma test_written: "written_by_held_key test_auditor test_writer_keys [] (en_value test_entry)"
  unfolding written_by_held_key_def Let_def
  by (rule exI [of _ "[]"], rule exI [of _ "''sk''"])
    (simp add: test_auditor_def test_ckenv_def test_writer_keys_def test_entry_def test_signed_def test_crypto_def)

lemma test_export:
  "\<exists>b. get_audit_bundle test_exporter (lit ''r'') (b64encode ''k'') (test_cstate ()) = (Inr (Inr b), test_cstate ())"
proof -
  have k: "b64encode ''k'' \<noteq> []" by (rule b64encode_nonempty) simp
  have v: "dget (response_fields dt rt test_answer) ''verified'' = JBool True" "vf_proof_material test_answer \<noteq> None"
    "vf_tx_id test_answer = Some 1" "vf_timestamp test_answer = Some 0" "vf_value test_answer = Some (b64encode (en_value test_entry))"
    for dt rt
    by (simp_all add: response_fields_def dget_def dict_get_def test_answer_def)
  have f: "get_field (proof_material_json pm) ''signing_key_fingerprint'' = Inr (opt_json JStr (pm_signing_key_fingerprint pm))"
    "truthy (proof_material_json pm)" for pm
    by (simp_all add: proof_material_json_def dget_def dict_get_def lit_def)
  obtain pm where pm: "vf_proof_material test_answer = Some pm" using v(2) by blast
  show ?thesis
    by (simp add: get_audit_bundle_def page_require_read_key_def test_exporter_def test_cenv_def bind_io_def cpeek_def
        latest_anchor_def test_cstate_def proof_for_bundle_def call_verifier_def attempt_def outside_def ret_def lift_io_def
        checked_body_def raise_for_status_def json_body_def v bundle_object_def response_lookups f
        external_anchor_section_def opt_json_def pm) (simp add: lit_def)
qed

text \<open>The exported test bundle, its record's value and its claim.\<close>

lemma test_exported:
  assumes "get_audit_bundle test_exporter (lit ''r'') (b64encode ''k'') (test_cstate ()) = (Inr (Inr b), test_cstate ())"
  shows "\<exists>now pm ext. b = exported (b64encode ''k'') now test_entry pm ext \<and> external_anchor_section None = Inr ext"
proof -
  from assms obtain d against now s1 where g:
    "proof_for_bundle test_exporter (b64encode ''k'') (latest_anchor (test_cstate ())) (test_cstate ()) = (Inr (Inr (JObj d, against)), s1)"
    "truthy (dget d ''verified'')" "bundle_object (b64encode ''k'') now d (dget d ''proof_material'') against = Inr b"
    by (rule get_audit_bundleE)
  have none: "latest_anchor (test_cstate ()) = None" by (simp add: latest_anchor_def test_cstate_def)
  then have against: "against = None" using proof_for_bundle_reply [OF g(1)] by auto
  have d: "d = response_fields (\<lambda>_. []) (\<lambda>_. JNull) test_answer"
    using proof_for_bundle_reply [OF g(1)] g(2) by (auto simp: test_exporter_def ret_def)
  have a: "vf_tx_id test_answer = Some (en_id test_entry)" "vf_value test_answer = Some (b64encode (en_value test_entry))"
    "vf_timestamp test_answer = Some (en_timestamp test_entry)"
    "vf_proof_material test_answer = Some (material_of test_prover ''vk'' (state_at 1) ''k'' test_entry)"
    by (simp_all add: test_answer_def test_entry_def)
  show ?thesis using bundle_of_response [OF g(3) [unfolded d] a] against by metis
qed

lemma test_checked:
  "\<exists>b cb. verify_bundle test_auditor (JObj b) ''vk'' test_writer_keys [] None [] True = Inr cb"
proof -
  obtain b where run: "get_audit_bundle test_exporter (lit ''r'') (b64encode ''k'') (test_cstate ()) = (Inr (Inr b), test_cstate ())"
    using test_export by blast
  obtain source raw resp pm against ext now where f:
    "\<And>keys deny tr akeys skip. verify_bundle test_auditor (JObj b) ''vk'' keys deny tr akeys skip =
       bind_sum (verify_writer_signature test_auditor (loads_bytes (en_value resp)) keys deny) (\<lambda>fp.
       bind_sum (verify_external_anchor test_auditor (JObj b) (source_state_json (pm_source_state pm)) tr akeys skip) (\<lambda>e.
         Inr (report_of test_auditor ''vk'' source raw resp fp e)))"
    "b = exported (b64encode ''k'') now resp pm ext" "external_anchor_section against = Inr ext"
    "against = None \<or> against = latest_anchor (test_cstate ())"
    by (rule exported_checks [OF run test_behind test_same_library], rule that)
  have v: "en_value resp = en_value test_entry"
    using test_exported [OF run] f(2) exported_value by metis
  have none: "against = None" using f(4) by (simp add: latest_anchor_def test_cstate_def)
  have "verify_external_anchor test_auditor (JObj b) src None [] True = Inr NotAnchored" for src
    using skipped_claim [OF f(3), of "JObj b" True test_auditor src None "[]"] none
    by (simp add: f(2) exported_lookups)
  moreover obtain fp where "verify_writer_signature test_auditor (loads_bytes (en_value test_entry)) test_writer_keys [] = Inr fp"
    using held_writer_attributed [OF test_written] test_same_library by (auto simp: same_library_def)
  ultimately have "verify_bundle test_auditor (JObj b) ''vk'' test_writer_keys [] None [] True =
      Inr (report_of test_auditor ''vk'' source raw resp fp NotAnchored)"
    unfolding f(1) v by simp
  then show ?thesis by blast
qed

section \<open>Properties\<close>

text \<open>
  C25: what the control plane exports, an auditor can check. When the verifier behind it holds a
  signed anchor and the auditor runs the same libraries over the same public key, the offline check
  of a bundle of \<open>GET /audit/bundle\<close> can fail on nothing but the record's own writer signature
  and the external anchor: whatever keys, deny-list, trust root and flags the auditor gives, its
  outcome is the outcome of those two checks, in this order, and what it reports is the proven
  record. The writer's check passes for every record a service signed with a key the auditor holds
  and does not deny. The external check passes as not anchored for a bundle that claims no anchor,
  and as skipped for an anchored one checked with \<open>--skip-anchor-check\<close>; of an anchored bundle
  checked against the transparency log nothing is claimed. The rows of the anchor table carry the
  one payload format there is.
\<close>

theorem exported_bundle_verifies:
  assumes "get_audit_bundle env x_api_key key s = (Inr (Inr b), s')"
    and "verifier_behind env venv vk dt rt key" "same_library cenv venv vk"
    and "\<forall>a \<in> set (anchors s). ar_payload_format a = ANCHOR_PAYLOAD_FORMAT"
  shows "\<exists>rec src x v report.
    require_field (JObj b) ''record'' = Inr rec \<and> require_field rec ''value'' = Inr (JStr (b64encode v)) \<and>
    dict_get b (lit ''external_anchor'') = Some (JObj x) \<and>
    (\<forall>keys deny tr akeys skip. verify_bundle cenv (JObj b) vk keys deny tr akeys skip =
       bind_sum (verify_writer_signature cenv (loads_bytes v) keys deny) (\<lambda>writer.
       bind_sum (verify_external_anchor cenv (JObj b) src tr akeys skip) (\<lambda>ext. Inr (report writer ext)))) \<and>
    (\<forall>writer ext. cb_value (report writer ext) = v \<and> cb_writer_key_fingerprint (report writer ext) = writer \<and>
       cb_external_anchor (report writer ext) = ext) \<and>
    (\<forall>keys deny. written_by_held_key cenv keys deny v \<longrightarrow>
       (\<exists>writer. verify_writer_signature cenv (loads_bytes v) keys deny = Inr writer)) \<and>
    (\<forall>tr akeys skip. skip \<or> dget x ''state'' \<noteq> JStr ANCHOR_STATE_ANCHORED \<longrightarrow>
       verify_external_anchor cenv (JObj b) src tr akeys skip =
         Inr (if dget x ''state'' = JStr ANCHOR_STATE_ANCHORED then AnchorSkipped else NotAnchored))"
proof -
  obtain source raw resp pm against ext now where f:
    "\<And>keys deny tr akeys skip. verify_bundle cenv (JObj b) vk keys deny tr akeys skip =
       bind_sum (verify_writer_signature cenv (loads_bytes (en_value resp)) keys deny) (\<lambda>fp.
       bind_sum (verify_external_anchor cenv (JObj b) (source_state_json (pm_source_state pm)) tr akeys skip) (\<lambda>e.
         Inr (report_of cenv vk source raw resp fp e)))"
    "b = exported key now resp pm ext" "external_anchor_section against = Inr ext"
    "against = None \<or> against = latest_anchor s"
    by (rule exported_checks [OF assms(1-3)], rule that)
  have fmt: "ar_payload_format a = ANCHOR_PAYLOAD_FORMAT" if "against = Some a" for a
    using that f(4) latest_is_greatest [of s] assms(4) by (auto split: option.splits)
  have ext: "verify_external_anchor cenv (JObj b) src tr akeys skip = Inr (if against = None then NotAnchored else AnchorSkipped)"
    if "skip \<or> against = None" for src tr akeys skip
    by (rule skipped_claim [OF f(3) fmt _ that]) (simp_all add: f(2) exported_lookups)
  have claimed: "verify_external_anchor cenv (JObj b) src tr akeys skip =
      Inr (if dget ext ''state'' = JStr ANCHOR_STATE_ANCHORED then AnchorSkipped else NotAnchored)"
    if "skip \<or> dget ext ''state'' \<noteq> JStr ANCHOR_STATE_ANCHORED" for src tr akeys skip
    using that unfolding external_state [OF f(3)] by (subst ext) auto
  have held: "\<exists>writer. verify_writer_signature cenv (loads_bytes (en_value resp)) keys deny = Inr writer"
    if "written_by_held_key cenv keys deny (en_value resp)" for keys deny
    using assms(3) unfolding same_library_def by (intro held_writer_attributed [OF that]) blast+
  show ?thesis
    by (rule exI [of _ "record_json key resp"], rule exI [of _ "source_state_json (pm_source_state pm)"], rule exI [of _ ext],
        rule exI [of _ "en_value resp"], rule exI [of _ "report_of cenv vk source raw resp"], intro conjI allI impI)
      (simp_all only: f(1) claimed held, simp_all add: f(2) exported_lookups exported_fields report_of_def)
qed

theorem exported_bundle_verifies_witness:
  "\<exists>b s' cb. get_audit_bundle test_exporter (lit ''r'') (b64encode ''k'') (test_cstate ()) = (Inr (Inr b), s') \<and>
     (\<forall>skip. verify_bundle test_auditor (JObj b) ''vk'' test_writer_keys [] None [] skip = Inr cb) \<and>
     cb_external_anchor cb = NotAnchored"
proof -
  obtain b where run: "get_audit_bundle test_exporter (lit ''r'') (b64encode ''k'') (test_cstate ()) = (Inr (Inr b), test_cstate ())"
    using test_export by blast
  have none: "\<forall>a \<in> set (anchors (test_cstate ())). ar_payload_format a = ANCHOR_PAYLOAD_FORMAT"
    by (simp add: test_cstate_def)
  obtain rec src x v report where f: "require_field (JObj b) ''record'' = Inr rec"
    "require_field rec ''value'' = Inr (JStr (b64encode v))" "dict_get b (lit ''external_anchor'') = Some (JObj x)"
    "\<forall>keys deny tr akeys skip. verify_bundle test_auditor (JObj b) ''vk'' keys deny tr akeys skip =
       bind_sum (verify_writer_signature test_auditor (loads_bytes v) keys deny) (\<lambda>writer.
       bind_sum (verify_external_anchor test_auditor (JObj b) src tr akeys skip) (\<lambda>ext. Inr (report writer ext)))"
    "\<forall>writer ext. cb_value (report writer ext) = v \<and> cb_writer_key_fingerprint (report writer ext) = writer \<and>
       cb_external_anchor (report writer ext) = ext"
    "\<forall>keys deny. written_by_held_key test_auditor keys deny v \<longrightarrow>
       (\<exists>writer. verify_writer_signature test_auditor (loads_bytes v) keys deny = Inr writer)"
    "\<forall>tr akeys skip. skip \<or> dget x ''state'' \<noteq> JStr ANCHOR_STATE_ANCHORED \<longrightarrow>
       verify_external_anchor test_auditor (JObj b) src tr akeys skip =
         Inr (if dget x ''state'' = JStr ANCHOR_STATE_ANCHORED then AnchorSkipped else NotAnchored)"
    using exported_bundle_verifies [OF run test_behind test_same_library none] by (elim exE conjE) (rule that)
  have v: "v = en_value test_entry" and x: "dget x ''state'' \<noteq> JStr ANCHOR_STATE_ANCHORED"
    using test_exported [OF run] f(1-3) external_state [of None] by (auto simp: exported_lookups exported_fields b64encode_eq)
  obtain writer where "verify_writer_signature test_auditor (loads_bytes v) test_writer_keys [] = Inr writer"
    using f(6) test_written unfolding v by blast
  then have "verify_bundle test_auditor (JObj b) ''vk'' test_writer_keys [] None [] skip = Inr (report writer NotAnchored)" for skip
    using f(4,7) x by simp
  then show ?thesis using run f(5) by blast
qed

theorem verified_bundle_displays_what_was_proved_witness:
  "\<exists>b cb rec. verify_bundle test_auditor (JObj b) ''vk'' test_writer_keys [] None [] True = Inr cb \<and>
     require_field (JObj b) ''record'' = Inr rec \<and> bind_sum (require_field rec ''value'') ck_b64 = Inr (cb_value cb)"
proof -
  obtain b cb where cb: "verify_bundle test_auditor (JObj b) ''vk'' test_writer_keys [] None [] True = Inr cb"
    using test_checked by blast
  obtain rec and result :: proven_entry where "require_field (JObj b) ''record'' = Inr rec"
    "bind_sum (require_field rec ''value'') ck_b64 = Inr (pe_value result)" "cb_value cb = pe_value result"
    using verified_bundle_displays_what_was_proved [OF cb] by blast
  then show ?thesis using cb by metis
qed

end
