(* ===== verification/Reconcile.thy ===== *)
theory Reconcile
  imports ControlState Reserve
begin

text \<open>
  The reconciliation pass of the anchoring service (\<open>reconcile_once\<close> and what it calls in
  \<open>anchor_service/main.py\<close>): it walks every view in pages, compares the positions with the
  counter and reports. A score is the number a parameter gives for its JSON value; the walk
  counts its pages down from a bound.
\<close>

section \<open>Views and findings\<close>

definition PASS_SEQUENCE_KEY :: bytes where
  "PASS_SEQUENCE_KEY = ''ail_seq:commit''"

definition PASS_RESERVE_KEY :: bytes where
  "PASS_RESERVE_KEY = ''ail_seq:reserve''"

definition VIEW_PREFIXES :: "(bytes \<times> bytes) list" where
  "VIEW_PREFIXES = [(''ail_view:decision:v1'', ''tool_call:''), (''ail_view:intent:v1'', ''tool_call_intent:'')]"

definition ZSCAN_PAGE :: nat where
  "ZSCAN_PAGE = 2500"

datatype malformed =
    ZscanFailed nat
  | UnparseableScore bytes json
  | OutsideBound bytes rat rat json
  | ScoreAbsent bytes json
  | UnreadableKey bytes rat
  | UnparseableCursor bytes

record foreign_entry =
  fo_position :: rat
  fo_key :: pystr
  fo_expected :: bytes

record view_data =
  vd_positions :: "(rat \<times> pystr list) list"
  vd_foreign :: "foreign_entry list"
  vd_malformed :: "malformed list"

definition no_data :: view_data where
  "no_data = \<lparr>vd_positions = [], vd_foreign = [], vd_malformed = []\<rparr>"

datatype verdict = ReserveDisagrees int | NoSequence | Clean | Findings

record report =
  rp_state :: verdict
  rp_allocated :: int
  rp_indexed :: nat
  rp_backfilled :: int
  rp_missing :: "int list"
  rp_missing_count :: nat
  rp_unallocated :: "rat list"
  rp_unallocated_count :: nat
  rp_foreign :: "foreign_entry list"
  rp_foreign_count :: nat
  rp_shared :: "int list"
  rp_shared_count :: nat
  rp_malformed :: "malformed list"
  rp_malformed_count :: nat
  rp_duplicated :: "(bytes \<times> pystr \<times> rat list) list"
  rp_duplicated_count :: nat
  rp_views :: "(bytes \<times> nat) list"

record 'w renv =
  rn_user :: pystr
  rn_password :: pystr
  rn_login :: "pystr \<Rightarrow> pystr \<Rightarrow> pystr \<Rightarrow> ('w, reply) io"
  rn_getall :: "json \<Rightarrow> pystr list \<Rightarrow> ('w, reply) io"
  rn_zscan :: "json \<Rightarrow> pystr \<Rightarrow> rat option \<Rightarrow> nat \<Rightarrow> ('w, reply) io"
  rn_float :: "json \<Rightarrow> exn + rat"
  rn_reserved :: int
  rn_report_path :: pystr
  rn_write :: "report \<Rightarrow> ('w, unit) io"

definition pass_login :: "'w renv \<Rightarrow> ('w, json) io" where
  "pass_login env =
     bind_io (lift_io (text_b64 (rn_user env))) (\<lambda>user.
       bind_io (lift_io (text_b64 (rn_password env))) (\<lambda>password.
         bind_io (rn_login env user password (b64encode ''defaultdb'')) (\<lambda>resp.
           bind_io (lift_io (checked_body resp)) (\<lambda>body. lift_io (item body ''token'')))))"

section \<open>Collecting the positions\<close>

text \<open>\<open>positions.setdefault(score, []).append(key)\<close>\<close>

fun add_position :: "(rat \<times> pystr list) list \<Rightarrow> rat \<Rightarrow> pystr \<Rightarrow> (rat \<times> pystr list) list" where
  "add_position [] score key = [(score, [key])]"
| "add_position ((s, ks) # d) score key =
     (if s = score then (s, ks @ [key]) # d else (s, ks) # add_position d score key)"

text \<open>\<open>row.get("entry", {}).get("key", "")\<close>, and the key of a row, decoded\<close>

definition shown_key :: "json \<Rightarrow> exn + json" where
  "shown_key row = bind_sum (get_default row ''entry'' (JObj [])) (\<lambda>e. get_default e ''key'' (JStr []))"

definition row_key :: "json \<Rightarrow> exn + pystr" where
  "row_key row =
     bind_sum (item row ''entry'') (\<lambda>e. bind_sum (item e ''key'') (\<lambda>k.
       map_sum id utf8_decode_replace (of_option ValueError (b64decode_json k))))"

definition unparseable :: "exn \<Rightarrow> bool" where
  "unparseable e \<longleftrightarrow> e = TypeError \<or> e = ValueError"

definition add_malformed :: "malformed \<Rightarrow> view_data \<Rightarrow> view_data" where
  "add_malformed m d = d\<lparr>vd_malformed := vd_malformed d @ [m]\<rparr>"

definition add_member :: "bytes \<Rightarrow> rat \<Rightarrow> pystr \<Rightarrow> view_data \<Rightarrow> view_data" where
  "add_member expected score key d =
     (let d = d\<lparr>vd_positions := add_position (vd_positions d) score key\<rparr>
      in if starts_with key (lit expected) then d
         else d\<lparr>vd_foreign := vd_foreign d @ [\<lparr>fo_position = score, fo_key = key, fo_expected = expected\<rparr>]\<rparr>)"

text \<open>A number, or None where the source catches that the value is not one.\<close>

definition read_score :: "'w renv \<Rightarrow> json \<Rightarrow> exn + rat option" where
  "read_score env row =
     bind_sum (get_default row ''score'' (JFloat (lit ''0.0''))) (\<lambda>raw_score.
       case rn_float env raw_score of
         Inl e \<Rightarrow> if unparseable e then Inr None else Inl e
       | Inr score \<Rightarrow> Inr (Some score))"

definition raw_score_of :: "json \<Rightarrow> json" where
  "raw_score_of row = (case get_default row ''score'' (JFloat (lit ''0.0'')) of Inl _ \<Rightarrow> JNull | Inr x \<Rightarrow> x)"

definition check_bound :: "bytes \<Rightarrow> rat option \<Rightarrow> rat \<Rightarrow> json \<Rightarrow> view_data \<Rightarrow> exn + view_data" where
  "check_bound view min_score score row d =
     (case min_score of
        Some m \<Rightarrow> if score < m then map_sum id (\<lambda>k. add_malformed (OutsideBound view score m k) d) (shown_key row)
                  else Inr d
      | None \<Rightarrow> Inr d)"

definition check_present :: "bytes \<Rightarrow> json \<Rightarrow> view_data \<Rightarrow> exn + view_data" where
  "check_present view row d =
     (if (case row of JObj kvs \<Rightarrow> dict_get kvs (lit ''score'') = None | _ \<Rightarrow> True)
      then map_sum id (\<lambda>k. add_malformed (ScoreAbsent view k) d) (shown_key row)
      else Inr d)"

definition take_key :: "bytes \<Rightarrow> bytes \<Rightarrow> rat \<Rightarrow> json \<Rightarrow> view_data \<Rightarrow> view_data" where
  "take_key view expected score row d =
     (case row_key row of
        Inl _ \<Rightarrow> add_malformed (UnreadableKey view score) d
      | Inr key \<Rightarrow> add_member expected score key d)"

definition collect_row :: "'w renv \<Rightarrow> bytes \<Rightarrow> bytes \<Rightarrow> rat option \<Rightarrow> json \<Rightarrow> view_data \<Rightarrow> exn + view_data" where
  "collect_row env view expected min_score row d =
     bind_sum (read_score env row) (\<lambda>s. case s of
       None \<Rightarrow> Inr (add_malformed (UnparseableScore view (raw_score_of row)) d)
     | Some score \<Rightarrow>
         bind_sum (check_bound view min_score score row d) (\<lambda>d.
           bind_sum (check_present view row d) (\<lambda>d. Inr (take_key view expected score row d))))"

fun collect_rows :: "'w renv \<Rightarrow> bytes \<Rightarrow> bytes \<Rightarrow> rat option \<Rightarrow> json list \<Rightarrow> view_data \<Rightarrow> exn + view_data" where
  "collect_rows env view expected min_score [] d = Inr d"
| "collect_rows env view expected min_score (row # rows) d =
     bind_sum (collect_row env view expected min_score row d) (collect_rows env view expected min_score rows)"

text \<open>One page: the data with its rows, and the score the next page starts at if there is one.\<close>

definition collect_page ::
  "'w renv \<Rightarrow> bytes \<Rightarrow> bytes \<Rightarrow> rat option \<Rightarrow> json \<Rightarrow> view_data \<Rightarrow> exn + view_data \<times> rat option" where
  "collect_page env view expected min_score body d =
     bind_sum (get_default body ''entries'' (JArr [])) (\<lambda>entries.
       if \<not> truthy entries then Inr (d, None)
       else bind_sum (py_iter entries) (\<lambda>rows.
         bind_sum (collect_rows env view expected min_score rows d) (\<lambda>d'.
           bind_sum (read_score env (last rows)) (\<lambda>cursor. Inr (case cursor of
               None \<Rightarrow> (add_malformed (UnparseableCursor view) d', None)
             | Some next_score \<Rightarrow>
                 (d', if length rows < ZSCAN_PAGE \<or> length (vd_positions d') = length (vd_positions d)
                      then None else Some next_score))))))"

fun collect_view ::
  "nat \<Rightarrow> 'w renv \<Rightarrow> json \<Rightarrow> bytes \<Rightarrow> bytes \<Rightarrow> rat option \<Rightarrow> view_data \<Rightarrow> ('w, view_data option) io" where
  "collect_view 0 env token view expected min_score d = ret None"
| "collect_view (Suc fuel) env token view expected min_score d =
     bind_io (rn_zscan env token (b64encode view) min_score ZSCAN_PAGE) (\<lambda>resp.
       if re_status resp \<noteq> 200 then ret (Some (add_malformed (ZscanFailed (re_status resp)) d))
       else bind_io (lift_io (bind_sum (json_body resp) (\<lambda>body. collect_page env view expected min_score body d)))
         (\<lambda>(d', next_score). case next_score of
            None \<Rightarrow> ret (Some d')
          | Some m \<Rightarrow> collect_view fuel env token view expected (Some m) d'))"

fun collect_views ::
  "nat \<Rightarrow> 'w renv \<Rightarrow> json \<Rightarrow> (bytes \<times> bytes) list \<Rightarrow> ('w, (bytes \<times> view_data) list option) io" where
  "collect_views fuel env token [] = ret (Some [])"
| "collect_views fuel env token ((view, expected) # views) =
     bind_io (collect_view fuel env token view expected None no_data) (\<lambda>r. case r of
       None \<Rightarrow> ret None
     | Some d \<Rightarrow> bind_io (collect_views fuel env token views) (\<lambda>rs. ret (map_option (Cons (view, d)) rs)))"

definition collect_positions :: "nat \<Rightarrow> 'w renv \<Rightarrow> json \<Rightarrow> ('w, (bytes \<times> view_data) list option) io" where
  "collect_positions fuel env token = collect_views fuel env token VIEW_PREFIXES"

section \<open>The pass\<close>

definition entry_text :: "json \<Rightarrow> exn + pystr" where
  "entry_text entries =
     bind_sum (first_entry entries) (\<lambda>e. bind_sum (item e ''value'') (\<lambda>v.
       bind_sum (of_option ValueError (b64decode_json v)) (\<lambda>b. of_option UnicodeError (utf8_decode b))))"

definition pass_bound_reserve :: "'w renv \<Rightarrow> json \<Rightarrow> ('w, int option) io" where
  "pass_bound_reserve env token =
     bind_io (rn_getall env token [b64encode PASS_RESERVE_KEY]) (\<lambda>resp.
       if re_status resp \<noteq> 200 then ret None
       else lift_io (bind_sum (json_body resp) (\<lambda>body.
         bind_sum (get_default body ''entries'' (JArr [])) (\<lambda>entries.
           if \<not> truthy entries then Inr None
           else bind_sum (entry_text entries) (\<lambda>t. map_sum id Some (reconcile_validate_reserve t))))))"

definition write_report :: "'w renv \<Rightarrow> report \<Rightarrow> ('w, unit) io" where
  "write_report env result =
     (if rn_report_path env = [] then ret ()
      else attempt (rn_write env result) (\<lambda>r. case r of
             Inl (SystemExit e) \<Rightarrow> raise_io (SystemExit e)
           | _ \<Rightarrow> ret ()))"

definition empty_report :: "verdict \<Rightarrow> report" where
  "empty_report state =
     \<lparr>rp_state = state, rp_allocated = 0, rp_indexed = 0, rp_backfilled = 0, rp_missing = [], rp_missing_count = 0,
      rp_unallocated = [], rp_unallocated_count = 0, rp_foreign = [], rp_foreign_count = 0, rp_shared = [],
      rp_shared_count = 0, rp_malformed = [], rp_malformed_count = 0, rp_duplicated = [], rp_duplicated_count = 0,
      rp_views = []\<rparr>"

definition scores_of :: "view_data \<Rightarrow> rat list" where
  "scores_of d = map fst (vd_positions d)"

definition whole :: "rat \<Rightarrow> bool" where
  "whole q \<longleftrightarrow> of_int \<lfloor>q\<rfloor> = q"

text \<open>The positions of a view the counter could have handed out.\<close>

definition live_of :: "int \<Rightarrow> view_data \<Rightarrow> int list" where
  "live_of reserve d = remdups (map floor (filter (\<lambda>n. n > of_int reserve \<and> whole n) (scores_of d)))"

definition shared_of :: "int \<Rightarrow> (bytes \<times> view_data) list \<Rightarrow> int list" where
  "shared_of reserve per_view =
     sort (remdups (concat (map (\<lambda>(a, d). concat (map (\<lambda>(b, e).
        if lit a < lit b then filter (\<lambda>n. n \<in> set (live_of reserve e)) (live_of reserve d) else []) per_view)) per_view)))"

text \<open>Each key with the scores of its entries, in the order they were read.\<close>

definition scores_by_key :: "view_data \<Rightarrow> pystr \<Rightarrow> rat list" where
  "scores_by_key d key = concat (map (\<lambda>(s, ks). map (\<lambda>_. s) (filter (\<lambda>k. k = key) ks)) (vd_positions d))"

definition keys_of :: "view_data \<Rightarrow> pystr list" where
  "keys_of d = sort (remdups (concat (map snd (vd_positions d))))"

definition duplicated_of :: "(bytes \<times> view_data) list \<Rightarrow> (bytes \<times> pystr \<times> rat list) list" where
  "duplicated_of per_view =
     concat (map (\<lambda>(view, d). map (\<lambda>key. (view, key, sort (scores_by_key d key)))
        (filter (\<lambda>key. length (scores_by_key d key) > 1) (keys_of d))) per_view)"

definition all_positions :: "(bytes \<times> view_data) list \<Rightarrow> rat list" where
  "all_positions per_view = remdups (concat (map (\<lambda>(view, d). scores_of d) per_view))"

definition findings_report :: "int \<Rightarrow> int \<Rightarrow> (bytes \<times> view_data) list \<Rightarrow> report" where
  "findings_report reserve allocated per_view =
     (let foreign = concat (map (\<lambda>(view, d). vd_foreign d) per_view);
          malformed = concat (map (\<lambda>(view, d). vd_malformed d) per_view);
          shared = shared_of reserve per_view;
          duplicated = duplicated_of per_view;
          live = remdups (concat (map (\<lambda>(view, d). live_of reserve d) per_view));
          fractional = filter (\<lambda>n. n > of_int reserve \<and> \<not> whole n) (all_positions per_view);
          handed_out = [reserve + 1 .. allocated];
          missing = filter (\<lambda>n. n \<notin> set live) handed_out;
          unallocated = sort (map of_int (filter (\<lambda>n. n \<notin> set handed_out) live) @ fractional);
          findings = missing \<noteq> [] \<or> unallocated \<noteq> [] \<or> foreign \<noteq> [] \<or> shared \<noteq> [] \<or> malformed \<noteq> [] \<or> duplicated \<noteq> []
      in \<lparr>rp_state = (if findings then Findings else Clean), rp_allocated = max 0 (allocated - reserve),
          rp_indexed = length live,
          rp_backfilled = int (length (all_positions per_view)) - int (length live) - int (length fractional),
          rp_missing = take 100 missing, rp_missing_count = length missing,
          rp_unallocated = take 100 unallocated, rp_unallocated_count = length unallocated,
          rp_foreign = take 100 foreign, rp_foreign_count = length foreign,
          rp_shared = take 100 shared, rp_shared_count = length shared,
          rp_malformed = take 100 malformed, rp_malformed_count = length malformed,
          rp_duplicated = take 100 duplicated, rp_duplicated_count = length duplicated,
          rp_views = map (\<lambda>(view, d). (view, length (vd_positions d))) per_view\<rparr>)"

text \<open>The counter's reply: no entry when it was not read, and the value it holds.\<close>

definition counter_of :: "reply \<Rightarrow> exn + int option" where
  "counter_of resp =
     (if re_status resp \<noteq> 200 then Inr None
      else bind_sum (json_body resp) (\<lambda>body.
        bind_sum (get_default body ''entries'' (JArr [])) (\<lambda>entries.
          if \<not> truthy entries then Inr None
          else bind_sum (entry_text entries) (\<lambda>t. map_sum id Some (of_option ValueError (py_int (strip t)))))))"

definition reconcile_once :: "nat \<Rightarrow> 'w renv \<Rightarrow> ('w, report option) io" where
  "reconcile_once fuel env =
     bind_io (pass_login env) (\<lambda>token.
       bind_io (pass_bound_reserve env token) (\<lambda>bound.
         if bound \<noteq> None \<and> bound \<noteq> Some (rn_reserved env)
         then (let result = empty_report (ReserveDisagrees (the bound))
               in bind_io (write_report env result) (\<lambda>_. ret (Some result)))
         else bind_io (rn_getall env token [b64encode PASS_SEQUENCE_KEY]) (\<lambda>resp.
           bind_io (lift_io (counter_of resp)) (\<lambda>counter. case counter of
             None \<Rightarrow> (let result = empty_report NoSequence
                       in bind_io (write_report env result) (\<lambda>_. ret (Some result)))
           | Some allocated \<Rightarrow>
               bind_io (collect_positions fuel env token) (\<lambda>per_view. case per_view of
                 None \<Rightarrow> ret None
               | Some data \<Rightarrow>
                   (let result = findings_report (rn_reserved env) allocated data
                    in bind_io (write_report env result) (\<lambda>_. ret (Some result))))))))"

end
