(* ===== verification/ReconcileFacts.thy ===== *)
theory ReconcileFacts
  imports Reconcile OrderedLedger FaultPage
begin

text \<open>
  The walk of a reconciliation pass ends: against any gateway with finitely many scores, one page
  more than there are scores is enough, whatever else it answers.
\<close>

section \<open>The walk\<close>

lemma map_sum_InrE: "map_sum id f r = Inr x \<Longrightarrow> (\<And>y. r = Inr y \<Longrightarrow> x = f y \<Longrightarrow> thesis) \<Longrightarrow> thesis"
  by (cases r) auto

lemma add_position_scores:
  "map fst (add_position ps score key) = (if score \<in> fst ` set ps then map fst ps else map fst ps @ [score])"
  by (induction ps score key rule: add_position.induct) auto

definition scores_in :: "rat set \<Rightarrow> view_data \<Rightarrow> bool" where
  "scores_in S d \<longleftrightarrow> distinct (scores_of d) \<and> set (scores_of d) \<subseteq> S"

lemma no_data_scores [simp]: "scores_in S no_data"
  by (simp add: scores_in_def scores_of_def no_data_def)

lemma scores_malformed [simp]: "scores_of (add_malformed m d) = scores_of d"
  by (simp add: scores_of_def add_malformed_def)

lemma scores_member:
  "scores_of (add_member expected score key d) =
    (if score \<in> set (scores_of d) then scores_of d else scores_of d @ [score])"
  by (simp add: add_member_def Let_def scores_of_def add_position_scores)

lemma check_bound_keeps:
  "check_bound view m q row d = Inr d' \<Longrightarrow> vd_positions d' = vd_positions d \<and> vd_foreign d' = vd_foreign d \<and> (\<exists>more. vd_malformed d' = vd_malformed d @ more)"
  by (auto simp: check_bound_def add_malformed_def split: option.splits if_splits elim!: map_sum_InrE)

lemma check_present_keeps:
  "check_present view row d = Inr d' \<Longrightarrow> vd_positions d' = vd_positions d \<and> vd_foreign d' = vd_foreign d \<and> (\<exists>more. vd_malformed d' = vd_malformed d @ more)"
  by (auto simp: check_present_def add_malformed_def split: if_splits elim!: map_sum_InrE)

lemma take_key_scores:
  "scores_of (take_key view expected q row d) = scores_of d \<or>
   q \<notin> set (scores_of d) \<and> scores_of (take_key view expected q row d) = scores_of d @ [q]"
  by (auto simp: take_key_def scores_member split: sum.splits)

lemma collect_row_cases:
  assumes "collect_row env view expected m row d = Inr d'"
  obtains "d' = add_malformed (UnparseableScore view (raw_score_of row)) d"
  | q d1 more where "read_score env row = Inr (Some q)" "vd_positions d1 = vd_positions d" "vd_foreign d1 = vd_foreign d"
      "vd_malformed d1 = vd_malformed d @ more" "d' = take_key view expected q row d1"
proof -
  obtain s where s: "read_score env row = Inr s"
    "(case s of None \<Rightarrow> Inr (add_malformed (UnparseableScore view (raw_score_of row)) d)
      | Some score \<Rightarrow> bind_sum (check_bound view m score row d) (\<lambda>d.
           bind_sum (check_present view row d) (\<lambda>d. Inr (take_key view expected score row d)))) = Inr d'"
    using assms by (auto simp: collect_row_def bind_sum_Inr_iff)
  show thesis
  proof (cases s)
    case None
    then show thesis using s(2) that(1) by simp
  next
    case (Some q)
    then obtain d2 d1 where "check_bound view m q row d = Inr d2" "check_present view row d2 = Inr d1"
      "d' = take_key view expected q row d1"
      using s(2) by (auto simp: bind_sum_Inr_iff)
    then show thesis using check_bound_keeps check_present_keeps that(2) [OF s(1) [unfolded Some]]
      by (metis append.assoc)
  qed
qed

lemma collect_row_scores:
  assumes "collect_row env view expected m row d = Inr d'"
  shows "scores_of d' = scores_of d \<or>
    (\<exists>q. read_score env row = Inr (Some q) \<and> q \<notin> set (scores_of d) \<and> scores_of d' = scores_of d @ [q])"
  using assms
proof (cases rule: collect_row_cases)
  case (2 q d1 more)
  then have "scores_of d1 = scores_of d" by (simp add: scores_of_def)
  then show ?thesis using 2 take_key_scores [of view expected q row d1] by auto
qed simp

lemma collect_rows_scores:
  assumes "collect_rows env view expected m rows d = Inr d'" "scores_in S d"
    and "\<forall>row \<in> set rows. \<forall>q. read_score env row = Inr (Some q) \<longrightarrow> q \<in> S"
  shows "scores_in S d' \<and> (\<exists>more. scores_of d' = scores_of d @ more)"
  using assms
proof (induction rows arbitrary: d)
  case (Cons row rows)
  from Cons.prems(1) obtain d1 where d1: "collect_row env view expected m row d = Inr d1"
    "collect_rows env view expected m rows d1 = Inr d'" by (auto simp: bind_sum_Inr_iff)
  have "scores_in S d1 \<and> (\<exists>more. scores_of d1 = scores_of d @ more)"
    using collect_row_scores [OF d1(1)] Cons.prems(2,3) by (auto simp: scores_in_def)
  then show ?case using Cons.IH [OF d1(2)] Cons.prems(3) by auto
qed simp

text \<open>The rows of a reply.\<close>

definition reply_rows :: "reply \<Rightarrow> json list" where
  "reply_rows re =
     (case bind_sum (json_body re) (\<lambda>b. bind_sum (get_default b ''entries'' (JArr [])) py_iter) of
        Inl _ \<Rightarrow> [] | Inr rows \<Rightarrow> rows)"

lemma collect_page_more:
  assumes "bind_sum (json_body re) (\<lambda>body. collect_page env view expected m body d) = Inr (d', Some q)"
    and "scores_in S d" "\<forall>row \<in> set (reply_rows re). \<forall>q. read_score env row = Inr (Some q) \<longrightarrow> q \<in> S"
  shows "scores_in S d' \<and> length (vd_positions d) < length (vd_positions d')"
proof -
  obtain rows where r: "collect_rows env view expected m rows d = Inr d'" "reply_rows re = rows"
    "length (vd_positions d') \<noteq> length (vd_positions d)"
    using assms(1) by (auto simp: collect_page_def bind_sum_Inr_iff reply_rows_def split: if_splits option.splits)
  then have "scores_in S d' \<and> (\<exists>more. scores_of d' = scores_of d @ more)"
    using collect_rows_scores [OF r(1) assms(2)] assms(3) by simp
  moreover have "length (scores_of d) = length (vd_positions d)" "length (scores_of d') = length (vd_positions d')"
    by (simp_all add: scores_of_def)
  ultimately show ?thesis using r(3) by (metis length_append less_add_eq_less linorder_neqE_nat not_add_less1)
qed

lemma collect_view_ends:
  assumes "finite S" "\<And>m w re w'. rn_zscan env token (b64encode view) m ZSCAN_PAGE w = (Inr re, w') \<Longrightarrow>
      \<forall>row \<in> set (reply_rows re). \<forall>q. read_score env row = Inr (Some q) \<longrightarrow> q \<in> S"
    and "scores_in S d" "card S < fuel + length (vd_positions d)"
  shows "fst (collect_view fuel env token view expected m d w) \<noteq> Inr None"
  using assms(3,4)
proof (induction fuel arbitrary: m d w)
  case 0
  have "length (vd_positions d) = card (set (scores_of d))"
    using 0 distinct_card [of "scores_of d"] by (simp add: scores_in_def scores_of_def)
  moreover have "card (set (scores_of d)) \<le> card S" using 0 assms(1) by (intro card_mono) (auto simp: scores_in_def)
  ultimately show ?case using 0 by simp
next
  case (Suc fuel)
  show ?case
  proof
    assume "fst (collect_view (Suc fuel) env token view expected m d w) = Inr None"
    then obtain re w1 d' q where z: "rn_zscan env token (b64encode view) m ZSCAN_PAGE w = (Inr re, w1)"
      "bind_sum (json_body re) (\<lambda>body. collect_page env view expected m body d) = Inr (d', Some q)"
      "fst (collect_view fuel env token view expected (Some q) d' w1) = Inr None"
      by (auto simp: bind_io_def ret_def lift_io_def split: prod.splits sum.splits if_splits option.splits)
    have "scores_in S d' \<and> length (vd_positions d) < length (vd_positions d')"
      using z(2) Suc.prems(1) assms(2) [OF z(1)] by (rule collect_page_more)
    then show False using Suc.IH [of d' "Some q" w1] Suc.prems(2) z(3) by auto
  qed
qed

section \<open>The account\<close>

text \<open>Every index entry is a member's, and the positions above the reserve are those handed out.\<close>

definition accounted :: "int \<Rightarrow> int \<Rightarrow> (bytes \<times> view_data) list \<Rightarrow> bool" where
  "accounted reserve allocated per_view \<longleftrightarrow>
     (\<forall>(v, d) \<in> set per_view. vd_malformed d = []) \<and> (\<forall>(v, d) \<in> set per_view. vd_foreign d = []) \<and>
     (\<forall>(v, d) \<in> set per_view. \<forall>key. length (scores_by_key d key) \<le> 1) \<and>
     (\<forall>(v, d) \<in> set per_view. \<forall>q \<in> set (scores_of d). q > of_int reserve \<longrightarrow> whole q) \<and>
     (\<forall>n. reserve < n \<longrightarrow> ((\<exists>(v, d) \<in> set per_view. of_int n \<in> set (scores_of d)) \<longleftrightarrow> n \<le> allocated)) \<and>
     (\<forall>(v, d) \<in> set per_view. \<forall>(v', d') \<in> set per_view. v \<noteq> v' \<longrightarrow>
        (\<forall>n. reserve < n \<longrightarrow> \<not> (of_int n \<in> set (scores_of d) \<and> of_int n \<in> set (scores_of d'))))"

lemma set_live: "n \<in> set (live_of reserve d) \<longleftrightarrow> reserve < n \<and> of_int n \<in> set (scores_of d)"
proof -
  have "n \<in> set (live_of reserve d) \<longleftrightarrow> (\<exists>q \<in> set (scores_of d). q > of_int reserve \<and> of_int \<lfloor>q\<rfloor> = q \<and> n = \<lfloor>q\<rfloor>)"
    by (auto simp: live_of_def whole_def)
  also have "\<dots> \<longleftrightarrow> reserve < n \<and> of_int n \<in> set (scores_of d)"
    by (metis floor_of_int of_int_less_iff)
  finally show ?thesis .
qed

lemma shared_none:
  "shared_of reserve per_view = [] \<longleftrightarrow>
   (\<forall>(v, d) \<in> set per_view. \<forall>(v', d') \<in> set per_view. v \<noteq> v' \<longrightarrow>
      (\<forall>n. reserve < n \<longrightarrow> \<not> (of_int n \<in> set (scores_of d) \<and> of_int n \<in> set (scores_of d'))))"
    (is "?l \<longleftrightarrow> ?r")
proof -
  have m: "n \<in> set (if c then xs else []) \<longleftrightarrow> c \<and> n \<in> set xs" for n :: int and c xs by simp
  have "n \<in> set (shared_of reserve per_view) \<longleftrightarrow> (\<exists>p \<in> set per_view. \<exists>p' \<in> set per_view.
      lit (fst p) < lit (fst p') \<and> n \<in> set (live_of reserve (snd p)) \<and> n \<in> set (live_of reserve (snd p')))" for n
    by (simp add: shared_of_def case_prod_unfold m) blast
  note mem = this
  have e: "?l \<longleftrightarrow> (\<forall>n. n \<notin> set (shared_of reserve per_view))" by (cases "shared_of reserve per_view") auto
  have "?l \<longleftrightarrow> (\<forall>(v, d) \<in> set per_view. \<forall>(v', d') \<in> set per_view. lit v < lit v' \<longrightarrow>
      (\<forall>n. \<not> (n \<in> set (live_of reserve d) \<and> n \<in> set (live_of reserve d'))))"
    unfolding e mem case_prod_unfold by blast
  also have "\<dots> \<longleftrightarrow> ?r"
  proof -
    have "v \<noteq> v' \<longleftrightarrow> lit v < lit v' \<or> lit v' < lit v" for v v' using lit_inj [of v v'] by auto
    then show ?thesis unfolding set_live by (simp only: case_prod_unfold) blast
  qed
  finally show ?thesis .
qed

lemma scores_by_key_absent: "key \<notin> set (keys_of d) \<Longrightarrow> scores_by_key d key = []"
  by (fastforce simp: keys_of_def scores_by_key_def filter_empty_conv)

lemma duplicated_none:
  "duplicated_of per_view = [] \<longleftrightarrow> (\<forall>(v, d) \<in> set per_view. \<forall>key. length (scores_by_key d key) \<le> 1)"
proof -
  have "(filter (\<lambda>key. length (scores_by_key d key) > 1) (keys_of d) = []) \<longleftrightarrow> (\<forall>key. length (scores_by_key d key) \<le> 1)" for d
    using scores_by_key_absent [of _ d] by (fastforce simp: filter_empty_conv not_less)
  then show ?thesis by (auto simp: duplicated_of_def)
qed

lemma both_directions:
  fixes reserve :: int
  assumes "\<And>n. n \<in> set xs \<longleftrightarrow> reserve < n \<and> P n"
  shows "filter (\<lambda>n. n \<notin> set xs) [reserve + 1 .. allocated] = [] \<and>
      filter (\<lambda>n. n \<notin> set [reserve + 1 .. allocated]) xs = [] \<longleftrightarrow> (\<forall>n. reserve < n \<longrightarrow> (P n \<longleftrightarrow> n \<le> allocated))"
proof -
  have "filter (\<lambda>n. n \<notin> set xs) [reserve + 1 .. allocated] = [] \<longleftrightarrow> (\<forall>n. reserve < n \<and> n \<le> allocated \<longrightarrow> n \<in> set xs)"
    by (auto simp: filter_empty_conv)
  moreover have "filter (\<lambda>n. n \<notin> set [reserve + 1 .. allocated]) xs = [] \<longleftrightarrow> (\<forall>n \<in> set xs. reserve < n \<and> n \<le> allocated)"
    by (auto simp: filter_empty_conv)
  ultimately show ?thesis using assms by blast
qed

lemma sort_map_append_Nil: "sort (map f xs @ ys) = [] \<longleftrightarrow> xs = [] \<and> ys = []"
  by (metis append_is_Nil_conv length_0_conv length_sort map_is_Nil_conv)

text \<open>What an empty part of a report says.\<close>

lemma report_numbers:
  "rp_missing (findings_report reserve allocated per_view) = [] \<and> rp_unallocated (findings_report reserve allocated per_view) = [] \<longleftrightarrow>
     (\<forall>(v, d) \<in> set per_view. \<forall>q \<in> set (scores_of d). q > of_int reserve \<longrightarrow> whole q) \<and>
     (\<forall>n. reserve < n \<longrightarrow> ((\<exists>(v, d) \<in> set per_view. of_int n \<in> set (scores_of d)) \<longleftrightarrow> n \<le> allocated))"
proof -
  let ?live = "remdups (concat (map (\<lambda>(view, d). live_of reserve d) per_view))"
  let ?frac = "filter (\<lambda>n. n > of_int reserve \<and> \<not> whole n) (all_positions per_view)"
  have live: "n \<in> set ?live \<longleftrightarrow> reserve < n \<and> (\<exists>(v, d) \<in> set per_view. of_int n \<in> set (scores_of d))" for n
    by (auto simp: set_live)
  have frac: "?frac = [] \<longleftrightarrow> (\<forall>(v, d) \<in> set per_view. \<forall>q \<in> set (scores_of d). q > of_int reserve \<longrightarrow> whole q)"
    by (auto simp: filter_empty_conv all_positions_def)
  have two: "filter (\<lambda>n. n \<notin> set ?live) [reserve + 1 .. allocated] = [] \<and> filter (\<lambda>n. n \<notin> set [reserve + 1 .. allocated]) ?live = [] \<longleftrightarrow>
      (\<forall>n. reserve < n \<longrightarrow> ((\<exists>(v, d) \<in> set per_view. of_int n \<in> set (scores_of d)) \<longleftrightarrow> n \<le> allocated))"
    by (rule both_directions) (rule live)
  have "rp_missing (findings_report reserve allocated per_view) = [] \<and> rp_unallocated (findings_report reserve allocated per_view) = [] \<longleftrightarrow>
      filter (\<lambda>n. n \<notin> set ?live) [reserve + 1 .. allocated] = [] \<and>
      sort (map of_int (filter (\<lambda>n. n \<notin> set [reserve + 1 .. allocated]) ?live) @ ?frac) = []"
    by (simp only: findings_report_def Let_def report.simps take_eq_Nil) simp
  then show ?thesis unfolding sort_map_append_Nil frac two [symmetric] by (simp only: conj_ac)
qed

lemma report_lists:
  "rp_foreign (findings_report reserve allocated per_view) = [] \<longleftrightarrow> (\<forall>(v, d) \<in> set per_view. vd_foreign d = [])"
  "rp_malformed (findings_report reserve allocated per_view) = [] \<longleftrightarrow> (\<forall>(v, d) \<in> set per_view. vd_malformed d = [])"
  "rp_shared (findings_report reserve allocated per_view) = [] \<longleftrightarrow> shared_of reserve per_view = []"
  "rp_duplicated (findings_report reserve allocated per_view) = take 100 (duplicated_of per_view)"
  by (auto simp: findings_report_def Let_def)

lemma report_state:
  "rp_state (findings_report reserve allocated per_view) =
    (let r = findings_report reserve allocated per_view
     in if rp_missing r = [] \<and> rp_unallocated r = [] \<and> rp_foreign r = [] \<and> rp_shared r = [] \<and> rp_malformed r = [] \<and> rp_duplicated r = []
        then Clean else Findings)"
  by (simp only: findings_report_def Let_def report.simps take_eq_Nil) simp

lemma report_clean_iff:
  "rp_state (findings_report reserve allocated per_view) = Clean \<longleftrightarrow> accounted reserve allocated per_view"
proof -
  let ?r = "findings_report reserve allocated per_view"
  have st: "rp_state ?r = Clean \<longleftrightarrow> (rp_missing ?r = [] \<and> rp_unallocated ?r = []) \<and> rp_foreign ?r = [] \<and> rp_shared ?r = [] \<and>
      rp_malformed ?r = [] \<and> rp_duplicated ?r = []"
    unfolding report_state Let_def by simp
  have du: "rp_duplicated ?r = [] \<longleftrightarrow> duplicated_of per_view = []" by (simp add: report_lists(4))
  show ?thesis
    unfolding st du report_numbers report_lists(1-3) shared_none duplicated_none accounted_def by (simp only: conj_ac)
qed

section \<open>Properties\<close>

lemma bind_not_None:
  "(\<And>x w'. m w = (Inr x, w') \<Longrightarrow> fst (f x w') \<noteq> Inr None) \<Longrightarrow> fst (bind_io m f w) \<noteq> Inr None"
  by (auto simp: bind_io_def split: prod.splits sum.splits)

lemma bind_Some_not_None:
  assumes "fst (m w) \<noteq> Inr None" "\<And>y w'. fst (f (Some y) w') \<noteq> Inr None"
  shows "fst (bind_io m f w) \<noteq> Inr None"
proof (rule bind_not_None)
  fix x w' assume "m w = (Inr x, w')"
  then obtain y where "x = Some y" using assms(1) by (cases x) auto
  then show "fst (f x w') \<noteq> Inr None" using assms(2) by simp
qed

text \<open>
  C31: a pass ends. When the scores the gateway can answer with are finitely many, one page more than
  their number is enough for each view, whatever it answers.
\<close>

theorem reconciliation_ends:
  assumes "finite S" "card S < fuel"
    and "\<And>token view m w re w'. rn_zscan env token (b64encode view) m ZSCAN_PAGE w = (Inr re, w') \<Longrightarrow>
      \<forall>row \<in> set (reply_rows re). \<forall>q. read_score env row = Inr (Some q) \<longrightarrow> q \<in> S"
  shows "fst (reconcile_once fuel env w) \<noteq> Inr None"
proof -
  have v: "fst (collect_view fuel env token view expected None no_data w) \<noteq> Inr None" for token view expected w
    by (rule collect_view_ends [OF assms(1) assms(3)]) (use assms(2) in \<open>auto simp: no_data_def scores_in_def scores_of_def\<close>)
  have "fst (collect_views fuel env token views w) \<noteq> Inr None" for token views w
  proof (induction views arbitrary: w)
    case (Cons vp views)
    obtain view expected where vp: "vp = (view, expected)" by fastforce
    have "fst (bind_io (collect_views fuel env token views) (\<lambda>rs. ret (map_option (Cons (view, d)) rs)) w1) \<noteq> Inr None" for d w1
      by (rule bind_Some_not_None [OF Cons.IH]) (simp add: ret_def)
    then show ?case unfolding vp collect_views.simps by (intro bind_Some_not_None [OF v]) simp
  qed (simp add: ret_def)
  then have c: "fst (collect_positions fuel env token w) \<noteq> Inr None" for token w by (simp add: collect_positions_def)
  have r: "fst (bind_io (write_report env x) (\<lambda>_. ret (Some y)) w) \<noteq> Inr None" for x y w
    by (rule bind_not_None) (simp add: ret_def)
  have p: "fst (bind_io (collect_positions fuel env token) (case_option (ret None)
      (\<lambda>data. bind_io (write_report env (f data)) (\<lambda>_. ret (Some (f data))))) w) \<noteq> Inr None" for token w f
    by (rule bind_Some_not_None [OF c]) (simp add: r)
  show ?thesis
    unfolding reconcile_once_def Let_def
    by (intro bind_not_None) (auto intro!: bind_not_None simp: p r split: option.splits)
qed

end
