(* ===== verification/ReconcileLedger.thy ===== *)
theory ReconcileLedger
  imports ReconcileFacts AuditOrder
begin

text \<open>
  The reconciliation pass over a ledger, read through a gateway that answers as it documents: the
  verdict is the account of the ledger, what it comes to when every transaction followed the
  ordered-write protocol, and what becomes of a view that fills a page.
\<close>

section \<open>The positions of such a ledger\<close>

lemma good_unbound_no_positions: "good h \<Longrightarrow> lookup h SEQUENCE_KEY = None \<Longrightarrow> positions h = []"
  using good_positions [of h] by (cases "positions h") (fastforce simp: placed_def counter_is_def)+

lemma good_dense:
  assumes "good h" "counter_is h n" "lookup h RESERVE_KEY = Some (int_bytes R, u)"
  shows "map fst (positions h) = map of_int [R + 1 .. n]"
  using assms
proof (induction arbitrary: n u rule: good.induct)
  case (snoc h t)
  from snoc.hyps(2) show ?case unfolding good_step_def
  proof
    assume p: "plain_step h t"
    then have "counter_is h n" "lookup h RESERVE_KEY = Some (int_bytes R, u)"
      using snoc.prems by (simp_all add: counter_is_def lookup_snoc plain_step_values)
    then show ?thesis using snoc.IH p by (simp add: positions_snoc tx_positions_plain)
  next
    assume "\<exists>key value view_set n. ordered_step h key value view_set n t"
    then obtain key v vs m where ob: "ordered_step h key v vs m t" by blast
    then obtain R' where t: "t = ordered_ops R' (lookup h RESERVE_KEY = None) key v vs m"
      "key \<noteq> SEQUENCE_KEY" "key \<noteq> RESERVE_KEY"
      "case lookup h RESERVE_KEY of None \<Rightarrow> True | Some (v, u) \<Rightarrow> v = int_bytes R'"
      "case lookup h SEQUENCE_KEY of None \<Rightarrow> m = R' + 1 | Some (v, u) \<Rightarrow> v = int_bytes (m - 1)"
      unfolding ordered_step_def by blast
    have m: "m = n" using snoc.prems(1) t(1-3) by (simp add: counter_is_def lookup_snoc ordered_ops_values int_bytes_inj)
    have R: "R' = R"
      using snoc.prems(2) t(1-4) by (auto simp: lookup_snoc ordered_ops_values int_bytes_inj split: option.splits if_splits)
    have "map fst (positions h) = map of_int [R + 1 .. n - 1] \<and> R + 1 \<le> n"
    proof (cases "lookup h SEQUENCE_KEY")
      case None
      then show ?thesis using good_unbound_no_positions [OF snoc.hyps(1) None] t(5) m R by simp
    next
      case (Some p)
      then have c: "counter_is h (n - 1)" using t(5) m by (cases p) (simp add: counter_is_def)
      then obtain R1 u1 where b: "lookup h RESERVE_KEY = Some (int_bytes R1, u1)" "R1 < n - 1"
        using good_bound [OF snoc.hyps(1)] by (auto simp: counter_is_def int_bytes_inj)
      then have "R1 = R" using t(4) R by (simp add: int_bytes_inj)
      then show ?thesis using snoc.IH [OF c] b by simp
    qed
    then show ?thesis using ordered_step_positions [OF ob] m upto_rec2 [of "R + 1" n] by simp
  qed
qed (simp add: counter_is_def)

abbreviation key_of_entry :: "rat \<times> int \<times> bytes \<times> bytes \<Rightarrow> bytes" where
  "key_of_entry e \<equiv> snd (snd (snd e))"

lemma good_keys_once:
  assumes "good h"
  shows "distinct (map key_of_entry (positions h))"
proof -
  have "sorted_wrt before (positions h)" using good_positions [OF assms] by simp
  then have "sorted_wrt (<) (map (\<lambda>e. fst (snd e)) (positions h))"
    unfolding sorted_wrt_map by (rule sorted_wrt_mono_rel [rotated]) (simp add: before_def)
  moreover have "map (\<lambda>e. fst (snd e)) (positions h) = map (\<lambda>k. snd (the (lookup h k))) (map key_of_entry (positions h))"
    using good_positions [OF assms] by (fastforce simp: placed_def)
  ultimately show ?thesis using distinct_map [of _ "map key_of_entry (positions h)"] strict_sorted_iff by metis
qed

section \<open>The gateway\<close>

text \<open>The entries of a view, oldest position first, and a row that carries one.\<close>

definition oldest_first :: "history \<Rightarrow> bytes \<Rightarrow> (rat \<times> int \<times> bytes \<times> bytes) list" where
  "oldest_first h view = sort_key fst (filter (\<lambda>(p, i, s, k). s = view) (positions h))"

definition pass_row :: "'w renv \<Rightarrow> history \<Rightarrow> rat \<times> int \<times> bytes \<times> bytes \<Rightarrow> json \<Rightarrow> bool" where
  "pass_row env h = (\<lambda>(p, i, s, k) raw. \<exists>d x v t. raw = JObj d \<and> dict_get d (lit ''score'') = Some x \<and>
     rn_float env x = Inr p \<and> lookup h k = Some (v, t) \<and> dict_get d (lit ''entry'') = Some (row_json (k, v, t)))"

text \<open>The score a scan starts from is a member of it.\<close>

definition from_score :: "rat option \<Rightarrow> (rat \<times> 'a) list \<Rightarrow> (rat \<times> 'a) list" where
  "from_score m es = (case m of None \<Rightarrow> es | Some q \<Rightarrow> filter (\<lambda>(p, _). q \<le> p) es)"

definition entries_body :: "json list \<Rightarrow> reply \<Rightarrow> bool" where
  "entries_body raws re \<longleftrightarrow> re_status re = 200 \<and> (\<exists>d. re_body re = Some (JObj d) \<and>
     get_default (JObj d) ''entries'' (JArr []) = Inr (JArr raws))"

definition pass_gateway :: "'w renv \<Rightarrow> ('w \<Rightarrow> history) \<Rightarrow> bool" where
  "pass_gateway env hist \<longleftrightarrow>
     (\<exists>u p. text_b64 (rn_user env) = Inr u \<and> text_b64 (rn_password env) = Inr p) \<and>
     (\<forall>u p db w. \<exists>re w' token. rn_login env u p db w = (Inr re, w') \<and> hist w' = hist w \<and>
        bind_sum (checked_body re) (\<lambda>body. item body ''token'') = Inr token) \<and>
     (\<forall>token k w. \<exists>re w'. rn_getall env token [b64encode k] w = (Inr re, w') \<and> hist w' = hist w \<and>
        entries_body (case lookup (hist w) k of None \<Rightarrow> [] | Some (v, t) \<Rightarrow> [row_json (k, v, t)]) re) \<and>
     (\<forall>token view m n w. (\<forall>k \<in> members (hist w). lookup (hist w) k \<noteq> None) \<longrightarrow>
        (\<exists>re w' raws. rn_zscan env token (b64encode view) m n w = (Inr re, w') \<and> hist w' = hist w \<and>
           entries_body raws re \<and>
           list_all2 (pass_row env (hist w)) (take n (from_score m (oldest_first (hist w) view))) raws)) \<and>
     (\<forall>r w. \<exists>x w'. rn_write env r w = (x, w') \<and> hist w' = hist w \<and> (\<forall>e. x \<noteq> Inl (SystemExit e)))"

section \<open>The walk of one view\<close>

text \<open>A view's entries as its walk is to collect them, with the keys as text.\<close>

type_synonym listed = "(rat \<times> pystr) list"

definition listed_entry :: "rat \<times> int \<times> bytes \<times> bytes \<Rightarrow> rat \<times> pystr" where
  "listed_entry = (\<lambda>(p, i, s, k). (p, utf8_decode_replace k))"

definition listing :: "history \<Rightarrow> bytes \<Rightarrow> listed" where
  "listing h view = map listed_entry (oldest_first h view)"

abbreviation single :: "rat \<times> pystr \<Rightarrow> rat \<times> pystr list" where
  "single e \<equiv> (fst e, [snd e])"

text \<open>
  A page is asked for from the score the page before ended on, so the record at the boundary is
  read twice: the last of each page that is followed by another.
\<close>

definition relisted :: "nat \<Rightarrow> bool" where
  "relisted i \<longleftrightarrow> 0 < i \<and> (ZSCAN_PAGE - 1) dvd i"

definition walked_from :: "nat \<Rightarrow> listed \<Rightarrow> (rat \<times> pystr list) list" where
  "walked_from i L = map (\<lambda>(j, p, k). (p, if relisted j then [k, k] else [k])) (enumerate i L)"

lemma relisted_step:
  assumes "i = 0 \<or> relisted i"
  shows "relisted (i + (ZSCAN_PAGE - 1))" "0 < j \<Longrightarrow> j < ZSCAN_PAGE - 1 \<Longrightarrow> \<not> relisted (i + j)"
proof -
  have d: "(ZSCAN_PAGE - 1) dvd i" using assms by (auto simp: relisted_def)
  then show "relisted (i + (ZSCAN_PAGE - 1))" by (simp add: relisted_def ZSCAN_PAGE_def)
  show "\<not> relisted (i + j)" if "0 < j" "j < ZSCAN_PAGE - 1"
    using that d by (auto simp: relisted_def dvd_add_right_iff dest: dvd_imp_le)
qed

lemma some_relisted: "(\<exists>i < n. relisted i) \<longleftrightarrow> ZSCAN_PAGE \<le> n"
proof
  assume "\<exists>i < n. relisted i"
  then obtain i where i: "i < n" "0 < i" "(ZSCAN_PAGE - 1) dvd i" by (auto simp: relisted_def)
  then show "ZSCAN_PAGE \<le> n" by (auto dest: dvd_imp_le)
next
  assume "ZSCAN_PAGE \<le> n"
  then have "ZSCAN_PAGE - 1 < n" "relisted (ZSCAN_PAGE - 1)" by (auto simp: ZSCAN_PAGE_def relisted_def)
  then show "\<exists>i < n. relisted i" by blast
qed

lemma walked_append: "walked_from i (L @ L') = walked_from i L @ walked_from (i + length L) L'"
  by (simp add: walked_from_def enumerate_append_eq)

lemma walked_Cons: "walked_from i ((p, k) # L) = (p, if relisted i then [k, k] else [k]) # walked_from (Suc i) L"
  by (simp add: walked_from_def)

lemma walked_once: "\<forall>j < length L. \<not> relisted (i + j) \<Longrightarrow> walked_from i L = map single L"
proof (induction L arbitrary: i)
  case (Cons e L)
  have "\<not> relisted i" using Cons.prems by (auto dest: spec [of _ 0])
  moreover have "\<forall>j < length L. \<not> relisted (Suc i + j)" using Cons.prems by (auto dest: spec [of _ "Suc _"])
  ultimately show ?case using Cons.IH by (cases e) (simp add: walked_Cons)
qed (simp add: walked_from_def)

lemma walked_scores: "map fst (walked_from i L) = map fst L"
  by (induction L arbitrary: i) (auto simp: walked_from_def)

lemma add_position_new: "p \<notin> fst ` set ps \<Longrightarrow> add_position ps p k = ps @ [(p, [k])]"
  by (induction ps p k rule: add_position.induct) auto

lemma add_position_again: "p \<notin> fst ` set ps \<Longrightarrow> add_position (ps @ [(p, ks)]) p k = ps @ [(p, ks @ [k])]"
  by (induction ps p k rule: add_position.induct) auto

definition add_listed :: "bytes \<Rightarrow> listed \<Rightarrow> view_data \<Rightarrow> view_data" where
  "add_listed expected L d = foldl (\<lambda>d (p, k). add_member expected p k d) d L"

lemma add_listed_Cons: "add_listed expected ((p, k) # L) d = add_listed expected L (add_member expected p k d)"
  by (simp add: add_listed_def)

lemma add_member_prefixed:
  "starts_with k (lit expected) \<Longrightarrow> add_member expected p k d = d\<lparr>vd_positions := add_position (vd_positions d) p k\<rparr>"
  by (simp add: add_member_def)

lemma add_listed_new:
  assumes "distinct (map fst (vd_positions d) @ map fst L)" "\<forall>(p, k) \<in> set L. starts_with k (lit expected)"
  shows "add_listed expected L d = d\<lparr>vd_positions := vd_positions d @ map single L\<rparr>"
  using assms
proof (induction L arbitrary: d)
  case (Cons e L)
  obtain p k where e: "e = (p, k)" by (cases e)
  let ?d = "d\<lparr>vd_positions := vd_positions d @ [(p, [k])]\<rparr>"
  have "p \<notin> fst ` set (vd_positions d)" "starts_with k (lit expected)" using Cons.prems e by auto
  then have "add_member expected p k d = ?d" by (simp add: add_member_prefixed add_position_new)
  moreover have "add_listed expected L ?d = ?d\<lparr>vd_positions := vd_positions ?d @ map single L\<rparr>"
    using Cons.prems e by (intro Cons.IH) auto
  ultimately show ?case using e by (simp add: add_listed_Cons)
qed (simp add: add_listed_def)

subsection \<open>The rows of a page\<close>

lemma pass_row_collected:
  assumes "pass_row env h e raw" "\<forall>q. m = Some q \<longrightarrow> q \<le> fst e"
  shows "collect_row env view expected m raw d = Inr (add_listed expected [listed_entry e] d)"
    "read_score env raw = Inr (Some (fst e))"
proof -
  obtain p i s k where e: "e = (p, i, s, k)" by (cases e)
  obtain r x v t where r: "raw = JObj r" "dict_get r (lit ''score'') = Some x" "rn_float env x = Inr p"
    "dict_get r (lit ''entry'') = Some (row_json (k, v, t))"
    using assms(1) e by (auto simp: pass_row_def)
  have s: "read_score env raw = Inr (Some p)" using r by (simp add: read_score_def get_default_def)
  then show "read_score env raw = Inr (Some (fst e))" by (simp add: e)
  have "row_key raw = Inr (utf8_decode_replace k)" using r by (simp add: row_key_def item_def [of "JObj r"])
  moreover have "check_bound view m p raw d = Inr d" using assms(2) e by (auto simp: check_bound_def split: option.split)
  moreover have "check_present view raw d = Inr d" using r by (simp add: check_present_def)
  ultimately show "collect_row env view expected m raw d = Inr (add_listed expected [listed_entry e] d)"
    using s by (simp add: collect_row_def take_key_def add_listed_def listed_entry_def e)
qed

lemma pass_rows_collected:
  assumes "list_all2 (pass_row env h) es raws" "\<forall>e \<in> set es. \<forall>q. m = Some q \<longrightarrow> q \<le> fst e"
  shows "collect_rows env view expected m raws d = Inr (add_listed expected (map listed_entry es) d)"
  using assms
proof (induction arbitrary: d rule: list_all2_induct)
  case (Cons e es raw raws)
  have "collect_row env view expected m raw d = Inr (add_listed expected [listed_entry e] d)"
    using Cons by (intro pass_row_collected(1)) auto
  then show ?case using Cons by (simp add: add_listed_def)
qed (simp add: add_listed_def)

lemma page_collected:
  fixes d :: view_data and expected :: bytes
  assumes "list_all2 (pass_row env h) es raws" "\<forall>e \<in> set es. \<forall>q. m = Some q \<longrightarrow> q \<le> fst e"
    "get_default body ''entries'' (JArr []) = Inr (JArr raws)"
  defines "d' \<equiv> add_listed expected (map listed_entry es) d"
  shows "collect_page env view expected m body d = Inr (d',
    if length es < ZSCAN_PAGE \<or> length (vd_positions d') = length (vd_positions d) then None else Some (fst (last es)))"
proof (cases "raws = []")
  case True
  then have "es = []" using assms(1) by simp
  then show ?thesis using True assms(3) by (simp add: collect_page_def d'_def add_listed_def)
next
  case False
  have n: "length es = length raws" "es \<noteq> []" using assms(1) False by (auto dest: list_all2_lengthD)
  have "pass_row env h (last es) (last raws)" using assms(1) n False
    by (metis diff_less last_conv_nth length_greater_0_conv list_all2_nthD zero_less_one)
  moreover have "last es \<in> set es" using n(2) by simp
  ultimately have "read_score env (last raws) = Inr (Some (fst (last es)))" using assms(2) by (intro pass_row_collected(2)) auto
  then show ?thesis
    using False assms(3) n pass_rows_collected [OF assms(1,2), of view expected d]
    by (simp add: collect_page_def d'_def)
qed

subsection \<open>Its pages\<close>

lemma good_oldest_first:
  assumes "good h"
  shows "oldest_first h view = filter (\<lambda>(p, i, s, k). s = view) (positions h)"
    "sorted_wrt (\<lambda>e e'. fst e < fst e') (oldest_first h view)"
proof -
  show f: "oldest_first h view = filter (\<lambda>(p, i, s, k). s = view) (positions h)"
    using arg_cong [OF good_newest_first [OF assms, of view], of rev]
    by (simp add: oldest_first_def newest_first_def)
  show "sorted_wrt (\<lambda>e e'. fst e < fst e') (oldest_first h view)"
    unfolding f using good_positions [OF assms]
    by (auto intro!: sorted_wrt_filter intro: sorted_wrt_mono_rel [rotated] simp: before_def)
qed

lemma from_score_split:
  assumes "sorted_wrt (\<lambda>e e'. fst e < fst e') (E0 @ e # E1)"
  shows "from_score (Some (fst e)) (E0 @ e # E1) = e # E1"
proof -
  have "\<forall>x \<in> set E0. fst x < fst e" "\<forall>x \<in> set E1. fst e < fst x" using assms by (auto simp: sorted_wrt_append)
  then have "filter (\<lambda>x. fst e \<le> fst x) E0 = []" "filter (\<lambda>x. fst e \<le> fst x) E1 = E1"
    by (auto simp: filter_empty_conv filter_id_conv not_le less_imp_le)
  then show ?thesis by (simp add: from_score_def case_prod_unfold)
qed

lemma view_page:
  fixes m :: "rat option" and view :: bytes
  assumes "pass_gateway env hist" "\<forall>k \<in> members (hist w). lookup (hist w) k \<noteq> None"
  defines "es \<equiv> take ZSCAN_PAGE (from_score m (oldest_first (hist w) view))"
  shows "\<exists>w'. hist w' = hist w \<and> collect_view (Suc fuel) env token view expected m d w =
    (let d' = add_listed expected (map listed_entry es) d
     in if length es < ZSCAN_PAGE \<or> length (vd_positions d') = length (vd_positions d) then (Inr (Some d'), w')
        else collect_view fuel env token view expected (Some (fst (last es))) d' w')"
proof -
  obtain re w' raws where z: "rn_zscan env token (b64encode view) m ZSCAN_PAGE w = (Inr re, w')" "hist w' = hist w"
    "entries_body raws re" "list_all2 (pass_row env (hist w)) es raws"
    using assms(1) [unfolded pass_gateway_def, THEN conjunct2, THEN conjunct2, THEN conjunct2, THEN conjunct1, rule_format,
        of w token view m ZSCAN_PAGE] assms(2) unfolding es_def by blast
  obtain b where b: "re_status re = 200" "re_body re = Some (JObj b)" "get_default (JObj b) ''entries'' (JArr []) = Inr (JArr raws)"
    using z(3) by (auto simp: entries_body_def)
  have "\<forall>e \<in> set es. \<forall>q. m = Some q \<longrightarrow> q \<le> fst e"
    by (auto simp: es_def from_score_def dest!: in_set_takeD)
  from page_collected [OF z(4) this b(3), of view expected d]
  show ?thesis using z(1,2) b
    by (intro exI [of _ w']) (simp add: bind_io_def lift_io_def json_body_def Let_def ret_def)
qed

definition prefixed :: "bytes \<Rightarrow> (rat \<times> int \<times> bytes \<times> bytes) list \<Rightarrow> bool" where
  "prefixed expected E \<longleftrightarrow> (\<forall>e \<in> set E. starts_with (snd (listed_entry e)) (lit expected))"

lemma fst_listed [simp]: "fst (listed_entry e) = fst e"
  by (cases e) (simp add: listed_entry_def)

lemma prefixed_listed: "prefixed expected E \<Longrightarrow> \<forall>(p, k) \<in> set (map listed_entry E). starts_with k (lit expected)"
  by (simp add: prefixed_def case_prod_unfold)

lemma view_rest:
  assumes "pass_gateway env hist"
  shows "\<lbrakk>good (hist w); oldest_first (hist w) view = E0 @ e # E1; prefixed expected (E0 @ e # E1);
    vd_positions d = walked_from 0 (map listed_entry E0) @ [single (listed_entry e)]; relisted (length E0); length E1 < fuel\<rbrakk> \<Longrightarrow>
    \<exists>w'. collect_view fuel env token view expected (Some (fst e)) d w =
        (Inr (Some (d\<lparr>vd_positions := walked_from 0 (map listed_entry (E0 @ e # E1))\<rparr>)), w') \<and> hist w' = hist w"
proof (induction fuel arbitrary: w E0 e E1 d)
  case (Suc fuel)
  let ?x = "listed_entry e" and ?n = "ZSCAN_PAGE - 1"
  let ?walk = "walked_from 0 (map listed_entry E0)"
  let ?qs = "?walk @ [(fst e, [snd ?x, snd ?x])]" and ?new = "take ?n E1"
  have N: "ZSCAN_PAGE = Suc ?n" "0 < ?n" by (simp_all add: ZSCAN_PAGE_def)
  have srt: "sorted_wrt (\<lambda>e e'. fst e < fst e') (E0 @ e # E1)" using good_oldest_first(2) [OF Suc.prems(1)] Suc.prems(2) by metis
  then have "sorted_wrt (<) (map fst (E0 @ e # E1))" unfolding sorted_wrt_map .
  then have "distinct (map fst (E0 @ e # E1))" using strict_sorted_iff by blast
  then have dst: "distinct (map fst E0 @ fst e # map fst E1)" by simp
  have es: "take ZSCAN_PAGE (from_score (Some (fst e)) (oldest_first (hist w) view)) = e # ?new"
    unfolding Suc.prems(2) from_score_split [OF srt] by (subst N(1)) simp
  have qs: "map fst ?walk = map fst E0" by (simp only: walked_scores map_map comp_def fst_listed)
  have d1: "add_member expected (fst e) (snd ?x) d = d\<lparr>vd_positions := ?qs\<rparr>"
  proof -
    have "fst e \<notin> fst ` set ?walk" using dst qs by (metis distinct_append list.set_intros(1) list.set_map not_distinct_conv_prefix disjoint_iff)
    then show ?thesis using Suc.prems(3,4) add_position_again [of "fst e" ?walk "[snd ?x]" "snd ?x"]
      by (simp add: add_member_prefixed prefixed_def)
  qed
  have "add_listed expected (map listed_entry (e # ?new)) d = add_listed expected (map listed_entry ?new) (d\<lparr>vd_positions := ?qs\<rparr>)"
    using d1 add_listed_Cons [of expected "fst e" "snd ?x" "map listed_entry ?new" d] by (simp flip: fst_listed)
  also have "\<dots> = d\<lparr>vd_positions := ?qs @ map single (map listed_entry ?new)\<rparr>"
  proof -
    have "distinct (map fst ?qs @ map fst (map listed_entry ?new))"
      using distinct_take [OF dst, of "length E0 + Suc ?n"] qs by (simp add: comp_def take_map del: distinct_append)
    moreover have "\<forall>(p, k) \<in> set (map listed_entry ?new). starts_with k (lit expected)"
      by (rule prefixed_listed) (use Suc.prems(3) in \<open>auto simp: prefixed_def dest: in_set_takeD\<close>)
    ultimately show ?thesis by (subst add_listed_new) simp_all
  qed
  finally have d': "add_listed expected (map listed_entry (e # ?new)) d = d\<lparr>vd_positions := ?qs @ map single (map listed_entry ?new)\<rparr>" .
  have sh: "?qs @ map single (map listed_entry xs) = walked_from 0 (map listed_entry (E0 @ e # xs))" if "length xs < ?n" for xs
  proof -
    have "walked_from (Suc (length E0)) (map listed_entry xs) = map single (map listed_entry xs)"
    proof (rule walked_once, intro allI impI)
      fix j assume "j < length (map listed_entry xs)"
      then show "\<not> relisted (Suc (length E0) + j)"
        using relisted_step(2) [of "length E0" "Suc j"] Suc.prems(5) that by simp
    qed
    then show ?thesis using Suc.prems(5) by (cases ?x) (simp add: walked_append walked_Cons flip: fst_listed)
  qed
  let ?d = "d\<lparr>vd_positions := ?qs @ map single (map listed_entry ?new)\<rparr>"
  have c: "length (e # ?new) < ZSCAN_PAGE \<or> length (vd_positions ?d) = length (vd_positions d) \<longleftrightarrow> length ?new < ?n \<or> ?new = []"
    using Suc.prems(4) N by auto
  obtain w1 where w1: "hist w1 = hist w" "collect_view (Suc fuel) env token view expected (Some (fst e)) d w =
    (if length ?new < ?n \<or> ?new = [] then (Inr (Some ?d), w1)
     else collect_view fuel env token view expected (Some (fst (last (e # ?new)))) ?d w1)"
    using view_page [OF assms good_members_written [OF Suc.prems(1)], where m = "Some (fst e)" and view = view and fuel = fuel and token = token and expected = expected and d = d]
    unfolding es d' Let_def c by blast
  show ?case
  proof (cases "length ?new < ?n \<or> ?new = []")
    case True
    then have "?new = E1" "length E1 < ?n" using N(2) by auto
    then show ?thesis using w1 True sh [of E1] by auto
  next
    case False
    obtain New f where nf: "?new = New @ [f]" using False by (metis rev_exhaust)
    define E1' where "E1' = drop ?n E1"
    have E1: "E1 = New @ f # E1'" using append_take_drop_id [of ?n E1] unfolding nf E1'_def by simp
    have step: "collect_view (Suc fuel) env token view expected (Some (fst e)) d w =
        collect_view fuel env token view expected (Some (fst f)) ?d w1"
    proof -
      have "last (e # ?new) = f" by (simp only: nf) simp
      then show ?thesis using w1(2) False by (simp only: if_False)
    qed
    have all: "E0 @ e # E1 = (E0 @ e # New) @ f # E1'" by (simp add: E1)
    have ln: "length (E0 @ e # New) = length E0 + ?n" "length New < ?n" using nf False by (auto simp: min_def split: if_splits dest: arg_cong [of _ _ length])
    have "\<exists>w'. collect_view fuel env token view expected (Some (fst f)) ?d w1 =
        (Inr (Some (?d\<lparr>vd_positions := walked_from 0 (map listed_entry ((E0 @ e # New) @ f # E1'))\<rparr>)), w') \<and> hist w' = hist w1"
    proof (rule Suc.IH)
      show "vd_positions ?d = walked_from 0 (map listed_entry (E0 @ e # New)) @ [single (listed_entry f)]"
        unfolding sh [OF ln(2), symmetric] by (simp only: nf) simp
      show "relisted (length (E0 @ e # New))" unfolding ln(1) using relisted_step(1) Suc.prems(5) by blast
      show "good (hist w1)" "oldest_first (hist w1) view = (E0 @ e # New) @ f # E1'" "prefixed expected ((E0 @ e # New) @ f # E1')"
        using Suc.prems(1-3) unfolding w1(1) all .
      show "length E1' < fuel" using Suc.prems(6) E1 by simp
    qed
    then show ?thesis unfolding step all w1(1) by (auto simp del: collect_view.simps)
  qed
qed simp

text \<open>The whole view: its listing, a key named twice at its position exactly where a page ends.\<close>

lemma view_walk:
  assumes "pass_gateway env hist" "good (hist w)" "prefixed expected (oldest_first (hist w) view)"
    "length (oldest_first (hist w) view) < fuel"
  shows "\<exists>d w'. collect_view fuel env token view expected None no_data w = (Inr (Some d), w') \<and> hist w' = hist w \<and>
    vd_foreign d = [] \<and> vd_malformed d = [] \<and> vd_positions d = walked_from 0 (listing (hist w) view)"
proof -
  let ?E = "oldest_first (hist w) view" and ?es = "take ZSCAN_PAGE (oldest_first (hist w) view)"
  obtain f where fuel: "fuel = Suc f" using assms(4) by (cases fuel) auto
  have "sorted_wrt (<) (map fst ?E)" unfolding sorted_wrt_map by (rule good_oldest_first(2) [OF assms(2)])
  then have dst: "distinct (map fst ?E)" using strict_sorted_iff by blast
  let ?d = "no_data\<lparr>vd_positions := map single (map listed_entry ?es)\<rparr>"
  have d: "add_listed expected (map listed_entry ?es) no_data = ?d"
  proof -
    have "distinct (map fst (map listed_entry ?es))" using distinct_take [OF dst, of ZSCAN_PAGE] by (simp add: comp_def take_map)
    moreover have "\<forall>(p, k) \<in> set (map listed_entry ?es). starts_with k (lit expected)"
      by (rule prefixed_listed) (use assms(3) in \<open>auto simp: prefixed_def dest: in_set_takeD\<close>)
    ultimately show ?thesis by (subst add_listed_new) (simp_all add: no_data_def)
  qed
  have fs: "from_score None ?E = ?E" by (simp add: from_score_def)
  have c: "length ?es < ZSCAN_PAGE \<or> length (vd_positions ?d) = length (vd_positions no_data) \<longleftrightarrow> length ?es < ZSCAN_PAGE"
    by (auto simp: no_data_def ZSCAN_PAGE_def)
  obtain w1 where w1: "hist w1 = hist w" "collect_view fuel env token view expected None no_data w =
    (if length ?es < ZSCAN_PAGE then (Inr (Some ?d), w1) else collect_view f env token view expected (Some (fst (last ?es))) ?d w1)"
    using view_page [OF assms(1) good_members_written [OF assms(2)], where m = None and view = view and fuel = f and token = token and expected = expected and d = no_data]
    unfolding fs d Let_def c fuel by blast
  show ?thesis
  proof (cases "length ?E < ZSCAN_PAGE")
    case True
    then have "walked_from 0 (map listed_entry ?E) = map single (map listed_entry ?E)"
      using some_relisted [of "length ?E"] by (intro walked_once) auto
    then show ?thesis using w1 True by (auto simp: no_data_def listing_def)
  next
    case False
    then obtain E0 e where es: "?es = E0 @ [e]" by (metis length_take min.absorb2 not_le rev_exhaust list.size(3) ZSCAN_PAGE_def
        not_less zero_neq_numeral)
    define E1 where "E1 = drop ZSCAN_PAGE ?E"
    have E: "?E = E0 @ e # E1" using append_take_drop_id [of ZSCAN_PAGE ?E] unfolding es E1_def by simp
    have step: "collect_view fuel env token view expected None no_data w =
        collect_view f env token view expected (Some (fst e)) ?d w1"
    proof -
      have "last ?es = e" unfolding es by simp
      moreover have "\<not> length ?es < ZSCAN_PAGE" using False by simp
      ultimately show ?thesis using w1(2) by (simp only: if_False)
    qed
    have l0: "length E0 = ZSCAN_PAGE - 1" using arg_cong [OF es, of length] False by simp
    have "\<exists>w'. collect_view f env token view expected (Some (fst e)) ?d w1 =
        (Inr (Some (?d\<lparr>vd_positions := walked_from 0 (map listed_entry (E0 @ e # E1))\<rparr>)), w') \<and> hist w' = hist w1"
    proof (rule view_rest [OF assms(1)])
      show "length E1 < f" using assms(4) False by (simp add: E1_def fuel ZSCAN_PAGE_def)
      have "walked_from 0 (map listed_entry E0) = map single (map listed_entry E0)"
        using some_relisted [of "length E0"] l0 by (intro walked_once) (auto simp: ZSCAN_PAGE_def)
      then show "vd_positions ?d = walked_from 0 (map listed_entry E0) @ [single (listed_entry e)]" unfolding es by simp
      show "relisted (length E0)" using l0 by (simp add: relisted_def ZSCAN_PAGE_def)
      show "good (hist w1)" "oldest_first (hist w1) view = E0 @ e # E1" "prefixed expected (E0 @ e # E1)"
        using assms(2,3) w1(1) E by simp_all
    qed
    then obtain w' where "collect_view f env token view expected (Some (fst e)) ?d w1 =
        (Inr (Some (?d\<lparr>vd_positions := walked_from 0 (map listed_entry ?E)\<rparr>)), w')" "hist w' = hist w"
      unfolding w1(1) E by blast
    then show ?thesis unfolding step by (simp add: no_data_def listing_def)
  qed
qed

section \<open>The account of a ledger\<close>

text \<open>Every indexed record is in one of the two views and its key is text with the view's prefix.\<close>

definition filed :: "history \<Rightarrow> bool" where
  "filed h \<longleftrightarrow> (\<forall>(p, i, s, k) \<in> set (positions h). \<exists>(view, expected) \<in> set VIEW_PREFIXES. \<exists>t.
     s = view \<and> utf8_encode t = Some k \<and> starts_with t (lit expected))"

lemma listed_encodes: "filed h \<Longrightarrow> e \<in> set (positions h) \<Longrightarrow> utf8_encode (snd (listed_entry e)) = Some (key_of_entry e)"
  by (cases e) (force simp: filed_def listed_entry_def utf8_roundtrip_replace)

lemma view_names: "(view, expected) \<in> set VIEW_PREFIXES \<Longrightarrow> (view, expected') \<in> set VIEW_PREFIXES \<Longrightarrow> expected' = expected"
  by (auto simp: VIEW_PREFIXES_def)

lemma filed_prefixed:
  assumes "filed h" "good h" "(view, expected) \<in> set VIEW_PREFIXES"
  shows "prefixed expected (oldest_first h view)"
  unfolding prefixed_def
proof
  fix e assume "e \<in> set (oldest_first h view)"
  then obtain p i k where e: "e = (p, i, view, k)" "(p, i, view, k) \<in> set (positions h)"
    by (auto simp: good_oldest_first(1) [OF assms(2)])
  then obtain expected' t where t: "(view, expected') \<in> set VIEW_PREFIXES" "utf8_encode t = Some k" "starts_with t (lit expected')"
    using assms(1) by (fastforce simp: filed_def)
  then show "starts_with (snd (listed_entry e)) (lit expected)"
    using view_names [OF assms(3) t(1)] e by (simp add: listed_entry_def utf8_roundtrip_replace)
qed

lemma listed_keys_once:
  assumes "filed h" "good h"
  shows "distinct (map snd (map listed_entry (oldest_first h view)))"
proof -
  have "distinct (map key_of_entry (oldest_first h view))"
    using good_keys_once [OF assms(2)] by (simp add: good_oldest_first(1) [OF assms(2)] distinct_map_filter)
  moreover have "map key_of_entry (oldest_first h view) =
      map (\<lambda>t. the (utf8_encode t)) (map snd (map listed_entry (oldest_first h view)))"
    using listed_encodes [OF assms(1)] by (auto simp: good_oldest_first(1) [OF assms(2)])
  ultimately show ?thesis using distinct_map by metis
qed

subsection \<open>Keys and their positions\<close>

definition entry_scores :: "(rat \<times> pystr list) list \<Rightarrow> pystr \<Rightarrow> rat list" where
  "entry_scores ps key = concat (map (\<lambda>(s, ks). map (\<lambda>_. s) (filter (\<lambda>k. k = key) ks)) ps)"

lemma scores_by_key_entries: "scores_by_key d key = entry_scores (vd_positions d) key"
  by (simp add: scores_by_key_def entry_scores_def)

lemma entry_scores_Cons:
  "entry_scores ((q, ks) # ps) key = map (\<lambda>_. q) (filter (\<lambda>k. k = key) ks) @ entry_scores ps key"
  by (simp add: entry_scores_def)

lemma entry_scores_walked:
  assumes "distinct (map snd L)"
  shows "key \<notin> snd ` set L \<Longrightarrow> entry_scores (walked_from j L) key = []"
    "i < length L \<Longrightarrow> L ! i = (p, key) \<Longrightarrow> entry_scores (walked_from j L) key = (if relisted (j + i) then [p, p] else [p])"
proof -
  show none: "entry_scores (walked_from j L) key = []" if "key \<notin> snd ` set L" for L j
    using that by (induction L arbitrary: j) (auto simp: walked_from_def entry_scores_def)
  show "entry_scores (walked_from j L) key = (if relisted (j + i) then [p, p] else [p])" if "i < length L" "L ! i = (p, key)"
    using assms that
  proof (induction L arbitrary: i j)
    case (Cons e L)
    obtain q k where e: "e = (q, k)" by (cases e)
    show ?case
    proof (cases i)
      case 0
      then have "q = p" "k = key" "key \<notin> snd ` set L" using Cons.prems e by auto
      then show ?thesis using 0 e none by (simp add: walked_Cons entry_scores_Cons)
    next
      case (Suc i')
      then have at: "i' < length L" "L ! i' = (p, key)" using Cons.prems by simp_all
      then have "key \<in> snd ` set L" by (metis image_eqI nth_mem snd_conv)
      then have "k \<noteq> key" using Cons.prems(1) e by auto
      then show ?thesis using Cons.IH [OF _ at, of "Suc j"] Cons.prems(1) Suc e by (simp add: walked_Cons entry_scores_Cons)
    qed
  qed simp
qed

subsection \<open>The two views together\<close>

definition view_of_ledger :: "history \<Rightarrow> bytes \<Rightarrow> view_data \<Rightarrow> bool" where
  "view_of_ledger h view d \<longleftrightarrow>
     vd_foreign d = [] \<and> vd_malformed d = [] \<and> vd_positions d = walked_from 0 (listing h view)"

lemma views_walk:
  assumes "pass_gateway env hist"
  shows "\<lbrakk>good (hist w); \<forall>(view, expected) \<in> set views. prefixed expected (oldest_first (hist w) view);
    length (positions (hist w)) < fuel\<rbrakk> \<Longrightarrow>
    \<exists>data w'. collect_views fuel env token views w = (Inr (Some data), w') \<and> hist w' = hist w \<and>
      list_all2 (\<lambda>(view, expected) (view', d). view' = view \<and> view_of_ledger (hist w) view d) views data"
proof (induction views arbitrary: w)
  case (Cons vp views)
  obtain view expected where vp: "vp = (view, expected)" by fastforce
  have len: "length (oldest_first (hist w) view) < fuel"
    unfolding good_oldest_first(1) [OF Cons.prems(1)] by (rule le_less_trans [OF length_filter_le Cons.prems(3)])
  obtain d w1 where d: "collect_view fuel env token view expected None no_data w = (Inr (Some d), w1)" "hist w1 = hist w"
    "view_of_ledger (hist w) view d"
    using view_walk [OF assms Cons.prems(1) _ len, of expected token] Cons.prems(2) vp unfolding view_of_ledger_def by auto
  moreover obtain data w2 where "collect_views fuel env token views w1 = (Inr (Some data), w2)" "hist w2 = hist w"
    "list_all2 (\<lambda>(view, expected) (view', d). view' = view \<and> view_of_ledger (hist w) view d) views data"
    using Cons.IH [of w1] Cons.prems d(2) by auto
  ultimately show ?case by (simp add: vp bind_io_def ret_def)
qed (simp add: ret_def)

lemma listing_positions: "fst ` set (listing h view) = {q. \<exists>i k. (q, i, view, k) \<in> set (positions h)}"
  by (force simp: listing_def oldest_first_def)

lemma view_scores:
  assumes "view_of_ledger h view d"
  shows "q \<in> set (scores_of d) \<longleftrightarrow> (\<exists>i k. (q, i, view, k) \<in> set (positions h))"
proof -
  have "set (scores_of d) = fst ` set (listing h view)"
    using assms by (simp add: view_of_ledger_def scores_of_def walked_scores)
  then show ?thesis by (simp add: listing_positions)
qed

text \<open>What is reported of the records at the boundaries of pages: a key at one position, twice.\<close>

definition boundary_reports :: "history \<Rightarrow> (bytes \<times> pystr \<times> rat list) set" where
  "boundary_reports h = {(view, key, [p, p]) | view key p. view \<in> fst ` set VIEW_PREFIXES \<and>
     (\<exists>i < length (listing h view). relisted i \<and> listing h view ! i = (p, key))}"

lemma set_duplicated:
  "(view, key, scores) \<in> set (duplicated_of data) \<longleftrightarrow>
    (\<exists>d. (view, d) \<in> set data \<and> length (scores_by_key d key) > 1 \<and> scores = sort (scores_by_key d key))"
proof
  assume "(view, key, scores) \<in> set (duplicated_of data)"
  then show "\<exists>d. (view, d) \<in> set data \<and> length (scores_by_key d key) > 1 \<and> scores = sort (scores_by_key d key)"
    by (auto simp: duplicated_of_def)
next
  assume "\<exists>d. (view, d) \<in> set data \<and> length (scores_by_key d key) > 1 \<and> scores = sort (scores_by_key d key)"
  then obtain d where d: "(view, d) \<in> set data" "length (scores_by_key d key) > 1" "scores = sort (scores_by_key d key)"
    by blast
  have "key \<in> set (keys_of d)" using d(2) scores_by_key_absent [of key d] by fastforce
  then show "(view, key, scores) \<in> set (duplicated_of data)"
    using d by (auto simp: duplicated_of_def intro!: bexI [of _ "(view, d)"])
qed

lemma ledger_duplicates:
  assumes "filed h" "good h"
    and "list_all2 (\<lambda>(view, expected) (view', d). view' = view \<and> view_of_ledger h view d) VIEW_PREFIXES data"
  shows "set (duplicated_of data) = boundary_reports h"
proof -
  have by_key: "length (scores_by_key d key) > 1 \<and> scores = sort (scores_by_key d key) \<longleftrightarrow>
      (\<exists>p. scores = [p, p] \<and> (\<exists>i < length (listing h view). relisted i \<and> listing h view ! i = (p, key)))"
    if "view_of_ledger h view d" for view d key scores
  proof -
    let ?L = "listing h view"
    have sk: "scores_by_key d key = entry_scores (walked_from 0 ?L) key"
      using that by (simp add: scores_by_key_entries view_of_ledger_def)
    have dst: "distinct (map snd ?L)" using listed_keys_once [OF assms(1,2)] by (simp add: listing_def)
    show ?thesis
    proof (cases "key \<in> snd ` set ?L")
      case False
      then have "\<not> (\<exists>i < length ?L. \<exists>p. ?L ! i = (p, key))" by (metis image_eqI nth_mem snd_conv)
      then show ?thesis using entry_scores_walked(1) [OF dst False] by (auto simp: sk)
    next
      case True
      then obtain i p where i: "i < length ?L" "?L ! i = (p, key)" by (auto simp: in_set_conv_nth)
      have only: "j = i" if "j < length ?L" "?L ! j = (q, key)" for j q
        using that i nth_eq_iff_index_eq [OF dst, of j i] by simp
      have "(\<exists>q. scores = [q, q] \<and> (\<exists>j < length ?L. relisted j \<and> ?L ! j = (q, key))) \<longleftrightarrow> scores = [p, p] \<and> relisted i"
        using only i by (metis prod.inject)
      then show ?thesis using entry_scores_walked(2) [OF dst i, of 0] by (auto simp: sk)
    qed
  qed
  have at: "(\<exists>d. (view, d) \<in> set data \<and> length (scores_by_key d key) > 1 \<and> scores = sort (scores_by_key d key)) \<longleftrightarrow>
      view \<in> fst ` set VIEW_PREFIXES \<and>
      (\<exists>p. scores = [p, p] \<and> (\<exists>i < length (listing h view). relisted i \<and> listing h view ! i = (p, key)))" for view key scores
  proof -
    have "\<And>d. (view, d) \<in> set data \<Longrightarrow> view_of_ledger h view d"
      and "(\<exists>d. (view, d) \<in> set data) \<longleftrightarrow> view \<in> fst ` set VIEW_PREFIXES"
      using assms(3) by (auto simp: VIEW_PREFIXES_def list_all2_Cons1)
    then show ?thesis using by_key by blast
  qed
  show ?thesis
  proof (rule set_eqI)
    fix x :: "bytes \<times> pystr \<times> rat list"
    obtain view key scores where x: "x = (view, key, scores)" by (cases x)
    have "x \<in> boundary_reports h \<longleftrightarrow> view \<in> fst ` set VIEW_PREFIXES \<and>
        (\<exists>p. scores = [p, p] \<and> (\<exists>i < length (listing h view). relisted i \<and> listing h view ! i = (p, key)))"
      unfolding boundary_reports_def x by blast
    then show "x \<in> set (duplicated_of data) \<longleftrightarrow> x \<in> boundary_reports h" unfolding x set_duplicated at by (rule sym)
  qed
qed

lemma ledger_report:
  assumes "good h" "filed h" "counter_is h n" "lookup h RESERVE_KEY = Some (int_bytes R, u)"
    and "list_all2 (\<lambda>(view, expected) (view', d). view' = view \<and> view_of_ledger h view d) VIEW_PREFIXES data"
  defines "r \<equiv> findings_report R n data"
  shows "rp_missing r = []" "rp_unallocated r = []" "rp_foreign r = []" "rp_shared r = []" "rp_malformed r = []"
    "rp_state r = (if duplicated_of data = [] then Clean else Findings)"
proof -
  have views: "(\<exists>d. (view, d) \<in> set data) \<longleftrightarrow> (\<exists>expected. (view, expected) \<in> set VIEW_PREFIXES)" for view
    using assms(5) by (auto simp: VIEW_PREFIXES_def list_all2_Cons1)
  have vd: "view_of_ledger h view d" if "(view, d) \<in> set data" for view d
    using assms(5) that by (auto simp: VIEW_PREFIXES_def list_all2_Cons1)
  have some: "(\<exists>(v, d) \<in> set data. q \<in> set (scores_of d)) \<longleftrightarrow> q \<in> of_int ` {R + 1 .. n}" for q :: rat
  proof -
    have "(\<exists>(v, d) \<in> set data. q \<in> set (scores_of d)) \<longleftrightarrow> (\<exists>v i k. (q, i, v, k) \<in> set (positions h) \<and> (\<exists>d. (v, d) \<in> set data))"
      using view_scores [OF vd] by fastforce
    also have "\<dots> \<longleftrightarrow> (\<exists>v i k. (q, i, v, k) \<in> set (positions h))"
      using assms(2) unfolding views filed_def by fastforce
    also have "\<dots> \<longleftrightarrow> q \<in> set (map fst (positions h))" by force
    finally show ?thesis unfolding good_dense [OF assms(1,3,4)] by simp
  qed
  have num: "rp_missing r = [] \<and> rp_unallocated r = []"
    unfolding r_def report_numbers
  proof
    show "\<forall>(v, d) \<in> set data. \<forall>q \<in> set (scores_of d). q > of_int R \<longrightarrow> whole q"
      using some by (fastforce simp: whole_def)
    show "\<forall>m>R. (\<exists>(v, d) \<in> set data. of_int m \<in> set (scores_of d)) \<longleftrightarrow> m \<le> n"
      unfolding some by (auto simp: image_iff)
  qed
  then show "rp_missing r = []" "rp_unallocated r = []" by auto
  show fo: "rp_foreign r = []" and ma: "rp_malformed r = []"
    unfolding r_def report_lists using vd by (auto simp: view_of_ledger_def)
  show sh: "rp_shared r = []"
    unfolding r_def report_lists shared_none
  proof clarify
    fix v d v' d' m
    assume m: "(v, d) \<in> set data" "(v', d') \<in> set data" "v \<noteq> v'" "of_int m \<in> set (scores_of d)" "of_int m \<in> set (scores_of d')"
    then obtain i k i' k' where e: "(of_int m, i, v, k) \<in> set (positions h)" "(of_int m, i', v', k') \<in> set (positions h)"
      using view_scores [OF vd] by blast
    have "distinct (map fst (positions h))" unfolding good_dense [OF assms(1,3,4)] by (simp add: distinct_map inj_on_def)
    from eq_key_imp_eq_value [OF this e] show False using m(3) by simp
  qed
  show "rp_state r = (if duplicated_of data = [] then Clean else Findings)"
    using report_state [of R n data] num fo ma sh report_lists(4) [of R n data] by (simp add: r_def Let_def)
qed

section \<open>The pass\<close>

lemma pass_keys: "PASS_SEQUENCE_KEY = SEQUENCE_KEY" "PASS_RESERVE_KEY = RESERVE_KEY"
  by (simp_all add: PASS_SEQUENCE_KEY_def PASS_RESERVE_KEY_def SEQUENCE_KEY_def RESERVE_KEY_def)

lemma pass_login_run:
  assumes "pass_gateway env hist"
  shows "\<exists>token w'. pass_login env w = (Inr token, w') \<and> hist w' = hist w"
proof -
  obtain u p where up: "text_b64 (rn_user env) = Inr u" "text_b64 (rn_password env) = Inr p"
    using assms by (auto simp: pass_gateway_def)
  obtain re w' token where "rn_login env u p (b64encode ''defaultdb'') w = (Inr re, w')" "hist w' = hist w"
    "bind_sum (checked_body re) (\<lambda>body. item body ''token'') = Inr token"
    using assms unfolding pass_gateway_def by blast
  then show ?thesis using up by (auto simp: pass_login_def bind_io_def lift_io_def bind_sum_Inr_iff)
qed

lemma number_entry: "entry_text (JArr [row_json (k, int_bytes n, t)]) = Inr (show_int n)"
  using decode_int_bytes [of n] by (simp add: entry_text_def decode_bytes_def)

lemma getall_run:
  assumes "pass_gateway env hist"
  shows "\<exists>re w' d. rn_getall env token [b64encode k] w = (Inr re, w') \<and> hist w' = hist w \<and> re_status re = 200 \<and>
    re_body re = Some (JObj d) \<and> get_default (JObj d) ''entries'' (JArr []) =
      Inr (JArr (case lookup (hist w) k of None \<Rightarrow> [] | Some (v, t) \<Rightarrow> [row_json (k, v, t)]))"
  using assms [unfolded pass_gateway_def, THEN conjunct2, THEN conjunct2, THEN conjunct1, rule_format, of token k w]
  unfolding entries_body_def by blast

lemma bound_run:
  assumes "pass_gateway env hist" "lookup (hist w) RESERVE_KEY = Some (int_bytes R, u)" "reserve_in_range R"
  shows "\<exists>w'. hist w' = hist w \<and> pass_bound_reserve env token w = (Inr (Some R), w')"
  using getall_run [OF assms(1), of token RESERVE_KEY w] assms(2,3)
  by (auto simp: pass_bound_reserve_def pass_keys bind_io_def lift_io_def json_body_def number_entry reconcile_reserve.reads_back)

lemma counter_run:
  assumes "pass_gateway env hist" "counter_is (hist w) n" "0 \<le> n"
  shows "\<exists>re w'. rn_getall env token [b64encode PASS_SEQUENCE_KEY] w = (Inr re, w') \<and> hist w' = hist w \<and> counter_of re = Inr (Some n)"
proof -
  obtain u where u: "lookup (hist w) SEQUENCE_KEY = Some (int_bytes n, u)" using assms(2) by (auto simp: counter_is_def)
  then show ?thesis using getall_run [OF assms(1), of token SEQUENCE_KEY w] py_int_strip_show [OF assms(3)]
    by (auto simp: counter_of_def pass_keys json_body_def number_entry)
qed

lemma write_report_run:
  assumes "pass_gateway env hist"
  shows "\<exists>w'. write_report env r w = (Inr (), w') \<and> hist w' = hist w"
proof -
  obtain x w' where "rn_write env r w = (x, w')" "hist w' = hist w" "\<forall>e. x \<noteq> Inl (SystemExit e)"
    using assms unfolding pass_gateway_def by blast
  then show ?thesis
    by (cases x; cases "projl x") (auto simp: write_report_def attempt_def ret_def split: exn.split)
qed

text \<open>A pass whose views are collected runs to their report.\<close>

lemma pass_run:
  assumes "pass_gateway env hist" "lookup (hist w) RESERVE_KEY = Some (int_bytes (rn_reserved env), u)"
    "reserve_in_range (rn_reserved env)" "counter_is (hist w) n" "0 \<le> n"
    and views: "\<And>token w3. hist w3 = hist w \<Longrightarrow>
      \<exists>data w4. collect_positions fuel env token w3 = (Inr (Some data), w4) \<and> hist w4 = hist w \<and> Q data"
  shows "\<exists>data w'. reconcile_once fuel env w = (Inr (Some (findings_report (rn_reserved env) n data)), w') \<and>
    hist w' = hist w \<and> Q data"
proof -
  obtain token w1 where s1: "pass_login env w = (Inr token, w1)" "hist w1 = hist w" using pass_login_run [OF assms(1)] by blast
  obtain w2 where s2: "pass_bound_reserve env token w1 = (Inr (Some (rn_reserved env)), w2)" "hist w2 = hist w"
    using bound_run [OF assms(1), of w1] assms(2,3) s1(2) by metis
  obtain re w3 where s3: "rn_getall env token [b64encode PASS_SEQUENCE_KEY] w2 = (Inr re, w3)" "hist w3 = hist w"
    "counter_of re = Inr (Some n)" using counter_run [OF assms(1), of w2 n token] assms(4,5) s2(2) by auto
  obtain data w4 where s4: "collect_positions fuel env token w3 = (Inr (Some data), w4)" "hist w4 = hist w" "Q data"
    using views [OF s3(2)] by blast
  obtain w5 where s5: "write_report env (findings_report (rn_reserved env) n data) w4 = (Inr (), w5)" "hist w5 = hist w"
    using write_report_run [OF assms(1)] s4(2) by metis
  have "reconcile_once fuel env w = (Inr (Some (findings_report (rn_reserved env) n data)), w5)"
    using s1(1) s2(1) s3(1,3) s4(1) s5(1) by (simp add: reconcile_once_def bind_io_def lift_io_def ret_def Let_def)
  then show ?thesis using s5(2) s4(3) by blast
qed

lemma good_pass_numbers:
  assumes "good h" "lookup h RESERVE_KEY = Some (int_bytes R, u)"
  obtains n where "counter_is h n" "0 \<le> n" "reserve_in_range R"
  using good_bound [OF assms(1)] assms(2) that by (auto simp: reserve_in_range_def int_bytes_inj)

lemma good_ledger_pass:
  assumes "pass_gateway env hist" "good (hist w)" "filed (hist w)" "length (positions (hist w)) < fuel"
    "lookup (hist w) RESERVE_KEY = Some (int_bytes (rn_reserved env), u)"
  shows "\<exists>n data w'. reconcile_once fuel env w = (Inr (Some (findings_report (rn_reserved env) n data)), w') \<and>
    hist w' = hist w \<and> counter_is (hist w) n \<and>
    list_all2 (\<lambda>(view, expected) (view', d). view' = view \<and> view_of_ledger (hist w) view d) VIEW_PREFIXES data"
proof -
  obtain n where n: "counter_is (hist w) n" "0 \<le> n" "reserve_in_range (rn_reserved env)"
    using good_pass_numbers [OF assms(2,5)] by blast
  have "\<exists>data w'. reconcile_once fuel env w = (Inr (Some (findings_report (rn_reserved env) n data)), w') \<and> hist w' = hist w \<and>
    list_all2 (\<lambda>(view, expected) (view', d). view' = view \<and> view_of_ledger (hist w) view d) VIEW_PREFIXES data"
  proof (rule pass_run [OF assms(1,5) n(3,1,2)])
    fix token w3 assume w3: "hist w3 = hist w"
    have "\<forall>(view, expected) \<in> set VIEW_PREFIXES. prefixed expected (oldest_first (hist w3) view)"
      using filed_prefixed assms(2,3) w3 by auto
    then show "\<exists>data w4. collect_positions fuel env token w3 = (Inr (Some data), w4) \<and> hist w4 = hist w \<and>
      list_all2 (\<lambda>(view, expected) (view', d). view' = view \<and> view_of_ledger (hist w) view d) VIEW_PREFIXES data"
      using views_walk [OF assms(1), of w3 VIEW_PREFIXES fuel token] assms(2,4) w3 by (auto simp: collect_positions_def)
  qed
  then show ?thesis using n(1) by blast
qed

section \<open>Views of one page\<close>

text \<open>
  What the walk collects of a view that fits a page, whatever is in it: nothing here is assumed of
  how the entries came about.
\<close>

lemma scores_by_key_member:
  "length (scores_by_key (add_member expected p k d) key) = length (scores_by_key d key) + (if k = key then 1 else 0)"
proof -
  have "length (entry_scores (add_position ps p k) key) = length (entry_scores ps key) + (if k = key then 1 else 0)" for ps
    by (induction ps p k rule: add_position.induct) (auto simp: entry_scores_def)
  from this [of "vd_positions d"] show ?thesis by (cases "k = key") (simp_all add: scores_by_key_entries add_member_def Let_def)
qed

definition strays :: "bytes \<Rightarrow> listed \<Rightarrow> listed" where
  "strays expected L = filter (\<lambda>(p, k). \<not> starts_with k (lit expected)) L"

lemma add_listed_scores: "set (scores_of (add_listed expected L d)) = set (scores_of d) \<union> fst ` set L"
  by (induction L arbitrary: d) (auto simp: add_listed_def scores_member split: if_splits)

lemma add_listed_malformed: "vd_malformed (add_listed expected L d) = vd_malformed d"
  by (induction L arbitrary: d) (auto simp: add_listed_def add_member_def Let_def)

lemma add_listed_foreign: "vd_foreign (add_listed expected L d) = [] \<longleftrightarrow> vd_foreign d = [] \<and> strays expected L = []"
  by (induction L arbitrary: d) (simp_all add: add_listed_def add_member_def Let_def strays_def case_prod_unfold)

lemma add_listed_by_key:
  "length (scores_by_key (add_listed expected L d) key) = length (scores_by_key d key) + count_list (map snd L) key"
  by (induction L arbitrary: d) (auto simp: add_listed_Cons scores_by_key_member, auto simp: add_listed_def)

lemmas add_listed_collects = add_listed_scores add_listed_malformed add_listed_foreign add_listed_by_key

lemma distinct_counts: "distinct xs \<longleftrightarrow> (\<forall>x. count_list xs x \<le> 1)"
  by (induction xs) (auto simp: count_list_0_iff le_Suc_eq)

abbreviation one_page :: "history \<Rightarrow> bool" where
  "one_page h \<equiv> \<forall>(view, expected) \<in> set VIEW_PREFIXES. length (oldest_first h view) < ZSCAN_PAGE"

definition collected :: "history \<Rightarrow> bytes \<times> bytes \<Rightarrow> bytes \<times> view_data" where
  "collected h = (\<lambda>(view, expected). (view, add_listed expected (listing h view) no_data))"

lemma one_page_walk:
  assumes "pass_gateway env hist" "\<forall>k \<in> members (hist w). lookup (hist w) k \<noteq> None"
    "\<forall>(view, expected) \<in> set views. length (oldest_first (hist w) view) < ZSCAN_PAGE" "0 < fuel"
  shows "\<exists>w'. collect_views fuel env token views w = (Inr (Some (map (collected (hist w)) views)), w') \<and> hist w' = hist w"
  using assms(2,3)
proof (induction views arbitrary: w)
  case (Cons vp views)
  obtain view expected where vp: "vp = (view, expected)" by fastforce
  obtain f where f: "fuel = Suc f" using assms(4) by (cases fuel) auto
  have fs: "from_score None E = E" for E :: "(rat \<times> int \<times> bytes \<times> bytes) list" by (simp add: from_score_def)
  have "length (oldest_first (hist w) view) < ZSCAN_PAGE" using Cons.prems(2) vp by auto
  then obtain w1 where w1: "hist w1 = hist w" "collect_view fuel env token view expected None no_data w =
      (Inr (Some (add_listed expected (listing (hist w) view) no_data)), w1)"
    using view_page [OF assms(1) Cons.prems(1), where m = None and view = view and fuel = f and token = token and
        expected = expected and d = no_data]
    unfolding fs f Let_def listing_def by auto
  obtain w2 where "collect_views fuel env token views w1 = (Inr (Some (map (collected (hist w)) views)), w2)" "hist w2 = hist w"
    using Cons.IH [of w1] Cons.prems w1(1) by auto
  then show ?case using w1(2) by (simp add: vp bind_io_def ret_def collected_def)
qed (simp add: ret_def)

lemma one_page_positions:
  assumes "pass_gateway env hist" "\<forall>k \<in> members (hist w). lookup (hist w) k \<noteq> None" "one_page (hist w)" "0 < fuel"
    "hist w3 = hist w"
  shows "\<exists>data w4. collect_positions fuel env token w3 = (Inr (Some data), w4) \<and> hist w4 = hist w \<and>
    data = map (collected (hist w)) VIEW_PREFIXES"
  using one_page_walk [OF assms(1) _ _ assms(4), of w3 VIEW_PREFIXES token] assms(2,3,5)
  by (auto simp: collect_positions_def)

text \<open>The account of a ledger: what the header of the pass says it establishes.\<close>

definition ledger_accounted :: "history \<Rightarrow> int \<Rightarrow> int \<Rightarrow> bool" where
  "ledger_accounted h reserve n \<longleftrightarrow>
     (\<forall>(view, expected) \<in> set VIEW_PREFIXES. \<forall>(p, k) \<in> set (listing h view). starts_with k (lit expected)) \<and>
     (\<forall>(view, expected) \<in> set VIEW_PREFIXES. distinct (map snd (listing h view))) \<and>
     (\<forall>(view, expected) \<in> set VIEW_PREFIXES. \<forall>(p, k) \<in> set (listing h view). p > of_int reserve \<longrightarrow> whole p) \<and>
     (\<forall>m. reserve < m \<longrightarrow>
        ((\<exists>(view, expected) \<in> set VIEW_PREFIXES. of_int m \<in> fst ` set (listing h view)) \<longleftrightarrow> m \<le> n)) \<and>
     (\<forall>(view, expected) \<in> set VIEW_PREFIXES. \<forall>(view', expected') \<in> set VIEW_PREFIXES. view \<noteq> view' \<longrightarrow>
        (\<forall>m. reserve < m \<longrightarrow>
           \<not> (of_int m \<in> fst ` set (listing h view) \<and> of_int m \<in> fst ` set (listing h view'))))"

lemma ledger_accountedD:
  assumes "ledger_accounted h reserve n"
  shows "(view, expected) \<in> set VIEW_PREFIXES \<Longrightarrow> (p, t) \<in> set (listing h view) \<Longrightarrow> starts_with t (lit expected)"
    "(view, expected) \<in> set VIEW_PREFIXES \<Longrightarrow> distinct (map snd (listing h view))"
    "reserve < m \<Longrightarrow> m \<le> n \<Longrightarrow> \<exists>view expected. (view, expected) \<in> set VIEW_PREFIXES \<and> of_int m \<in> fst ` set (listing h view)"
proof -
  note l = assms [unfolded ledger_accounted_def]
  show "(view, expected) \<in> set VIEW_PREFIXES \<Longrightarrow> (p, t) \<in> set (listing h view) \<Longrightarrow> starts_with t (lit expected)"
    using conjunct1 [OF l] by fast
  show "(view, expected) \<in> set VIEW_PREFIXES \<Longrightarrow> distinct (map snd (listing h view))"
    using l [THEN conjunct2, THEN conjunct1] by fast
  show "\<exists>view expected. (view, expected) \<in> set VIEW_PREFIXES \<and> of_int m \<in> fst ` set (listing h view)" if "reserve < m" "m \<le> n"
    using l [THEN conjunct2, THEN conjunct2, THEN conjunct2, THEN conjunct1, rule_format, OF that(1)] that(2) by fast
qed

lemma accounted_collected:
  "accounted reserve n (map (collected h) VIEW_PREFIXES) \<longleftrightarrow> ledger_accounted h reserve n"
proof -
  let ?d = "\<lambda>view expected. add_listed expected (listing h view) no_data"
  have nd: "vd_malformed no_data = []" "vd_foreign no_data = []" "scores_of no_data = []" "scores_by_key no_data key = []" for key
    by (simp_all add: no_data_def scores_of_def scores_by_key_def)
  have sc: "set (scores_of (?d view expected)) = fst ` set (listing h view)" for view expected
    by (simp add: add_listed_collects(1) nd)
  have ma: "vd_malformed (?d view expected) = []" for view expected by (simp add: add_listed_collects(2) nd)
  have fo: "vd_foreign (?d view expected) = [] \<longleftrightarrow> (\<forall>(p, k) \<in> set (listing h view). starts_with k (lit expected))" for view expected
    by (auto simp: add_listed_collects(3) nd strays_def filter_empty_conv)
  have du: "(\<forall>key. length (scores_by_key (?d view expected) key) \<le> 1) \<longleftrightarrow> distinct (map snd (listing h view))" for view expected
    by (simp add: add_listed_collects(4) nd distinct_counts)
  have wh: "(\<forall>q \<in> fst ` set (listing h view). q > of_int reserve \<longrightarrow> whole q) \<longleftrightarrow>
      (\<forall>(p, k) \<in> set (listing h view). p > of_int reserve \<longrightarrow> whole p)" for view by auto
  have all: "(\<forall>(v, d) \<in> set (map (collected h) VIEW_PREFIXES). P v d) \<longleftrightarrow>
      (\<forall>(view, expected) \<in> set VIEW_PREFIXES. P view (?d view expected))" for P by (auto simp: collected_def)
  have ex: "(\<exists>(v, d) \<in> set (map (collected h) VIEW_PREFIXES). P v d) \<longleftrightarrow>
      (\<exists>(view, expected) \<in> set VIEW_PREFIXES. P view (?d view expected))" for P by (simp add: collected_def case_prod_unfold)
  show ?thesis
    unfolding accounted_def all ex sc ma fo du wh ledger_accounted_def by simp
qed

lemma report_verdict:
  "rp_state (findings_report reserve n data) = (if accounted reserve n data then Clean else Findings)"
  using report_clean_iff [of reserve n data] by (auto simp: report_state Let_def)

section \<open>A ledger of any size, in memory\<close>

definition nth_key :: "nat \<Rightarrow> bytes" where
  "nth_key i = ''tool_call:'' @ int_bytes (int i)"

definition nth_write :: "nat \<Rightarrow> tx" where
  "nth_write i = ordered_ops 1000 (i = 0) (nth_key i) ''v'' VIEW_DECISION (1001 + int i)"

definition full_ledger :: "nat \<Rightarrow> history" where
  "full_ledger n = map nth_write [0..<n]"

lemma length_full_ledger [simp]: "length (full_ledger n) = n"
  by (simp add: full_ledger_def)

lemma full_ledger_Suc: "full_ledger (Suc n) = full_ledger n @ [nth_write n]"
  by (simp add: full_ledger_def)

lemma nth_key_facts:
  "nth_key i = nth_key j \<longleftrightarrow> i = j" "nth_key i \<noteq> SEQUENCE_KEY" "nth_key i \<noteq> RESERVE_KEY"
  "\<not> starts_with (nth_key i) FAULT_KEY_PREFIX_BYTES"
  by (simp_all add: nth_key_def int_bytes_inj SEQUENCE_KEY_def RESERVE_KEY_def FAULT_KEY_PREFIX_BYTES_def FAULT_KEY_PREFIX_def
      encode_ascii_def lit_def)

lemma full_ledger_lookups:
  "lookup (full_ledger n) SEQUENCE_KEY = (if n = 0 then None else Some (int_bytes (1000 + int n), int n)) \<and>
   lookup (full_ledger n) RESERVE_KEY = (if n = 0 then None else Some (int_bytes 1000, 1)) \<and>
   (\<forall>i. lookup (full_ledger n) (nth_key i) \<noteq> None \<longleftrightarrow> i < n)"
proof (induction n)
  case (Suc n)
  then show ?case
    by (auto simp: full_ledger_Suc nth_write_def lookup_snoc ordered_ops_values nth_key_facts nth_key_facts(2,3) [THEN not_sym]
        less_Suc_eq next_tx_def full_ledger_def)
qed (simp add: full_ledger_def)

lemma full_ledger_step:
  assumes "n < 1000000"
  shows "ordered_step (full_ledger n) (nth_key n) ''v'' VIEW_DECISION (1001 + int n) (nth_write n)"
proof -
  have "lookup (full_ledger n) SEQUENCE_KEY = (if n = 0 then None else Some (int_bytes (1000 + int n), int n))"
    "lookup (full_ledger n) RESERVE_KEY = (if n = 0 then None else Some (int_bytes 1000, 1))"
    "lookup (full_ledger n) (nth_key n) = None"
    using full_ledger_lookups [of n] by (metis, metis, blast)
  then show ?thesis using assms unfolding ordered_step_def
    by (intro exI [of _ 1000]) (simp add: nth_write_def nth_key_facts reserve_in_range_def MAX_POSITION_def)
qed

lemma full_ledger_good: "n \<le> 1000000 \<Longrightarrow> good (full_ledger n)"
proof (induction n)
  case (Suc n)
  then have "ordered_step (full_ledger n) (nth_key n) ''v'' VIEW_DECISION (1001 + int n) (nth_write n)"
    by (intro full_ledger_step) simp
  then show ?case unfolding full_ledger_Suc
    using Suc by (intro good.snoc) (auto simp: good_step_def)
qed (simp add: full_ledger_def good.empty)

lemma full_ledger_positions:
  "n \<le> 1000000 \<Longrightarrow> positions (full_ledger n) = map (\<lambda>i. (of_int (1001 + int i), int i + 1, VIEW_DECISION, nth_key i)) [0..<n]"
proof (induction n)
  case (Suc n)
  then show ?case using ordered_step_positions [OF full_ledger_step, of n]
    by (simp add: full_ledger_Suc next_tx_def)
qed (simp add: full_ledger_def)

lemma full_ledger_filed:
  assumes "n \<le> 1000000"
  shows "filed (full_ledger n)"
proof -
  have "utf8_encode (lit ''tool_call:'' @ show_int (int i)) = Some (nth_key i)" for i
  proof -
    have "\<forall>c \<in> set (lit ''tool_call:'' @ show_int (int i)). c < 128"
      using show_int_ascii by (auto simp: lit_def)
    then have "utf8_encode (lit ''tool_call:'' @ show_int (int i)) = Some (encode_ascii (lit ''tool_call:'' @ show_int (int i)))"
      by (intro utf8_ascii) auto
    moreover have "encode_ascii (lit s) = s" for s by (simp add: encode_ascii_def lit_def comp_def)
    ultimately show ?thesis by (simp only: nth_key_def int_bytes_def encode_ascii_append)
  qed
  moreover have "starts_with (lit ''tool_call:'' @ t) (lit ''tool_call:'')" for t by (simp add: lit_def)
  ultimately have "\<exists>t. utf8_encode t = Some (nth_key i) \<and> starts_with t (lit ''tool_call:'')" for i by blast
  then show ?thesis
    unfolding filed_def full_ledger_positions [OF assms]
    by (auto simp: VIEW_PREFIXES_def VIEW_DECISION_def)
qed

text \<open>A gateway in memory.\<close>

definition entries_reply :: "json list \<Rightarrow> reply" where
  "entries_reply raws = \<lparr>re_status = 200, re_body = Some (JObj [(lit ''entries'', JArr raws)])\<rparr>"

definition mem_getall :: "json \<Rightarrow> pystr list \<Rightarrow> (history, reply) io" where
  "mem_getall token keys h = (Inr (entries_reply (concat (map (\<lambda>k. case Option.bind (b64decode k) (lookup h) of
     None \<Rightarrow> [] | Some (v, t) \<Rightarrow> [row_json (the (b64decode k), v, t)]) keys))), h)"

definition mem_pages :: "json \<Rightarrow> pystr \<Rightarrow> rat option \<Rightarrow> nat \<Rightarrow> (history, reply) io" where
  "mem_pages token view m n h =
     (Inr (entries_reply (map (zrow h) (take n (from_score m (oldest_first h (the (b64decode view))))))), h)"

definition test_pass :: "history renv" where
  "test_pass = \<lparr>rn_user = lit ''u'', rn_password = lit ''p'',
     rn_login = \<lambda>u p d h. (Inr \<lparr>re_status = 200, re_body = Some (JObj [(lit ''token'', JStr [])])\<rparr>, h),
     rn_getall = mem_getall, rn_zscan = mem_pages, rn_float = fraction, rn_reserved = 1000, rn_report_path = [],
     rn_write = \<lambda>r h. (Inr (), h)\<rparr>"

lemma zrow_pass_row:
  assumes "e \<in> set (positions h)" "\<forall>k \<in> members h. lookup h k \<noteq> None"
  shows "pass_row test_pass h e (zrow h e)"
proof -
  obtain p i s k where k: "e = (p, i, s, k)" by (cases e)
  then have "k \<in> members h" using assms(1) positions_members by blast
  then obtain v t where "lookup h k = Some (v, t)" using assms(2) by auto
  moreover have "fraction (JArr [JInt (fst (quotient_of p)), JInt (snd (quotient_of p))]) = Inr p"
    by (cases "quotient_of p") (simp add: fraction_def Fract_of_int_quotient quotient_of_div [symmetric])
  ultimately show ?thesis using k by (simp add: pass_row_def zrow_def test_pass_def dict_get_def lit_def)
qed

lemma entries_reply_body: "entries_body raws (entries_reply raws)"
  by (simp add: entries_body_def entries_reply_def get_default_def dict_get_def)

lemma test_pass_gateway: "pass_gateway test_pass id"
proof -
  have t: "\<exists>u. text_b64 (lit s) = Inr u" if "list_all (\<lambda>c. of_char c < (128 :: nat)) s" for s
  proof -
    have "\<forall>c \<in> set (lit s). c < 128" using that by (auto simp: lit_def list_all_iff)
    then have "utf8_encode (lit s) = Some (encode_ascii (lit s))" by (intro utf8_ascii) auto
    then show ?thesis by (simp add: text_b64_def)
  qed
  have z: "list_all2 (pass_row test_pass h) es (map (zrow h) es)"
    if "set es \<subseteq> set (positions h)" "\<forall>k \<in> members h. lookup h k \<noteq> None" for h es
    using that by (auto simp: list_all2_map2 list.rel_map intro!: list.rel_refl_strong zrow_pass_row)
  have sub: "set (take n (from_score m (oldest_first h view))) \<subseteq> set (positions h)" for n m h view
    by (auto simp: from_score_def oldest_first_def split: option.splits dest!: in_set_takeD)
  show ?thesis
    unfolding pass_gateway_def
  proof (intro conjI allI impI)
    show "\<exists>u p. text_b64 (rn_user test_pass) = Inr u \<and> text_b64 (rn_password test_pass) = Inr p"
      using t [of "''u''"] t [of "''p''"] by (simp add: test_pass_def)
  next
    fix u p db w
    show "\<exists>re w' token. rn_login test_pass u p db w = (Inr re, w') \<and> id w' = id w \<and>
        bind_sum (checked_body re) (\<lambda>body. item body ''token'') = Inr token"
      by (simp add: test_pass_def checked_body_def raise_for_status_def json_body_def item_def dict_get_def)
  next
    fix token k w
    show "\<exists>re w'. rn_getall test_pass token [b64encode k] w = (Inr re, w') \<and> id w' = id w \<and>
        entries_body (case lookup (id w) k of None \<Rightarrow> [] | Some (v, t) \<Rightarrow> [row_json (k, v, t)]) re"
      by (auto simp: test_pass_def mem_getall_def entries_reply_body split: option.splits)
  next
    fix token view m n and w :: history
    assume "\<forall>k \<in> members (id w). lookup (id w) k \<noteq> None"
    then show "\<exists>re w' raws. rn_zscan test_pass token (b64encode view) m n w = (Inr re, w') \<and> id w' = id w \<and>
        entries_body raws re \<and> list_all2 (pass_row test_pass (id w)) (take n (from_score m (oldest_first (id w) view))) raws"
      using z [OF sub] by (auto simp: test_pass_def mem_pages_def intro!: exI entries_reply_body)
  next
    fix r w
    show "\<exists>x w'. rn_write test_pass r w = (x, w') \<and> id w' = id w \<and> (\<forall>e. x \<noteq> Inl (SystemExit e))"
      by (simp add: test_pass_def)
  qed
qed

section \<open>Properties\<close>




text \<open>A gateway that answers every request with the same full page.\<close>

definition same_row :: json where
  "same_row = JObj [(lit ''score'', JArr [JInt 7, JInt 1])]"

definition stuck_pass :: "history renv" where
  "stuck_pass = test_pass\<lparr>rn_zscan := \<lambda>token view m n h. (Inr (entries_reply (replicate 2500 same_row)), h)\<rparr>"

theorem reconciliation_ends_witness: "fst (reconcile_once 2 stuck_pass (full_ledger 1)) \<noteq> Inr None"
proof (rule reconciliation_ends [of "{7}"])
  fix token view m w re w'
  assume "rn_zscan stuck_pass token (b64encode view) m ZSCAN_PAGE w = (Inr re, w')"
  then have "reply_rows re = replicate 2500 same_row"
    by (auto simp: stuck_pass_def reply_rows_def entries_reply_def json_body_def get_default_def dict_get_def)
  moreover have "read_score stuck_pass same_row = Inr (Some 7)"
    by (simp add: read_score_def same_row_def get_default_def dict_get_def stuck_pass_def test_pass_def fraction_def rat_number_collapse)
  ultimately show "\<forall>row \<in> set (reply_rows re). \<forall>q. read_score stuck_pass row = Inr (Some q) \<longrightarrow> q \<in> {7}" by simp
qed simp_all

text \<open>Every indexed record is in one of the two views, under its prefix and told apart there by its key.\<close>

definition in_views :: "history \<Rightarrow> bool" where
  "in_views h \<longleftrightarrow>
     (\<forall>(p, i, s, k) \<in> set (positions h). \<exists>(view, expected) \<in> set VIEW_PREFIXES. s = view \<and>
        starts_with (utf8_decode_replace k) (lit expected)) \<and>
     (\<forall>(view, expected) \<in> set VIEW_PREFIXES. distinct (map snd (listing h view)))"

lemma in_listing: "(p, t) \<in> set (listing h view) \<longleftrightarrow> (\<exists>i k. (p, i, view, k) \<in> set (positions h) \<and> t = utf8_decode_replace k)"
  by (force simp: listing_def oldest_first_def listed_entry_def)

lemma good_accounted:
  assumes "good h" "counter_is h n" "lookup h RESERVE_KEY = Some (int_bytes R, u)"
  shows "ledger_accounted h R n \<longleftrightarrow> in_views h"
proof -
  note dense = good_dense [OF assms]
  have live: "\<exists>m. R < m \<and> m \<le> n \<and> p = of_int m" if "(p, i, s, k) \<in> set (positions h)" for p i s k
  proof -
    have "p \<in> set (map fst (positions h))" using that by force
    then show ?thesis unfolding dense by auto
  qed
  have at: "\<exists>i s k. (of_int m, i, s, k) \<in> set (positions h)" if "R < m" "m \<le> n" for m
  proof -
    have "of_int m \<in> set (map fst (positions h))" unfolding dense using that by auto
    then show ?thesis by force
  qed
  have "distinct (map fst (positions h))" unfolding dense by (simp add: distinct_map inj_on_def)
  then have one: "(i, s, k) = (i', s', k')" if "(p, i, s, k) \<in> set (positions h)" "(p, i', s', k') \<in> set (positions h)" for p i s k i' s' k'
    using eq_key_imp_eq_value that by metis
  show ?thesis
  proof
    assume l: "ledger_accounted h R n"
    have "\<exists>(view, expected) \<in> set VIEW_PREFIXES. s = view \<and> starts_with (utf8_decode_replace k) (lit expected)"
      if e: "(p, i, s, k) \<in> set (positions h)" for p i s k
    proof -
      obtain m where m: "R < m" "m \<le> n" "p = of_int m" using live [OF e] by blast
      then obtain view expected where v: "(view, expected) \<in> set VIEW_PREFIXES" "p \<in> fst ` set (listing h view)"
        using ledger_accountedD(3) [OF l m(1,2)] by blast
      then obtain i' k' where "(p, i', view, k') \<in> set (positions h)" by (auto simp: listing_positions)
      then have "s = view" using one [OF e] by blast
      then have "(p, utf8_decode_replace k) \<in> set (listing h view)" using e by (auto simp: in_listing)
      then have "starts_with (utf8_decode_replace k) (lit expected)" using ledger_accountedD(1) [OF l v(1)] by blast
      then show ?thesis using v(1) \<open>s = view\<close> by blast
    qed
    then show "in_views h" using ledger_accountedD(2) [OF l] unfolding in_views_def by blast
  next
    assume v: "in_views h"
    have whole: "whole p" if "(p, t) \<in> set (listing h view)" for p t view
    proof -
      obtain i k where "(p, i, view, k) \<in> set (positions h)" using \<open>(p, t) \<in> set (listing h view)\<close> by (auto simp: in_listing)
      then obtain m where "p = of_int m" using live by blast
      then show ?thesis by (simp add: whole_def)
    qed
    have "starts_with t (lit expected)" if "(view, expected) \<in> set VIEW_PREFIXES" "(p, t) \<in> set (listing h view)" for view expected p t
    proof -
      note here = that
      obtain i k where e: "(p, i, view, k) \<in> set (positions h)" "t = utf8_decode_replace k" using here(2) by (auto simp: in_listing)
      then obtain expected' where "(view, expected') \<in> set VIEW_PREFIXES" "starts_with t (lit expected')"
        using v unfolding in_views_def by fastforce
      then show ?thesis using view_names [OF here(1)] by blast
    qed
    moreover have "(\<exists>(view, expected) \<in> set VIEW_PREFIXES. of_int m \<in> fst ` set (listing h view)) \<longleftrightarrow> m \<le> n" if above: "R < m" for m
    proof
      assume "m \<le> n"
      then obtain i s k where e: "(of_int m, i, s, k) \<in> set (positions h)" using at [OF above] by blast
      then obtain expected where "(s, expected) \<in> set VIEW_PREFIXES" using v unfolding in_views_def by fastforce
      then show "\<exists>(view, expected) \<in> set VIEW_PREFIXES. of_int m \<in> fst ` set (listing h view)"
        using e by (auto simp: listing_positions)
    next
      assume "\<exists>(view, expected) \<in> set VIEW_PREFIXES. of_int m \<in> fst ` set (listing h view)"
      then obtain i s k where "(of_int m, i, s, k) \<in> set (positions h)" by (auto simp: listing_positions)
      from live [OF this] show "m \<le> n" by auto
    qed
    moreover have "\<not> (of_int m \<in> fst ` set (listing h view) \<and> of_int m \<in> fst ` set (listing h view'))" if "view \<noteq> view'" for m view view'
      using one that by (auto simp: listing_positions)
    ultimately show "ledger_accounted h R n"
      using whole v unfolding ledger_accounted_def in_views_def by fast
  qed
qed

text \<open>
  C29: a ledger whose every transaction followed the ordered-write protocol, with each view inside a
  page, reconciles clean exactly when every indexed record is in one of the two views, under the
  prefix of its view and with a key no other record of the view reads as. The route does not compare
  a key with its view, so the protocol alone does not give that; nothing else can make such a ledger
  report findings.
\<close>

theorem good_ledger_reconciles_clean:
  assumes "pass_gateway env hist" "good (hist w)" "one_page (hist w)" "0 < fuel"
    "lookup (hist w) RESERVE_KEY = Some (int_bytes (rn_reserved env), u)"
  shows "\<exists>r w'. reconcile_once fuel env w = (Inr (Some r), w') \<and> hist w' = hist w \<and>
    rp_state r = (if in_views (hist w) then Clean else Findings)"
proof -
  obtain n where n: "counter_is (hist w) n" "0 \<le> n" "reserve_in_range (rn_reserved env)"
    using good_pass_numbers [OF assms(2,5)] by blast
  have "\<exists>data w'. reconcile_once fuel env w = (Inr (Some (findings_report (rn_reserved env) n data)), w') \<and> hist w' = hist w \<and>
    data = map (collected (hist w)) VIEW_PREFIXES"
    by (rule pass_run [OF assms(1,5) n(3,1,2)])
      (rule one_page_positions [OF assms(1) good_members_written [OF assms(2)] assms(3,4)])
  then show ?thesis by (auto simp: report_verdict accounted_collected good_accounted [OF assms(2) n(1) assms(5)])
qed

theorem good_ledger_reconciles_clean_witness:
  "\<exists>r. reconcile_once 2 test_pass (full_ledger 1) = (Inr (Some r), full_ledger 1) \<and> rp_state r = Clean"
proof -
  have l: "listing (full_ledger 1) view = (if view = VIEW_DECISION then [(1001, utf8_decode_replace (nth_key 0))] else [])" for view
    by (simp add: listing_def oldest_first_def full_ledger_positions listed_entry_def)
  have "one_page (full_ledger 1)" by (auto simp: oldest_first_def full_ledger_positions ZSCAN_PAGE_def)
  moreover obtain t where "utf8_encode t = Some (nth_key 0)" "starts_with t (lit ''tool_call:'')"
    using full_ledger_filed [of 1] by (auto simp: filed_def full_ledger_positions VIEW_PREFIXES_def VIEW_DECISION_def)
  then have "in_views (full_ledger 1)"
    using l [simplified] by (auto simp: in_views_def full_ledger_positions utf8_roundtrip_replace VIEW_PREFIXES_def VIEW_DECISION_def)
  ultimately show ?thesis
    using good_ledger_reconciles_clean [OF test_pass_gateway, of "full_ledger 1" 2 1] full_ledger_good [of 1]
      full_ledger_lookups [of 1]
    by (simp add: test_pass_def)
qed

text \<open>
  C32: a view that fills a page reads as findings although nothing is wrong with the ledger: the
  next page starts at the score the last one ended on, so that record is read twice. On a ledger
  that followed the protocol, every key text under its view's prefix, the duplicates reported are
  exactly the records at the boundaries of pages, the 2500th and every 2499th after it in the order
  of their positions, each as its key at its one position twice; the report shows the first hundred
  and counts them all, there is at least one, and every other finding is empty.
\<close>

theorem full_page_reported_as_duplicate:
  assumes "pass_gateway env hist" "good (hist w)" "filed (hist w)" "length (positions (hist w)) < fuel"
    "lookup (hist w) RESERVE_KEY = Some (int_bytes (rn_reserved env), u)"
    "(view, expected) \<in> set VIEW_PREFIXES" "ZSCAN_PAGE \<le> length (oldest_first (hist w) view)"
  shows "\<exists>r ds w'. reconcile_once fuel env w = (Inr (Some r), w') \<and> rp_state r = Findings \<and>
    rp_missing r = [] \<and> rp_unallocated r = [] \<and> rp_foreign r = [] \<and> rp_shared r = [] \<and> rp_malformed r = [] \<and>
    rp_duplicated r = take 100 ds \<and> rp_duplicated_count r = length ds \<and> ds \<noteq> [] \<and> set ds = boundary_reports (hist w)"
proof -
  obtain n data w' where p: "reconcile_once fuel env w = (Inr (Some (findings_report (rn_reserved env) n data)), w')"
    "hist w' = hist w" "counter_is (hist w) n"
    "list_all2 (\<lambda>(view, expected) (view', d). view' = view \<and> view_of_ledger (hist w) view d) VIEW_PREFIXES data"
    using good_ledger_pass [OF assms(1-5)] by blast
  note rep = ledger_report [OF assms(2,3) p(3) assms(5) p(4)]
  have ds: "set (duplicated_of data) = boundary_reports (hist w)" by (rule ledger_duplicates [OF assms(3,2) p(4)])
  obtain i where i: "i < length (listing (hist w) view)" "relisted i"
    using some_relisted assms(7) by (auto simp: listing_def)
  then have "(view, snd (listing (hist w) view ! i), [fst (listing (hist w) view ! i), fst (listing (hist w) view ! i)]) \<in> boundary_reports (hist w)"
    using assms(6) by (force simp: boundary_reports_def)
  then have ne: "duplicated_of data \<noteq> []" using ds by auto
  have "rp_duplicated_count (findings_report (rn_reserved env) n data) = length (duplicated_of data)"
    by (simp add: findings_report_def Let_def)
  then show ?thesis using p(1) rep ne ds report_lists(4) by (intro exI [of _ "findings_report (rn_reserved env) n data"] exI [of _ "duplicated_of data"] exI [of _ w']) simp
qed

theorem full_page_reported_as_duplicate_witness:
  "\<exists>r w'. reconcile_once 2501 test_pass (full_ledger 2500) = (Inr (Some r), w') \<and> rp_state r = Findings \<and> rp_missing r = []"
proof -
  have f: "oldest_first (full_ledger 2500) view = filter (\<lambda>(p, i, s, k). s = view) (positions (full_ledger 2500))" for view
    using good_oldest_first(1) full_ledger_good by simp
  have "length (oldest_first (full_ledger 2500) VIEW_DECISION) = 2500"
    unfolding f full_ledger_positions [of 2500, simplified] by (simp add: filter_map comp_def del: upt_conv_Cons_Cons)
  moreover have "length (positions (full_ledger 2500)) = 2500"
    using full_ledger_positions [of 2500] by simp
  moreover have "(VIEW_DECISION, ''tool_call:'') \<in> set VIEW_PREFIXES" by (simp add: VIEW_PREFIXES_def VIEW_DECISION_def)
  ultimately show ?thesis
    using full_page_reported_as_duplicate [OF test_pass_gateway, of "full_ledger 2500" 2501 1 VIEW_DECISION "''tool_call:''"]
      full_ledger_good [of 2500] full_ledger_filed [of 2500] full_ledger_lookups [of 2500]
    by (auto simp: test_pass_def ZSCAN_PAGE_def)
qed

end
