(* ===== verification/OrderedSpec.thy ===== *)
theory OrderedSpec
  imports ReconcileLedger
begin

text \<open>
  The ordered write as an append to a log. The abstract log has a base, bound by its first
  append and never changed, and a list of entries; an append returns the base plus the number of
  the entry. The counter, the compare-and-set loop, the caches, the retries and the other writers
  of the verifier (\<open>verifier/main.py\<close>) implement exactly this.
\<close>

section \<open>The abstract log\<close>

record ordered_log =
  lg_base :: "int option"
  lg_entries :: "(bytes \<times> bytes \<times> bytes) list"

definition log_append :: "int \<Rightarrow> bytes \<times> bytes \<times> bytes \<Rightarrow> ordered_log \<Rightarrow> ordered_log \<times> int" where
  "log_append reserved e l =
     (let base = (case lg_base l of None \<Rightarrow> reserved | Some b \<Rightarrow> b)
      in (\<lparr>lg_base = Some base, lg_entries = lg_entries l @ [e]\<rparr>, base + int (length (lg_entries l)) + 1))"

text \<open>A log that others may have appended to.\<close>

definition extends :: "ordered_log \<Rightarrow> ordered_log \<Rightarrow> bool" where
  "extends l l' \<longleftrightarrow> prefix (lg_entries l) (lg_entries l') \<and> (\<forall>b. lg_base l = Some b \<longrightarrow> lg_base l' = Some b)"

lemma extends_refl [simp]: "extends l l"
  by (simp add: extends_def)

lemma extends_trans: "extends l l' \<Longrightarrow> extends l' l'' \<Longrightarrow> extends l l''"
  unfolding extends_def using prefix_order.trans by blast

lemma append_extends: "extends l (fst (log_append r e l))"
  by (auto simp: extends_def log_append_def Let_def)

section \<open>The log a ledger holds\<close>

definition entry_of :: "history \<Rightarrow> rat \<times> int \<times> bytes \<times> bytes \<Rightarrow> bytes \<times> bytes \<times> bytes" where
  "entry_of h e = (case e of (p, i, view_set, key) \<Rightarrow>
     (view_set, key, case tx_value (h ! nat (i - 1)) key of None \<Rightarrow> [] | Some v \<Rightarrow> v))"

definition base_of :: "history \<Rightarrow> int option" where
  "base_of h = (case lookup h RESERVE_KEY of
     None \<Rightarrow> None
   | Some (v, u) \<Rightarrow> (case bind_sum (decode_bytes v) verifier_validate_reserve of Inl _ \<Rightarrow> None | Inr r \<Rightarrow> Some r))"

definition abs_log :: "history \<Rightarrow> ordered_log" where
  "abs_log h = \<lparr>lg_base = base_of h, lg_entries = map (entry_of h) (positions h)\<rparr>"

lemma read_reserve: "reserve_in_range R \<Longrightarrow> bind_sum (decode_bytes (int_bytes R)) verifier_validate_reserve = Inr R"
  by (simp add: decode_int_bytes verifier_reserve.reads_back)

lemma entries_kept:
  assumes "good h"
  shows "map (entry_of (h @ [t])) (positions h) = map (entry_of h) (positions h)"
proof (rule map_cong [OF refl])
  fix e assume e: "e \<in> set (positions h)"
  obtain p i s k where d: "e = (p, i, s, k)" by (cases e)
  then obtain v where "lookup h k = Some (v, i)"
    using good_positions [OF assms] e by (auto simp: placed_def)
  from lookup_bounds [OF this] show "entry_of (h @ [t]) e = entry_of h e"
    by (simp add: entry_of_def d nth_append nat_less_iff)
qed

text \<open>Every other transaction leaves the log alone, and an ordered one appends to it.\<close>

lemma plain_keeps_log:
  assumes "good h" "plain_step h t"
  shows "abs_log (h @ [t]) = abs_log h"
  using assms(2) entries_kept [OF assms(1), of t]
  by (simp add: abs_log_def base_of_def lookup_snoc plain_step_values positions_snoc tx_positions_plain)

lemma ordered_appends:
  assumes "good h" "ordered_step h key v vs n t"
  obtains R where "log_append R (vs, key, v) (abs_log h) = (abs_log (h @ [t]), n)"
proof -
  obtain R where ob: "t = ordered_ops R (lookup h RESERVE_KEY = None) key v vs n" "reserve_in_range R"
    "key \<noteq> SEQUENCE_KEY" "key \<noteq> RESERVE_KEY"
    "case lookup h RESERVE_KEY of None \<Rightarrow> True | Some (v, u) \<Rightarrow> v = int_bytes R"
    "case lookup h SEQUENCE_KEY of None \<Rightarrow> n = R + 1 | Some (v, u) \<Rightarrow> v = int_bytes (n - 1)"
    using assms(2) unfolding ordered_step_def by blast
  have entry: "entry_of (h @ [t]) (of_int n, next_tx h, vs, key) = (vs, key, v)"
    using ob(1,3,4) by (simp add: entry_of_def next_tx_def nth_append ordered_ops_values)
  have entries: "lg_entries (abs_log (h @ [t])) = lg_entries (abs_log h) @ [(vs, key, v)]"
    using entries_kept [OF assms(1), of t] entry by (simp add: abs_log_def ordered_step_positions [OF assms(2)])
  have base: "base_of (h @ [t]) = Some R"
    using ob(1-5) by (auto simp: base_of_def lookup_snoc ordered_ops_values read_reserve split: option.splits)
  have "base_of h = None \<and> positions h = [] \<and> n = R + 1 \<or> base_of h = Some R \<and> n = R + int (length (positions h)) + 1"
  proof (cases "lookup h SEQUENCE_KEY")
    case None
    then have "lookup h RESERVE_KEY = None" using good_bound [OF assms(1)] by (auto simp: counter_is_def)
    then show ?thesis using None ob(6) good_unbound_no_positions [OF assms(1) None] by (simp add: base_of_def)
  next
    case (Some p)
    then have c: "counter_is h (n - 1)" using ob(6) by (cases p) (simp add: counter_is_def)
    then obtain R1 u where b: "lookup h RESERVE_KEY = Some (int_bytes R1, u)" "R1 < n - 1"
      using good_bound [OF assms(1)] by (auto simp: counter_is_def int_bytes_inj)
    then have "R1 = R" using ob(5) by (simp add: int_bytes_inj)
    moreover have "length (positions h) = nat (n - 1 - R1)"
      using arg_cong [OF good_dense [OF assms(1) c b(1)], of length] by simp
    ultimately show ?thesis using b ob(2) by (simp add: base_of_def read_reserve)
  qed
  then have "log_append R (vs, key, v) (abs_log h) = (abs_log (h @ [t]), n)"
    using entries base by (auto simp: log_append_def abs_log_def)
  then show ?thesis by (rule that)
qed

lemma good_step_extends: "good h \<Longrightarrow> good_step h t \<Longrightarrow> extends (abs_log h) (abs_log (h @ [t]))"
  unfolding good_step_def using plain_keeps_log ordered_appends append_extends by (metis extends_refl fst_conv)

lemma grows_extends:
  assumes "grows E h h'" "protocol E" "good h"
  shows "extends (abs_log h) (abs_log h')"
  using assms
proof (induction rule: grows.induct)
  case (step h h' t)
  then show ?case
    using good_step_extends [OF protocol_grows [OF step.prems(1) step.hyps(1) step.prems(2)]] extends_trans
    unfolding protocol_def by blast
qed simp

lemma landed_append:
  assumes "landed E h h' key v vs tx seq" "protocol E" "good h"
  obtains l l' R where "extends (abs_log h) l" "log_append R (vs, key, v) l = (l', seq)" "extends l' (abs_log h')"
proof -
  obtain h1 t where l: "grows E h h1" "ordered_step h1 key v vs seq t" "grows E (h1 @ [t]) h'"
    using assms(1) unfolding landed_def by blast
  have g: "good h1" by (rule protocol_grows [OF assms(2) l(1) assms(3)])
  then have "good (h1 @ [t])" using l(2) good.snoc unfolding good_step_def by blast
  then show ?thesis
    using that ordered_appends [OF g l(2)] grows_extends [OF l(1) assms(2,3)] grows_extends [OF l(3) assms(2)] by metis
qed

section \<open>The refinement\<close>

text \<open>
  C40: an ordered commit refines one append. Whatever the other verifiers do between its calls
  and however often it retries, the log of the ledger afterwards extends the log before; when the
  commit returns a position, there is a moment in between at which exactly this entry was appended
  to the log and that position is what the append returned.
\<close>

theorem ordered_commit_refines_append:
  assumes "venv_ok E hist env" "protocol E" "good (vhist hist s)" "caches_ok (vhist hist s) s"
    and "key \<noteq> SEQUENCE_KEY" "key \<noteq> RESERVE_KEY" "\<not> starts_with key FAULT_KEY_PREFIX_BYTES"
    and "ordered_commit env key value view_set s = (r, s')"
  shows "extends (abs_log (vhist hist s)) (abs_log (vhist hist s')) \<and>
    (\<forall>tx seq n. r = Inr (Inr (tx, seq, n)) \<longrightarrow>
       (\<exists>l l' R. extends (abs_log (vhist hist s)) l \<and> log_append R (view_set, key, value) l = (l', seq) \<and>
          extends l' (abs_log (vhist hist s'))))"
proof -
  have "loop_post E hist env (vhist hist s) key value view_set False (nat (ve_max_attempts env)) r s s'"
    using ordered_commit_ok [OF assms(1,2,5) _ assms(3,4,8)] assms(6,7) by blast
  then obtain a where a: "r = Inr a" "commit_ok E (vhist hist s) (vhist hist s') key value view_set False
      (nat (ve_max_attempts env)) a"
    unfolding loop_post_def by blast
  have landed: "\<exists>l l' R. extends (abs_log (vhist hist s)) l \<and> log_append R (view_set, key, value) l = (l', seq) \<and>
      extends l' (abs_log (vhist hist s'))" if "landed E (vhist hist s) (vhist hist s') key value view_set tx seq" for tx seq
    using landed_append [OF that assms(2,3)] by metis
  then have up: "extends (abs_log (vhist hist s)) (abs_log (vhist hist s'))"
    if "landed E (vhist hist s) (vhist hist s') key value view_set tx seq" for tx seq
    using that append_extends extends_trans by (metis fst_conv)
  have "extends (abs_log (vhist hist s)) (abs_log (vhist hist s'))"
    using a(2) up grows_extends [OF _ assms(2,3)]
    by (auto simp: commit_ok_def split: sum.splits commit_error.splits)
  then show ?thesis using a landed by (auto simp: commit_ok_def)
qed

theorem ordered_commit_refines_append_witness:
  "\<exists>r s'. ordered_commit test_env ''tool_call:a'' ''{}'' ''ail_view:decision:v1'' (test_state [] []) = (r, s') \<and>
     extends \<lparr>lg_base = None, lg_entries = []\<rparr> (abs_log (vhist fst s'))"
proof -
  obtain r s' where r: "ordered_commit test_env ''tool_call:a'' ''{}'' ''ail_view:decision:v1'' (test_state [] []) = (r, s')"
    by fastforce
  have "abs_log (vhist fst (test_state [] [])) = \<lparr>lg_base = None, lg_entries = []\<rparr>"
    by (simp add: abs_log_def base_of_def vhist_def test_state_def)
  then show ?thesis
    using ordered_commit_refines_append [OF test_env_ok test_state_start(3,1,2) _ _ _ r] r
    by (auto simp: SEQUENCE_KEY_def RESERVE_KEY_def FAULT_KEY_PREFIX_BYTES_def FAULT_KEY_PREFIX_def encode_ascii_def lit_def)
qed

end
