(* ===== verification/AnchorService.thy ===== *)
theory AnchorService
  imports Reconcile Provenance
begin

text \<open>
  The anchoring service (\<open>anchor_service/main.py\<close>) and the log client it uses
  (\<open>provenance/rekor.py\<close>): finding the transparency log in Sigstore's two documents, one
  anchoring cycle, and the loops around it. The verifier, the log and the control plane answer
  with a status and a body; the clocks read the world, and a sleep changes it.
\<close>

section \<open>Environment and state\<close>

record ('w, 'sk, 'vk) aenv =
  an_crypto :: "('sk, 'vk) crypto"
  an_sign_der :: "'sk \<Rightarrow> bytes \<Rightarrow> bytes"
  an_repr :: "json \<Rightarrow> pystr"
  an_truncate :: "pystr \<Rightarrow> exn + int"
  an_fromisoformat :: "pystr \<Rightarrow> exn + int"
  an_config_ttl :: rat
  an_interval :: rat
  an_reconcile_interval :: rat
  an_reconcile_only :: bool
  an_key_path :: pystr
  an_path_exists :: bool
  an_load_key :: "exn + 'sk \<times> 'vk"
  an_get_state :: "('w, reply) io"
  an_fetch_config :: "('w, json \<times> json) io"
  an_post_log :: "pystr \<Rightarrow> json \<Rightarrow> ('w, reply) io"
  an_post_anchor :: "json \<Rightarrow> ('w, reply) io"
  an_monotonic :: "'w \<Rightarrow> rat"
  an_utcnow :: "'w \<Rightarrow> int"
  an_sleep :: "rat \<Rightarrow> 'w \<Rightarrow> 'w"

text \<open>The world and \<open>_config_cache\<close>: when it was fetched, the trusted root, the signing config.\<close>

record 'w asvc =
  as_world :: 'w
  as_cache :: "(rat \<times> json \<times> json) option"

type_synonym ('w, 'a) aio = "('w asvc, 'a) io"

definition on_net :: "('w, 'a) io \<Rightarrow> ('w, 'a) aio" where
  "on_net m s = (case m (as_world s) of (r, w') \<Rightarrow> (r, s\<lparr>as_world := w'\<rparr>))"

definition reading :: "('w \<Rightarrow> 'a) \<Rightarrow> ('w, 'a) aio" where
  "reading f s = (Inr (f (as_world s)), s)"

definition an_int :: "('w, 'sk, 'vk) aenv \<Rightarrow> json \<Rightarrow> exn + int" where
  "an_int env v =
     (case v of
        JInt i \<Rightarrow> Inr i
      | JBool b \<Rightarrow> Inr (if b then 1 else 0)
      | JStr s \<Rightarrow> of_option ValueError (py_int (strip s))
      | JFloat f \<Rightarrow> an_truncate env f
      | _ \<Rightarrow> Inl TypeError)"

section \<open>Finding the log\<close>

definition REKOR_V2_ENTRIES_PATH :: pystr where
  "REKOR_V2_ENTRIES_PATH = lit ''/api/v2/log/entries''"

definition KEY_DETAILS_P256 :: pystr where
  "KEY_DETAILS_P256 = lit ''PKIX_ECDSA_P256_SHA_256''"

definition DISCOVERY_SIGNING_CONFIG :: pystr where
  "DISCOVERY_SIGNING_CONFIG = lit ''signing_config.rekorTlogUrls''"

definition DISCOVERY_TRUSTED_ROOT :: pystr where
  "DISCOVERY_TRUSTED_ROOT = lit ''trusted_root.tlogs''"

abbreviation log_discovery_failed :: exn where
  "log_discovery_failed \<equiv> Foreign ''LogDiscoveryFailed'' []"

definition parse_time :: "('w, 'sk, 'vk) aenv \<Rightarrow> json \<Rightarrow> exn + int" where
  "parse_time env v = (case v of JStr s \<Rightarrow> an_fromisoformat env s | _ \<Rightarrow> Inl attribute_error)"

definition in_force :: "('w, 'sk, 'vk) aenv \<Rightarrow> json \<Rightarrow> int \<Rightarrow> exn + bool" where
  "in_force env valid_for now =
     (case valid_for of
        JObj d \<Rightarrow>
          (let start = dget d ''start''; until = dget d ''end''
           in if \<not> truthy start then Inr False
              else bind_sum (parse_time env start) (\<lambda>t.
                if t > now then Inr False
                else if truthy until then bind_sum (parse_time env until) (\<lambda>t'. Inr (\<not> t' \<le> now))
                else Inr True))
      | _ \<Rightarrow> Inr False)"

text \<open>\<open>(valid_for or {}).get("start") or ""\<close>, of a window that is in force\<close>

definition start_of :: "json \<Rightarrow> pystr" where
  "start_of valid_for = (case valid_for of JObj d \<Rightarrow> (case dget d ''start'' of JStr s \<Rightarrow> s | _ \<Rightarrow> []) | _ \<Rightarrow> [])"

text \<open>The first of the elements with the largest key, as \<open>max\<close> gives it.\<close>

definition latest :: "('a \<Rightarrow> pystr) \<Rightarrow> 'a list \<Rightarrow> 'a" where
  "latest key xs = foldl (\<lambda>best x. if key x > key best then x else best) (hd xs) (tl xs)"

definition list_of :: "json \<Rightarrow> exn + json list" where
  "list_of v = (if truthy v then py_iter v else Inr [])"

definition api_version :: "('w, 'sk, 'vk) aenv \<Rightarrow> json \<Rightarrow> exn + int" where
  "api_version env entry =
     bind_sum (get_field entry ''majorApiVersion'') (\<lambda>v. an_int env (if truthy v then v else JInt 0))"

fun keep_if :: "('a \<Rightarrow> exn + bool) \<Rightarrow> 'a list \<Rightarrow> exn + 'a list" where
  "keep_if p [] = Inr []"
| "keep_if p (x # xs) =
     bind_sum (p x) (\<lambda>b. bind_sum (keep_if p xs) (\<lambda>ys. Inr (if b then x # ys else ys)))"

definition is_current_v2 :: "('w, 'sk, 'vk) aenv \<Rightarrow> int \<Rightarrow> json \<Rightarrow> exn + bool" where
  "is_current_v2 env now entry =
     bind_sum (api_version env entry) (\<lambda>n.
       if n \<ge> 2 then bind_sum (get_field entry ''validFor'') (\<lambda>v. in_force env v now) else Inr False)"

definition url_of :: "string \<Rightarrow> json \<Rightarrow> exn + pystr" where
  "url_of field entry = bind_sum (get_field entry field) (\<lambda>u. rstrip_slash (or_text u))"

text \<open>Every URL the signing config calls older than version 2.\<close>

fun pre_v2_urls :: "('w, 'sk, 'vk) aenv \<Rightarrow> json list \<Rightarrow> exn + pystr list" where
  "pre_v2_urls env [] = Inr []"
| "pre_v2_urls env (entry # entries) =
     bind_sum (api_version env entry) (\<lambda>n.
       bind_sum (if n < 2 then map_sum id (\<lambda>u. [u]) (url_of ''url'' entry) else Inr []) (\<lambda>us.
         map_sum id (append us) (pre_v2_urls env entries)))"

definition window_of :: "json \<Rightarrow> exn + json" where
  "window_of tlog =
     bind_sum (get_field tlog ''publicKey'') (\<lambda>k. get_field (or_empty k) ''validFor'')"

definition is_candidate :: "('w, 'sk, 'vk) aenv \<Rightarrow> int \<Rightarrow> pystr list \<Rightarrow> json \<Rightarrow> exn + bool" where
  "is_candidate env now old tlog =
     bind_sum (url_of ''baseUrl'' tlog) (\<lambda>u.
       if u \<in> set old then Inr False else bind_sum (window_of tlog) (\<lambda>v. in_force env v now))"

definition field_or_null :: "json \<Rightarrow> string \<Rightarrow> json" where
  "field_or_null v key = (case v of JObj d \<Rightarrow> dget d key | _ \<Rightarrow> JNull)"

definition discover_log_url :: "('w, 'sk, 'vk) aenv \<Rightarrow> json \<Rightarrow> json \<Rightarrow> int \<Rightarrow> exn + pystr \<times> pystr" where
  "discover_log_url env trusted_root signing_config now =
     bind_sum (bind_sum (get_field signing_config ''rekorTlogUrls'') list_of) (\<lambda>tlog_urls.
       bind_sum (keep_if (is_current_v2 env now) tlog_urls) (\<lambda>v2.
         if v2 \<noteq> [] then
           (let best = latest (\<lambda>e. start_of (field_or_null e ''validFor'')) v2
            in bind_sum (item best ''url'') (\<lambda>u. map_sum id (\<lambda>u. (u, DISCOVERY_SIGNING_CONFIG)) (rstrip_slash u)))
         else bind_sum (pre_v2_urls env tlog_urls) (\<lambda>old.
           bind_sum (bind_sum (get_field trusted_root ''tlogs'') list_of) (\<lambda>tlogs.
             bind_sum (keep_if (is_candidate env now old) tlogs) (\<lambda>candidates.
               if candidates = [] then Inl log_discovery_failed
               else (let best = latest (\<lambda>t. start_of (field_or_null (field_or_null t ''publicKey'') ''validFor'')) candidates
                     in bind_sum (item best ''baseUrl'') (\<lambda>u.
                          map_sum id (\<lambda>u. (u, DISCOVERY_TRUSTED_ROOT)) (rstrip_slash u))))))))"

section \<open>Submitting an entry\<close>

definition build_hashedrekord_request :: "bytes \<Rightarrow> bytes \<Rightarrow> bytes \<Rightarrow> json" where
  "build_hashedrekord_request digest signature public_key_der =
     JObj [(lit ''hashedRekordRequestV002'', JObj
       [(lit ''digest'', JStr (b64encode digest)),
        (lit ''signature'', JObj
          [(lit ''content'', JStr (b64encode signature)),
           (lit ''verifier'', JObj
             [(lit ''publicKey'', JObj [(lit ''rawBytes'', JStr (b64encode public_key_der))]),
              (lit ''keyDetails'', JStr KEY_DETAILS_P256)])])])]"

definition submit :: "('w, 'sk, 'vk) aenv \<Rightarrow> pystr \<Rightarrow> json \<Rightarrow> ('w, json) aio" where
  "submit env log_url request_body =
     bind_io (lift_io (rstrip_slash (JStr log_url))) (\<lambda>u.
       bind_io (on_net (an_post_log env (u @ REKOR_V2_ENTRIES_PATH) request_body)) (\<lambda>response.
         lift_io (checked_body response)))"

section \<open>One cycle\<close>

definition sigstore_config :: "('w, 'sk, 'vk) aenv \<Rightarrow> rat \<Rightarrow> ('w, json \<times> json) aio" where
  "sigstore_config env now s =
     (case as_cache s of
        Some (fetched_at, trusted_root, signing_config) \<Rightarrow>
          if now - fetched_at < an_config_ttl env then (Inr (trusted_root, signing_config), s)
          else bind_io (on_net (an_fetch_config env)) (\<lambda>(r, c) s. (Inr (r, c), s\<lparr>as_cache := Some (now, r, c)\<rparr>)) s
      | None \<Rightarrow> bind_io (on_net (an_fetch_config env)) (\<lambda>(r, c) s. (Inr (r, c), s\<lparr>as_cache := Some (now, r, c)\<rparr>)) s)"

definition fetch_current_state :: "('w, 'sk, 'vk) aenv \<Rightarrow> ('w, json) aio" where
  "fetch_current_state env = bind_io (on_net (an_get_state env)) (\<lambda>response. lift_io (checked_body response))"

definition post_anchor :: "('w, 'sk, 'vk) aenv \<Rightarrow> json \<Rightarrow> json \<Rightarrow> ('w, json) aio" where
  "post_anchor env checkpoint external =
     bind_io (on_net (an_post_anchor env (JObj [(lit ''checkpoint'', checkpoint), (lit ''external'', external)])))
       (\<lambda>response. lift_io (checked_body response))"

record signed_head =
  sh_db :: json
  sh_tx :: int
  sh_hash :: json
  sh_signature :: json

text \<open>The fields of a state that are signed, read in the order the source reads them.\<close>

definition head_of :: "json \<Rightarrow> int \<Rightarrow> exn + signed_head" where
  "head_of state tx_id =
     bind_sum (item state ''db'') (\<lambda>db. bind_sum (item state ''tx_hash'') (\<lambda>h.
       map_sum id (\<lambda>g. \<lparr>sh_db = db, sh_tx = tx_id, sh_hash = h, sh_signature = g\<rparr>) (item state ''signature'')))"

definition head_bytes :: "signed_head \<Rightarrow> bytes" where
  "head_bytes h =
     encode_ascii (dumps_canonical (JObj
       [(lit ''anchor_payload_format'', JStr ANCHOR_PAYLOAD_FORMAT), (lit ''db'', sh_db h),
        (lit ''tx_id'', JInt (sh_tx h)), (lit ''tx_hash'', sh_hash h), (lit ''signature'', sh_signature h)]))"

definition log_request :: "('w, 'sk, 'vk) aenv \<Rightarrow> 'sk \<Rightarrow> 'vk \<Rightarrow> signed_head \<Rightarrow> json" where
  "log_request env sk vk h =
     build_hashedrekord_request (sha256 (an_crypto env) (head_bytes h)) (an_sign_der env sk (head_bytes h))
       (to_der (an_crypto env) vk)"

definition checkpoint_json :: "signed_head \<Rightarrow> json" where
  "checkpoint_json h = JObj
     [(lit ''db'', sh_db h), (lit ''tx_id'', JInt (sh_tx h)), (lit ''tx_hash'', sh_hash h),
      (lit ''signature'', sh_signature h)]"

definition external_json :: "('w, 'sk, 'vk) aenv \<Rightarrow> 'vk \<Rightarrow> pystr \<Rightarrow> pystr \<Rightarrow> json \<Rightarrow> exn + json" where
  "external_json env vk log_url source entry =
     bind_sum (get_field entry ''logIndex'') (\<lambda>i. Inr (JObj
       [(lit ''log_url'', JStr log_url), (lit ''log_url_source'', JStr source),
        (lit ''log_index'', JStr (str_of (an_repr env) i)),
        (lit ''anchor_key_fingerprint'', JStr (key_fingerprint (an_crypto env) vk)),
        (lit ''anchor_payload_format'', JStr ANCHOR_PAYLOAD_FORMAT),
        (lit ''transparency_log_entry'', entry)]))"

definition anchor_once ::
  "('w, 'sk, 'vk) aenv \<Rightarrow> 'sk \<Rightarrow> 'vk \<Rightarrow> int option \<Rightarrow> ('w, int option) aio" where
  "anchor_once env sk vk last_anchored_tx =
     bind_io (fetch_current_state env) (\<lambda>state.
       bind_io (lift_io (bind_sum (item state ''tx_id'') (an_int env))) (\<lambda>tx_id.
         if (case last_anchored_tx of None \<Rightarrow> False | Some t \<Rightarrow> tx_id \<le> t) then ret None
         else bind_io (lift_io (head_of state tx_id)) (\<lambda>head.
           bind_io (reading (an_monotonic env)) (\<lambda>now.
             bind_io (sigstore_config env now) (\<lambda>(trusted_root, signing_config).
               bind_io (reading (an_utcnow env)) (\<lambda>utc.
                 bind_io (lift_io (discover_log_url env trusted_root signing_config utc)) (\<lambda>(log_url, source).
                   bind_io (submit env log_url (log_request env sk vk head)) (\<lambda>entry.
                     bind_io (lift_io (external_json env vk log_url source entry)) (\<lambda>external.
                       bind_io (post_anchor env (checkpoint_json head) external) (\<lambda>result.
                         ret (Some tx_id)))))))))))"

section \<open>The loops\<close>

text \<open>\<open>try: ... except Exception\<close>, with what is kept when an exception was logged\<close>

definition logged :: "'a \<Rightarrow> ('s, 'a) io \<Rightarrow> ('s, 'a) io" where
  "logged d m = attempt m (\<lambda>r. case r of
     Inl (SystemExit e) \<Rightarrow> raise_io (SystemExit e)
   | Inl _ \<Rightarrow> ret d
   | Inr x \<Rightarrow> ret x)"

definition sleep_for :: "('w, 'sk, 'vk) aenv \<Rightarrow> rat \<Rightarrow> ('w, unit) aio" where
  "sleep_for env t s = (Inr (), s\<lparr>as_world := an_sleep env t (as_world s)\<rparr>)"

record loop_state =
  lp_last :: "int option"
  lp_reconciled_at :: rat

text \<open>A pass whose report nobody reads; \<open>False\<close> is a pass that ran out of its page bound.\<close>

definition logged_pass :: "nat \<Rightarrow> 'w renv \<Rightarrow> ('w, bool) aio" where
  "logged_pass fuel pass = logged True (bind_io (on_net (reconcile_once fuel pass)) (\<lambda>r. ret (r \<noteq> None)))"

definition anchor_cycle ::
  "nat \<Rightarrow> ('w, 'sk, 'vk) aenv \<Rightarrow> 'w renv \<Rightarrow> 'sk \<Rightarrow> 'vk \<Rightarrow> loop_state \<Rightarrow> ('w, loop_state option) aio" where
  "anchor_cycle fuel env pass sk vk ls =
     bind_io (logged None (anchor_once env sk vk (lp_last ls))) (\<lambda>anchored.
       let ls = (if anchored \<noteq> None then ls\<lparr>lp_last := anchored\<rparr> else ls)
       in bind_io (reading (an_monotonic env)) (\<lambda>now.
         if now - lp_reconciled_at ls \<ge> an_reconcile_interval env then
           bind_io (logged_pass fuel pass) (\<lambda>done.
             if done then bind_io (sleep_for env (an_interval env)) (\<lambda>_. ret (Some (ls\<lparr>lp_reconciled_at := now\<rparr>)))
             else ret None)
         else bind_io (sleep_for env (an_interval env)) (\<lambda>_. ret (Some ls))))"

text \<open>The first cycles of an endless loop.\<close>

fun cycles :: "nat \<Rightarrow> ('a \<Rightarrow> ('s, 'a option) io) \<Rightarrow> 'a \<Rightarrow> ('s, 'a option) io" where
  "cycles 0 step a = ret (Some a)"
| "cycles (Suc n) step a =
     bind_io (step a) (\<lambda>r. case r of None \<Rightarrow> ret None | Some b \<Rightarrow> cycles n step b)"

definition reconcile_cycle :: "nat \<Rightarrow> ('w, 'sk, 'vk) aenv \<Rightarrow> 'w renv \<Rightarrow> loop_state \<Rightarrow> ('w, loop_state option) aio" where
  "reconcile_cycle fuel env pass ls =
     bind_io (logged_pass fuel pass) (\<lambda>done.
       if done then bind_io (sleep_for env (an_reconcile_interval env)) (\<lambda>_. ret (Some ls)) else ret None)"

definition start_state :: loop_state where
  "start_state = \<lparr>lp_last = None, lp_reconciled_at = 0\<rparr>"

definition no_key :: "('w, 'sk, 'vk) aenv \<Rightarrow> bool" where
  "no_key env \<longleftrightarrow> an_key_path env = [] \<or> \<not> an_path_exists env"

definition run_forever :: "nat \<Rightarrow> nat \<Rightarrow> ('w, 'sk, 'vk) aenv \<Rightarrow> 'w renv \<Rightarrow> ('w, loop_state option) aio" where
  "run_forever n fuel env pass =
     (if an_reconcile_only env then cycles n (reconcile_cycle fuel env pass) start_state
      else if no_key env then raise_io (SystemExit WriterKeyUnset)
      else bind_io (lift_io (an_load_key env)) (\<lambda>(sk, vk). cycles n (anchor_cycle fuel env pass sk vk) start_state))"

definition run_once :: "('w, 'sk, 'vk) aenv \<Rightarrow> ('w, nat) aio" where
  "run_once env =
     (if no_key env then ret 2
      else bind_io (lift_io (an_load_key env)) (\<lambda>(sk, vk).
        bind_io (anchor_once env sk vk None) (\<lambda>anchored. ret (if anchored = None then 1 else 0))))"

end
