(* ===== verification/AnchorFacts.thy ===== *)
theory AnchorFacts
  imports AnchorService
begin

text \<open>
  What the anchoring service can do to the anchor store: the
  only body it ever posts describes an entry the log accepted for a state the verifier vouched
  for, a failed refresh of an expired configuration fails the cycle, and a cycle in which everything
  answers anchors the head.
\<close>

section \<open>A cycle in two parts\<close>

lemma bind_assoc: "bind_io (bind_io m f) g = bind_io m (\<lambda>x. bind_io (f x) g)"
  by (rule ext) (simp add: bind_io_def split: prod.split sum.split)

lemma bind_ret: "bind_io (ret x) f = f x"
  by (rule ext) (simp add: bind_io_def ret_def)

lemma bind_cong_result:
  "(\<And>x. f x = g x) \<Longrightarrow> bind_io m f = bind_io m g"
  by presburger

text \<open>Everything before the anchor is recorded: the transaction, and what is to be recorded of it.\<close>

definition prepared ::
  "('w, 'sk, 'vk) aenv \<Rightarrow> 'sk \<Rightarrow> 'vk \<Rightarrow> int option \<Rightarrow> ('w, (int \<times> json \<times> json) option) aio" where
  "prepared env sk vk last_anchored_tx =
     bind_io (fetch_current_state env) (\<lambda>state.
       bind_io (lift_io (bind_sum (item state ''tx_id'') (an_int env))) (\<lambda>tx_id.
         if (case last_anchored_tx of None \<Rightarrow> False | Some t \<Rightarrow> tx_id \<le> t) then ret None
         else bind_io (lift_io (head_of state tx_id)) (\<lambda>head.
           bind_io (reading (an_monotonic env)) (\<lambda>now.
             bind_io (sigstore_config env now) (\<lambda>(trusted_root, signing_config).
               bind_io (reading (an_utcnow env)) (\<lambda>utc.
                 bind_io (lift_io (discover_log_url env trusted_root signing_config utc)) (\<lambda>(log_url, source).
                   bind_io (submit env log_url (log_request env sk vk head)) (\<lambda>entry.
                     bind_io (lift_io (external_json env vk log_url source entry)) (\<lambda>external.
                       ret (Some (tx_id, checkpoint_json head, external)))))))))))"

lemma anchor_once_parts:
  "anchor_once env sk vk last_tx =
     bind_io (prepared env sk vk last_tx) (\<lambda>p. case p of
       None \<Rightarrow> ret None
     | Some (tx_id, checkpoint, external) \<Rightarrow> bind_io (post_anchor env checkpoint external) (\<lambda>_. ret (Some tx_id)))"
  unfolding anchor_once_def prepared_def
  by (simp add: bind_assoc bind_ret if_distrib [of "\<lambda>m. bind_io m _"] case_prod_unfold cong: if_cong)

section \<open>What is recorded\<close>

definition anchor_body :: "json \<Rightarrow> json \<Rightarrow> json" where
  "anchor_body checkpoint external = JObj [(lit ''checkpoint'', checkpoint), (lit ''external'', external)]"

text \<open>A body that describes an accepted entry for a state the verifier handed over.\<close>

definition honest_anchor :: "('w, 'sk, 'vk) aenv \<Rightarrow> 'sk \<Rightarrow> 'vk \<Rightarrow> json \<Rightarrow> bool" where
  "honest_anchor env sk vk body \<longleftrightarrow>
     (\<exists>w0 w0' sre state tx head log_url u source w1 w1' re entry external.
        an_get_state env w0 = (Inr sre, w0') \<and> checked_body sre = Inr state \<and>
        bind_sum (item state ''tx_id'') (an_int env) = Inr tx \<and> head_of state tx = Inr head \<and>
        rstrip_slash (JStr log_url) = Inr u \<and>
        an_post_log env (u @ REKOR_V2_ENTRIES_PATH) (log_request env sk vk head) w1 = (Inr re, w1') \<and>
        checked_body re = Inr entry \<and> external_json env vk log_url source entry = Inr external \<and>
        body = anchor_body (checkpoint_json head) external)"

lemma on_netE:
  assumes "on_net m s = (r, s')"
  obtains w' where "m (as_world s) = (r, w')" "s' = s\<lparr>as_world := w'\<rparr>"
  using assms by (auto simp: on_net_def split: prod.splits)

lemma prepared_None:
  assumes "prepared env sk vk last_tx s = (Inr None, s')"
  shows "last_tx \<noteq> None"
  using assms unfolding prepared_def
  by (auto simp: ret_def split: if_splits option.splits prod.splits elim!: bind_ioE)

lemma liftE': "lift_io q s = (r, s') \<Longrightarrow> q = r \<and> s' = s"
  by (simp add: lift_io_def)

lemma answerE:
  assumes "bind_io (on_net m) (\<lambda>response. lift_io (checked_body response)) s = (Inr x, s')"
  obtains re w w' where "m w = (Inr re, w')" "checked_body re = Inr x"
  using assms by (auto elim!: bind_ioE on_netE dest!: liftE')

lemma prepared_Some:
  assumes "prepared env sk vk last_tx s = (Inr (Some (tx, checkpoint, external)), s')"
  shows "honest_anchor env sk vk (anchor_body checkpoint external)"
    "\<forall>t. last_tx = Some t \<longrightarrow> t < tx"
proof -
  obtain state s1 head root conf s2 s3 utc log_url source entry where st:
    "fetch_current_state env s = (Inr state, s1)" "bind_sum (item state ''tx_id'') (an_int env) = Inr tx"
    "\<not> (case last_tx of None \<Rightarrow> False | Some t \<Rightarrow> tx \<le> t)" "head_of state tx = Inr head"
    "discover_log_url env root conf utc = Inr (log_url, source)"
    "submit env log_url (log_request env sk vk head) s2 = (Inr entry, s3)"
    "external_json env vk log_url source entry = Inr external" "checkpoint = checkpoint_json head"
    using assms unfolding prepared_def
    by (auto simp: ret_def split: if_splits prod.splits elim!: bind_ioE dest!: liftE')
  from st(1) obtain sre w0 w0' where "an_get_state env w0 = (Inr sre, w0')" "checked_body sre = Inr state"
    unfolding fetch_current_state_def by (rule answerE)
  moreover obtain u re w1 w1' where "rstrip_slash (JStr log_url) = Inr u"
    "an_post_log env (u @ REKOR_V2_ENTRIES_PATH) (log_request env sk vk head) w1 = (Inr re, w1')" "checked_body re = Inr entry"
    using st(6) unfolding submit_def by (auto elim!: bind_ioE answerE dest!: liftE')
  ultimately show "honest_anchor env sk vk (anchor_body checkpoint external)"
    unfolding honest_anchor_def using st by blast
  show "\<forall>t. last_tx = Some t \<longrightarrow> t < tx" using st(3) by auto
qed

section \<open>The recording service is only asked to record\<close>

abbreviation recording :: "('w, 'sk, 'vk) aenv \<Rightarrow> (json \<Rightarrow> ('w, reply) io) \<Rightarrow> ('w, 'sk, 'vk) aenv" where
  "recording env post \<equiv> env\<lparr>an_post_anchor := post\<rparr>"

lemma recording_values:
  "an_int (recording env post) = an_int env" "in_force (recording env post) = in_force env"
proof -
  have "parse_time (recording env post) = parse_time env" by (simp add: fun_eq_iff parse_time_def split: json.split)
  then show "in_force (recording env post) = in_force env"
    by (simp add: fun_eq_iff in_force_def Let_def cong: if_cong json.case_cong)
qed (simp add: fun_eq_iff an_int_def split: json.split)

lemma recording_urls: "pre_v2_urls (recording env post) es = pre_v2_urls env es"
  by (induction es) (simp_all add: api_version_def recording_values)

lemma recording_discovery: "discover_log_url (recording env post) = discover_log_url env"
proof -
  have v2: "is_current_v2 (recording env post) = is_current_v2 env"
    by (simp add: fun_eq_iff is_current_v2_def api_version_def recording_values cong: if_cong)
  have candidate: "is_candidate (recording env post) = is_candidate env"
    by (simp add: fun_eq_iff is_candidate_def recording_values cong: if_cong)
  show ?thesis by (intro ext) (simp add: discover_log_url_def v2 candidate recording_urls cong: if_cong)
qed

lemma recording_prepared: "prepared (recording env post) = prepared env"
proof -
  have config: "sigstore_config (recording env post) = sigstore_config env" by (simp add: fun_eq_iff sigstore_config_def cong: if_cong option.case_cong)
  show ?thesis
    by (intro ext) (simp add: prepared_def recording_values recording_discovery config fetch_current_state_def
        log_request_def submit_def external_json_def cong: if_cong)
qed

section \<open>The loop\<close>

lemma logged_raises: "logged d m s = (Inl e, s') \<Longrightarrow> \<exists>e'. e = SystemExit e'"
  by (auto simp: logged_def attempt_def ret_def raise_io_def split: prod.splits sum.splits exn.splits)

lemma logged_value: "logged d m s = (Inr x, s') \<Longrightarrow> x = d \<or> m s = (Inr x, s')"
  by (auto simp: logged_def attempt_def ret_def raise_io_def split: prod.splits sum.splits exn.splits)

lemma logged_result: "m s = (Inr x, s') \<Longrightarrow> logged d m s = (Inr x, s')"
  by (simp add: logged_def attempt_def ret_def)

lemma anchor_once_grows:
  assumes "anchor_once env sk vk last_tx s = (Inr (Some tx), s')"
  shows "\<forall>t. last_tx = Some t \<longrightarrow> t < tx"
  using assms unfolding anchor_once_parts
  by (auto simp: ret_def split: option.splits elim!: bind_ioE dest!: prepared_Some(2))

definition tx_no_earlier :: "int option \<Rightarrow> int option \<Rightarrow> bool" where
  "tx_no_earlier a b \<longleftrightarrow> (\<forall>t. a = Some t \<longrightarrow> (\<exists>t'. b = Some t' \<and> t \<le> t'))"

lemma tx_no_earlier_trans: "tx_no_earlier a b \<Longrightarrow> tx_no_earlier b c \<Longrightarrow> tx_no_earlier a c"
  by (fastforce simp: tx_no_earlier_def)

lemma cycle_end:
  assumes "anchor_cycle fuel env pass sk vk ls s = (r, s')"
  shows "(\<forall>e. r = Inl e \<longrightarrow> (\<exists>e'. e = SystemExit e')) \<and>
    (\<forall>ls'. r = Inr (Some ls') \<longrightarrow> tx_no_earlier (lp_last ls) (lp_last ls'))"
proof -
  from assms show ?thesis unfolding anchor_cycle_def Let_def logged_pass_def
    by (auto simp: ret_def reading_def sleep_for_def tx_no_earlier_def
        split: if_splits elim!: bind_ioE dest!: logged_raises logged_value anchor_once_grows intro: less_imp_le)
qed

lemma cycles_end:
  assumes "\<And>a s r s'. step a s = (r, s') \<Longrightarrow> (\<forall>e. r = Inl e \<longrightarrow> P e) \<and> (\<forall>b. r = Inr (Some b) \<longrightarrow> R a b)"
    and "\<And>a. R a a" "\<And>a b c. R a b \<Longrightarrow> R b c \<Longrightarrow> R a c"
  shows "cycles n step a s = (r, s') \<Longrightarrow> (\<forall>e. r = Inl e \<longrightarrow> P e) \<and> (\<forall>b. r = Inr (Some b) \<longrightarrow> R a b)"
proof (induction n arbitrary: a s)
  case 0
  then show ?case using assms(2) by (auto simp: ret_def)
next
  case (Suc n)
  obtain q s1 where q: "step a s = (q, s1)" by fastforce
  show ?case
  proof (cases q)
    case (Inl e)
    then show ?thesis using Suc.prems q assms(1) [OF q] by (auto simp: bind_io_def)
  next
    case (Inr x)
    then show ?thesis
    proof (cases x)
      case None
      then show ?thesis using Suc.prems q Inr by (auto simp: bind_io_def ret_def)
    next
      case (Some b)
      then have "cycles n step b s1 = (r, s')" using Suc.prems q Inr by (simp add: bind_io_def)
      from Suc.IH [OF this] show ?thesis using assms(1) [OF q] assms(3) Inr Some by blast
    qed
  qed
qed

text \<open>Everything the service calls answers, with a state whose head is \<open>tx\<close>.\<close>

definition finds_log :: "('w, 'sk, 'vk) aenv \<Rightarrow> json \<Rightarrow> json \<Rightarrow> bool" where
  "finds_log env r c \<longleftrightarrow> (\<forall>w. \<exists>u source. discover_log_url env r c (an_utcnow env w) = Inr (u, source))"

definition all_answer :: "('w, 'sk, 'vk) aenv \<Rightarrow> json \<Rightarrow> int \<Rightarrow> bool" where
  "all_answer env state tx \<longleftrightarrow>
     (\<forall>w. \<exists>re w'. an_get_state env w = (Inr re, w') \<and> checked_body re = Inr state) \<and>
     bind_sum (item state ''tx_id'') (an_int env) = Inr tx \<and> (\<exists>head. head_of state tx = Inr head) \<and>
     (\<forall>w. \<exists>r c w'. an_fetch_config env w = (Inr (r, c), w') \<and> finds_log env r c) \<and>
     (\<forall>url body w. \<exists>re w' entry. an_post_log env url body w = (Inr re, w') \<and> checked_body re = Inr (JObj entry)) \<and>
     (\<forall>body w. \<exists>re w' x. an_post_anchor env body w = (Inr re, w') \<and> checked_body re = Inr x)"

lemma all_answer_anchors:
  assumes "all_answer env state tx"
    and "\<And>t r c s'. as_cache s = Some (t, r, c) \<Longrightarrow> fetch_current_state env s = (Inr state, s') \<Longrightarrow>
      an_monotonic env (as_world s') - t < an_config_ttl env \<Longrightarrow> finds_log env r c"
    and "\<forall>t. last_tx = Some t \<longrightarrow> t < tx"
  shows "\<exists>s'. anchor_once env sk vk last_tx s = (Inr (Some tx), s')"
proof -
  obtain head where h: "bind_sum (item state ''tx_id'') (an_int env) = Inr tx" "head_of state tx = Inr head"
    using assms(1) unfolding all_answer_def by blast
  obtain s1 where s1: "fetch_current_state env s = (Inr state, s1)" "as_cache s1 = as_cache s"
  proof -
    obtain re w' where "an_get_state env (as_world s) = (Inr re, w')" "checked_body re = Inr state"
      using assms(1) unfolding all_answer_def by blast
    then show thesis by (intro that [of "s\<lparr>as_world := w'\<rparr>"]) (simp_all add: fetch_current_state_def bind_io_def on_net_def lift_io_def)
  qed
  obtain r c s2 where s2: "sigstore_config env (an_monotonic env (as_world s1)) s1 = (Inr (r, c), s2)" "finds_log env r c"
  proof -
    obtain r c w' where "an_fetch_config env (as_world s1) = (Inr (r, c), w')" "finds_log env r c"
      using assms(1) unfolding all_answer_def by blast
    then have f: "bind_io (on_net (an_fetch_config env)) (\<lambda>(r, c) s. (Inr (r, c), s\<lparr>as_cache := Some (n, r, c)\<rparr>)) s1 =
        (Inr (r, c), s1\<lparr>as_world := w', as_cache := Some (n, r, c)\<rparr>)" "finds_log env r c" for n
      by (simp_all add: bind_io_def on_net_def)
    show thesis
    proof (cases "as_cache s")
      case None
      then show thesis using that [of r c] f s1(2) by (simp add: sigstore_config_def)
    next
      case (Some q)
      obtain t r0 c0 where "q = (t, r0, c0)" by (cases q)
      then show thesis using that [of r c] that [of r0 c0] f s1(2) assms(2) [OF _ s1(1)] Some
        by (cases "an_monotonic env (as_world s1) - t < an_config_ttl env") (simp_all add: sigstore_config_def)
    qed
  qed
  obtain u source where d: "discover_log_url env r c (an_utcnow env (as_world s2)) = Inr (u, source)"
    using s2(2) unfolding finds_log_def by blast
  let ?req = "log_request env sk vk head"
  obtain entry s3 where s3: "submit env u ?req s2 = (Inr (JObj entry), s3)"
  proof -
    obtain v where v: "rstrip_slash (JStr u) = Inr v" by (simp add: rstrip_slash_def)
    obtain re w' entry where "an_post_log env (v @ REKOR_V2_ENTRIES_PATH) ?req (as_world s2) = (Inr re, w')"
      "checked_body re = Inr (JObj entry)"
      using assms(1) unfolding all_answer_def by blast
    then show thesis using v by (intro that [of entry "s2\<lparr>as_world := w'\<rparr>"])
        (simp add: submit_def bind_io_def on_net_def lift_io_def)
  qed
  obtain external where x: "external_json env vk u source (JObj entry) = Inr external"
    by (simp add: external_json_def)
  obtain y s4 where s4: "post_anchor env (checkpoint_json head) external s3 = (Inr y, s4)"
  proof -
    obtain re w' y where "an_post_anchor env (anchor_body (checkpoint_json head) external) (as_world s3) = (Inr re, w')" "checked_body re = Inr y"
      using assms(1) unfolding all_answer_def by blast
    then show thesis by (intro that [of y "s3\<lparr>as_world := w'\<rparr>"])
        (simp add: post_anchor_def anchor_body_def bind_io_def on_net_def lift_io_def)
  qed
  have "anchor_once env sk vk last_tx s = (Inr (Some tx), s4)"
    using h s1(1) s2(1) d s3 x s4 assms(3)
    by (auto simp: anchor_once_def bind_io_def lift_io_def reading_def ret_def split: option.split)
  then show ?thesis by blast
qed

section \<open>Properties\<close>

text \<open>
  C33: an anchor row stands for an accepted log entry. A cycle posts at most one body to the anchor
  store, and that body carries a state the verifier handed over in an answer that was not refused,
  with the entry the log returned for the request made of that state's canonical bytes, their
  digest and this service's signature over them. Nothing else the store would do with any other
  body can change the cycle.
\<close>

theorem recorded_only_what_the_log_accepted:
  "\<exists>bodies. (\<forall>b \<in> bodies. bodies = {b} \<and> honest_anchor env sk vk b) \<and>
     (\<forall>post. (\<forall>b \<in> bodies. post b = an_post_anchor env b) \<longrightarrow>
        anchor_once (env\<lparr>an_post_anchor := post\<rparr>) sk vk last_tx s = anchor_once env sk vk last_tx s)"
proof -
  obtain p s1 where p: "prepared env sk vk last_tx s = (p, s1)" by fastforce
  have run: "anchor_once (env\<lparr>an_post_anchor := post\<rparr>) sk vk last_tx s =
      bind_io (\<lambda>_. (p, s1)) (\<lambda>p. case p of None \<Rightarrow> ret None | Some (tx_id, checkpoint, external) \<Rightarrow>
        bind_io (post_anchor (env\<lparr>an_post_anchor := post\<rparr>) checkpoint external) (\<lambda>_. ret (Some tx_id))) s" for post
    by (simp add: anchor_once_parts recording_prepared bind_io_def p)
  have same: "anchor_once env sk vk last_tx s = anchor_once (env\<lparr>an_post_anchor := an_post_anchor env\<rparr>) sk vk last_tx s" by simp
  show ?thesis
  proof (cases "\<exists>tx ck ext. p = Inr (Some (tx, ck, ext))")
    case True
    then obtain tx ck ext where t: "p = Inr (Some (tx, ck, ext))" by blast
    have "honest_anchor env sk vk (anchor_body ck ext)" by (rule prepared_Some(1)) (use p t in simp)
    moreover have "post_anchor (env\<lparr>an_post_anchor := post\<rparr>) ck ext = post_anchor (env\<lparr>an_post_anchor := an_post_anchor env\<rparr>) ck ext"
      if "post (anchor_body ck ext) = an_post_anchor env (anchor_body ck ext)" for post
      using that by (simp add: post_anchor_def anchor_body_def)
    ultimately show ?thesis unfolding same run t
      by (intro exI [of _ "{anchor_body ck ext}"]) (auto simp: bind_io_def)
  next
    case False
    then show ?thesis unfolding same run
      by (intro exI [of _ "{}"]) (cases p; auto simp: bind_io_def split: option.splits)
  qed
qed

text \<open>A service whose world is its anchor store and its clock, and a pass that cannot log in.\<close>

definition ok_reply :: "json \<Rightarrow> reply" where
  "ok_reply body = \<lparr>re_status = 200, re_body = Some body\<rparr>"

definition test_head :: json where
  "test_head = JObj [(lit ''db'', JStr (lit ''d'')), (lit ''tx_id'', JInt 5), (lit ''tx_hash'', JStr (lit ''h'')),
     (lit ''signature'', JStr (lit ''s''))]"

definition test_signing_config :: json where
  "test_signing_config = JObj [(lit ''rekorTlogUrls'', JArr [JObj
     [(lit ''majorApiVersion'', JInt 2), (lit ''url'', JStr (lit ''u/'')),
      (lit ''validFor'', JObj [(lit ''start'', JStr (lit ''t''))])]])]"

definition test_anchor_env :: "(json list \<times> rat, bytes, bytes) aenv" where
  "test_anchor_env = \<lparr>an_crypto = test_crypto, an_sign_der = (\<lambda>k m. m), an_repr = dumps, an_truncate = (\<lambda>_. Inl ValueError),
     an_fromisoformat = (\<lambda>_. Inr 0), an_config_ttl = 3600, an_interval = 300, an_reconcile_interval = 900,
     an_reconcile_only = False, an_key_path = lit ''k'', an_path_exists = True, an_load_key = Inr (''k'', ''k''),
     an_get_state = (\<lambda>w. (Inr (ok_reply test_head), w)), an_fetch_config = (\<lambda>w. (Inr (JObj [], test_signing_config), w)),
     an_post_log = (\<lambda>url body w. (Inr (ok_reply (JObj [(lit ''logIndex'', JStr (lit ''7''))])), w)),
     an_post_anchor = (\<lambda>body w. (Inr (ok_reply (JObj [])), (fst w @ [body], snd w))),
     an_monotonic = snd, an_utcnow = (\<lambda>w. 1), an_sleep = (\<lambda>t w. (fst w, snd w + t))\<rparr>"

definition idle_pass :: "(json list \<times> rat) renv" where
  "idle_pass = \<lparr>rn_user = [], rn_password = [], rn_login = (\<lambda>u p d w. (Inl ValueError, w)), rn_getall = (\<lambda>t k w. (Inl ValueError, w)),
     rn_zscan = (\<lambda>t v m n w. (Inl ValueError, w)), rn_float = (\<lambda>_. Inl ValueError), rn_reserved = 1, rn_report_path = [],
     rn_write = (\<lambda>r w. (Inr (), w))\<rparr>"

lemma test_log: "finds_log test_anchor_env (JObj []) test_signing_config"
proof -
  have "get_field test_signing_config ''rekorTlogUrls'' = Inr (JArr [JObj
     [(lit ''majorApiVersion'', JInt 2), (lit ''url'', JStr (lit ''u/'')),
      (lit ''validFor'', JObj [(lit ''start'', JStr (lit ''t''))])]])"
    by (simp add: test_signing_config_def dget_def dict_get_def)
  moreover have "is_current_v2 test_anchor_env 1 (JObj [(lit ''majorApiVersion'', JInt 2), (lit ''url'', JStr (lit ''u/'')),
      (lit ''validFor'', JObj [(lit ''start'', JStr (lit ''t''))])]) = Inr True"
    by (simp add: is_current_v2_def api_version_def an_int_def in_force_def parse_time_def test_anchor_env_def dget_def dict_get_def lit_def)
  moreover have "an_utcnow test_anchor_env w = 1" for w by (simp add: test_anchor_env_def)
  ultimately show ?thesis
    by (simp add: finds_log_def discover_log_url_def list_of_def latest_def item_def dict_get_def rstrip_slash_def)
      (simp add: lit_def)
qed

lemma test_all_answer: "all_answer test_anchor_env test_head 5"
proof -
  have 1: "bind_sum (item test_head ''tx_id'') (an_int test_anchor_env) = Inr 5"
    by (simp add: test_head_def item_def dict_get_def an_int_def lit_def)
  have 2: "\<exists>head. head_of test_head 5 = Inr head"
    by (simp add: test_head_def head_of_def item_def dict_get_def lit_def)
  have ok: "checked_body (ok_reply b) = Inr b" for b
    by (simp add: checked_body_def raise_for_status_def json_body_def ok_reply_def)
  show ?thesis unfolding all_answer_def using 1 2 test_log ok
    by (auto simp: test_anchor_env_def finds_log_def)
qed

theorem recorded_only_what_the_log_accepted_witness:
  "\<exists>s' b. anchor_once test_anchor_env ''k'' ''k'' None \<lparr>as_world = ([], 0), as_cache = None\<rparr> = (Inr (Some 5), s') \<and>
     honest_anchor test_anchor_env ''k'' ''k'' b"
proof -
  let ?s = "\<lparr>as_world = ([], 0), as_cache = None\<rparr> :: (json list \<times> rat) asvc"
  obtain s' where run: "anchor_once test_anchor_env ''k'' ''k'' None ?s = (Inr (Some 5), s')"
    using all_answer_anchors [OF test_all_answer, of ?s None "''k''" "''k''"] by auto
  obtain bodies where b: "\<forall>b \<in> bodies. honest_anchor test_anchor_env ''k'' ''k'' b"
    "\<And>post. (\<forall>b \<in> bodies. post b = an_post_anchor test_anchor_env b) \<Longrightarrow>
        anchor_once (test_anchor_env\<lparr>an_post_anchor := post\<rparr>) ''k'' ''k'' None ?s = anchor_once test_anchor_env ''k'' ''k'' None ?s"
    using recorded_only_what_the_log_accepted [of test_anchor_env "''k''" "''k''" None ?s] by blast
  have "bodies \<noteq> {}"
  proof
    assume "bodies = {}"
    then have "anchor_once (test_anchor_env\<lparr>an_post_anchor := \<lambda>_ w. (Inl ValueError, w)\<rparr>) ''k'' ''k'' None ?s = (Inr (Some 5), s')"
      using b(2) run by simp
    then show False
      by (auto simp: anchor_once_parts ret_def post_anchor_def on_net_def split: option.splits elim!: bind_ioE)
  qed
  then show ?thesis using b(1) run by blast
qed

text \<open>
  C35: once the cached configuration is older than its time to live, a failure to fetch it again
  fails the cycle: the last good copy is kept and not used, and nothing is submitted or recorded.
\<close>

theorem expired_configuration_fails_the_cycle:
  assumes "as_cache s = Some (t, r, c)" "\<And>w. an_config_ttl env \<le> an_monotonic env w - t"
    and "\<And>w. \<exists>w'. an_fetch_config env w = (Inl e, w')"
    and "\<And>w. \<exists>re w'. an_get_state env w = (Inr re, w') \<and> checked_body re = Inr state"
    and "bind_sum (item state ''tx_id'') (an_int env) = Inr tx" "head_of state tx = Inr head"
    and "\<forall>t. last_tx = Some t \<longrightarrow> t < tx"
  shows "\<exists>s'. \<forall>post_log post_anchor. anchor_once (env\<lparr>an_post_log := post_log, an_post_anchor := post_anchor\<rparr>) sk vk last_tx s = (Inl e, s') \<and>
     as_cache s' = as_cache s"
proof -
  obtain re w1 where "an_get_state env (as_world s) = (Inr re, w1)" "checked_body re = Inr state" using assms(4) by blast
  moreover obtain w2 where "an_fetch_config env w1 = (Inl e, w2)" using assms(3) by blast
  moreover have "an_int (env\<lparr>an_post_log := p, an_post_anchor := q\<rparr>) = an_int env" for p q
    by (simp add: fun_eq_iff an_int_def split: json.split)
  ultimately show ?thesis
    using assms(1,5,6,7) assms(2) [of w1]
    by (intro exI [of _ "s\<lparr>as_world := w2\<rparr>"] allI)
      (auto simp: anchor_once_def fetch_current_state_def sigstore_config_def bind_io_def on_net_def lift_io_def reading_def
        split: option.split)
qed

theorem expired_configuration_fails_the_cycle_witness:
  "\<exists>s'. anchor_once (test_anchor_env\<lparr>an_fetch_config := \<lambda>w. (Inl (Foreign ''RefreshError'' []), w), an_monotonic := \<lambda>w. 4000,
       an_post_log := an_post_log test_anchor_env, an_post_anchor := an_post_anchor test_anchor_env\<rparr>) ''k'' ''k'' None
     \<lparr>as_world = ([], 0), as_cache = Some (0, JObj [], test_signing_config)\<rparr> = (Inl (Foreign ''RefreshError'' []), s')"
proof -
  let ?env = "test_anchor_env\<lparr>an_fetch_config := \<lambda>w. (Inl (Foreign ''RefreshError'' []), w), an_monotonic := \<lambda>w. 4000\<rparr>"
  obtain head where "bind_sum (item test_head ''tx_id'') (an_int ?env) = Inr 5" "head_of test_head 5 = Inr head"
    by (simp add: test_head_def head_of_def item_def dict_get_def an_int_def lit_def)
  moreover have "\<exists>re w'. an_get_state ?env w = (Inr re, w') \<and> checked_body re = Inr test_head" for w
    by (simp add: test_anchor_env_def checked_body_def raise_for_status_def json_body_def ok_reply_def)
  moreover have "an_config_ttl ?env \<le> an_monotonic ?env w - 0" for w by (simp add: test_anchor_env_def)
  ultimately show ?thesis
    using expired_configuration_fails_the_cycle [of "\<lparr>as_world = ([], 0), as_cache = Some (0, JObj [], test_signing_config)\<rparr>"
        0 "JObj []" test_signing_config ?env "Foreign ''RefreshError'' []" test_head 5 head None "''k''" "''k''"]
    by (fastforce simp: test_anchor_env_def)
qed

end
