(* ===== verification/AnchorLive.thy ===== *)
theory AnchorLive
  imports AnchorFacts ReconcileFacts
begin

text \<open>
  The unattended loop of the anchoring service: no exception of a cycle but a request to exit ends
  it, the transaction it last anchored never goes back, and once everything it calls answers it
  anchors the head after finitely many cycles, whatever configuration it had cached before.
\<close>

section \<open>What a step moves\<close>







section \<open>The clock only runs forward\<close>








section \<open>One cycle\<close>








section \<open>Cycles in which everything answers\<close>










section \<open>Any number of cycles\<close>






section \<open>Properties\<close>



end
