(* ===== verification/DecisionService.thy ===== *)
theory DecisionService
  imports ControlState WritePath
begin

text \<open>
  The decision service (\<open>decision_service/main.py\<close>, \<open>decision_service/schemas.py\<close>) and
  the two clients it writes through (\<open>ledger/immudb_ledger.py\<close>, \<open>ledger/content_store.py\<close>).
  Policy evaluation, the vault tool's process, pydantic's verdict on a schema, HTTP and the random
  identifiers are fields of \<open>denv\<close>; the caches, the verified tools and the metrics are fields of
  \<open>dstate\<close>.
\<close>

section \<open>The tools\<close>

datatype field_type = TStr | TFloat | TBool | TStrDict

record field_spec =
  fs_name :: string
  fs_type :: field_type
  fs_pattern :: "string option"
  fs_max_length :: "nat option"
  fs_positive :: bool

text \<open>Every field is required and no other is allowed (\<open>"extra": "forbid"\<close>).\<close>

type_synonym schema = "field_spec list"

abbreviation text_field :: "string \<Rightarrow> string option \<Rightarrow> nat option \<Rightarrow> field_spec" where
  "text_field name pattern longest \<equiv>
     \<lparr>fs_name = name, fs_type = TStr, fs_pattern = pattern, fs_max_length = longest, fs_positive = False\<rparr>"

abbreviation plain_field :: "string \<Rightarrow> field_type \<Rightarrow> field_spec" where
  "plain_field name ty \<equiv>
     \<lparr>fs_name = name, fs_type = ty, fs_pattern = None, fs_max_length = None, fs_positive = False\<rparr>"

abbreviation backslash :: string where
  "backslash \<equiv> [CHR 0x5C]"

definition CloudServerProvisionSchema :: schema where
  "CloudServerProvisionSchema =
     [text_field ''instance_type'' (Some (''^[a-z][a-z0-9'' @ backslash @ ''-]*'' @ backslash @ ''.[a-z0-9]+$'')) (Some 32),
      text_field ''region'' (Some (''^[a-z]{2}-[a-z]+-'' @ backslash @ ''d+$'')) (Some 24),
      (plain_field ''cost_per_hour'' TFloat)\<lparr>fs_positive := True\<rparr>,
      plain_field ''tags'' TStrDict]"

definition QueryDatabaseSchema :: schema where
  "QueryDatabaseSchema =
     [text_field ''target_table'' (Some ''^[a-zA-Z_][a-zA-Z0-9_]*$'') (Some 128),
      text_field ''query'' None (Some 4096),
      text_field ''processing_purpose'' (Some (''^[a-zA-Z0-9_'' @ backslash @ ''-]+$'')) (Some 64),
      plain_field ''masking_enabled'' TBool]"

definition DeployToProductionSchema :: schema where
  "DeployToProductionSchema =
     [text_field ''repository_name'' (Some (''^[a-zA-Z0-9][a-zA-Z0-9_'' @ backslash @ ''-'' @ backslash @ ''.]*$'')) (Some 255),
      text_field ''commit_hash'' (Some ''^[0-9a-f]{7,64}$'') None,
      text_field ''environment'' (Some (''^[a-z][a-z0-9'' @ backslash @ ''-]*$'')) (Some 32),
      text_field ''approval_ticket'' None (Some 64),
      plain_field ''bypass_ci'' TBool]"

definition ReadVaultSecretSchema :: schema where
  "ReadVaultSecretSchema = [text_field ''secret_name'' (Some ''^[a-z][a-z0-9_]*$'') (Some 64)]"

record tool_registration =
  tr_schema :: schema
  tr_authority_holder :: pystr
  tr_mechanism :: pystr
  tr_profile :: pystr
  tr_claimed_exclusivity :: "pystr option"

definition MEDIATED_MECHANISM :: pystr where
  "MEDIATED_MECHANISM = lit ''mcp_stdio_secret_mount''"

definition VERIFIABLE_MECHANISMS :: "pystr set" where
  "VERIFIABLE_MECHANISMS = {MEDIATED_MECHANISM}"

definition observed_tool :: "schema \<Rightarrow> tool_registration" where
  "observed_tool s =
     \<lparr>tr_schema = s, tr_authority_holder = lit ''agent (ambient)'', tr_mechanism = lit ''in_process_function'',
      tr_profile = lit ''observed'', tr_claimed_exclusivity = None\<rparr>"

definition VAULT_TOOL :: pystr where
  "VAULT_TOOL = lit ''read_vault_secret''"

definition TOOL_REGISTRY :: "(pystr \<times> tool_registration) list" where
  "TOOL_REGISTRY =
     [(lit ''provision_cloud_server'', observed_tool CloudServerProvisionSchema),
      (lit ''query_database'', observed_tool QueryDatabaseSchema),
      (lit ''deploy_to_production'', observed_tool DeployToProductionSchema),
      (VAULT_TOOL,
        \<lparr>tr_schema = ReadVaultSecretSchema,
         tr_authority_holder = lit ''decision-service (vault_server.py subprocess, secret-mounted)'',
         tr_mechanism = MEDIATED_MECHANISM, tr_profile = lit ''mediated'',
         tr_claimed_exclusivity = Some (lit ''demonstrated'')\<rparr>)]"

section \<open>Environment and state\<close>

text \<open>A tool result: the text of each content block, where the block has one.\<close>

record vault_result =
  vr_is_error :: bool
  vr_content :: "pystr option list"

record ('w, 'sk, 'vk) denv =
  de_crypto :: "('sk, 'vk) crypto"
  de_repr :: "json \<Rightarrow> pystr"
  de_schema_errors :: "schema \<Rightarrow> dict \<Rightarrow> (pystr list \<times> pystr) list"
  de_request_error :: "exn \<Rightarrow> bool"
  de_key_path :: pystr
  de_path_exists :: bool
  de_load_key :: "exn + 'sk"
  de_token_path :: pystr
  de_read_token :: "('w, pystr) io"
  de_append_token :: "('w, unit) io"
  de_get_revision :: "('w, reply) io"
  de_post_opa :: "json \<Rightarrow> ('w, reply) io"
  de_post_content :: "pystr \<Rightarrow> dict \<Rightarrow> ('w, reply) io"
  de_verifier_health :: "('w, reply) io"
  de_write_ordered :: "pystr \<Rightarrow> pystr \<Rightarrow> pystr \<Rightarrow> ('w, reply) io"
  de_call_vault :: "dict \<Rightarrow> ('w, vault_result) io"
  de_uuid :: "'w \<Rightarrow> pystr \<times> 'w"
  de_now :: "'w \<Rightarrow> pystr"
  de_monotonic :: "'w \<Rightarrow> rat"
  de_sleep :: "rat \<Rightarrow> 'w \<Rightarrow> 'w"

record ('w, 'sk, 'vk) dstate =
  ds_world :: 'w
  ds_verified :: "(pystr \<times> bool) list"
  ds_pass_complete :: bool
  ds_keys :: "('sk \<times> 'vk) option"
  ds_ledger :: bool
  ds_metrics :: "(pystr \<times> pystr \<times> pystr \<times> pystr) list"
  ds_log :: "pystr list"

type_synonym ('w, 'sk, 'vk, 'a) dio = "(('w, 'sk, 'vk) dstate, 'a) io"

definition d_out :: "('w, 'a) io \<Rightarrow> ('w, 'sk, 'vk, 'a) dio" where
  "d_out m s = (case m (ds_world s) of (r, w') \<Rightarrow> (r, s\<lparr>ds_world := w'\<rparr>))"

definition d_get :: "(('w, 'sk, 'vk) dstate \<Rightarrow> 'a) \<Rightarrow> ('w, 'sk, 'vk, 'a) dio" where
  "d_get f s = (Inr (f s), s)"

definition d_set :: "(('w, 'sk, 'vk) dstate \<Rightarrow> ('w, 'sk, 'vk) dstate) \<Rightarrow> ('w, 'sk, 'vk, unit) dio" where
  "d_set f s = (Inr (), f s)"

definition new_uuid :: "('w, 'sk, 'vk) denv \<Rightarrow> ('w, 'sk, 'vk, pystr) dio" where
  "new_uuid env = d_out (\<lambda>w. case de_uuid env w of (u, w') \<Rightarrow> (Inr u, w'))"

text \<open>\<open>except Exception\<close>\<close>

definition except :: "('s, 'a) io \<Rightarrow> (exn \<Rightarrow> ('s, 'a) io) \<Rightarrow> ('s, 'a) io" where
  "except m handler = attempt m (\<lambda>r. case r of
     Inl (SystemExit e) \<Rightarrow> raise_io (SystemExit e)
   | Inl e \<Rightarrow> handler e
   | Inr x \<Rightarrow> ret x)"

section \<open>Verified tools\<close>

definition os_error :: "exn \<Rightarrow> bool" where
  "os_error e = (case e of Foreign c _ \<Rightarrow> c = ''OSError'' | _ \<Rightarrow> False)"

definition read_only_error :: "exn \<Rightarrow> bool" where
  "read_only_error e = (e = Foreign ''OSError'' ''EROFS'')"

definition verify_mcp_stdio_secret_mount :: "('w, 'sk, 'vk) denv \<Rightarrow> ('w, 'sk, 'vk, bool) dio" where
  "verify_mcp_stdio_secret_mount env =
     (if \<not> starts_with (de_token_path env) (lit ''/run/secrets/'') then ret False
      else attempt (d_out (de_read_token env)) (\<lambda>r. case r of
        Inl e \<Rightarrow> if os_error e then ret False else raise_io e
      | Inr content \<Rightarrow>
          if strip content = [] then ret False
          else attempt (d_out (de_append_token env)) (\<lambda>r. case r of
            Inl e \<Rightarrow> if \<not> os_error e then raise_io e else ret (read_only_error e)
          | Inr _ \<Rightarrow> ret False)))"

text \<open>The verifier registered for a mechanism.\<close>

definition mechanism_verifier :: "('w, 'sk, 'vk) denv \<Rightarrow> pystr \<Rightarrow> ('w, 'sk, 'vk, bool) dio option" where
  "mechanism_verifier env mechanism =
     (if mechanism = MEDIATED_MECHANISM then Some (verify_mcp_stdio_secret_mount env) else None)"

definition set_verified :: "pystr \<Rightarrow> bool \<Rightarrow> ('w, 'sk, 'vk) dstate \<Rightarrow> ('w, 'sk, 'vk) dstate" where
  "set_verified tool b s = s\<lparr>ds_verified := (tool, b) # filter (\<lambda>(t, _). t \<noteq> tool) (ds_verified s)\<rparr>"

fun verify_tools :: "('w, 'sk, 'vk) denv \<Rightarrow> (pystr \<times> tool_registration) list \<Rightarrow> ('w, 'sk, 'vk, unit) dio" where
  "verify_tools env [] = ret ()"
| "verify_tools env ((tool, reg) # tools) =
     (if tr_mechanism reg \<notin> VERIFIABLE_MECHANISMS then verify_tools env tools
      else bind_io (case mechanism_verifier env (tr_mechanism reg) of None \<Rightarrow> ret False | Some verify \<Rightarrow> verify) (\<lambda>b.
             bind_io (d_set (set_verified tool b)) (\<lambda>_. verify_tools env tools)))"

definition run_verification_pass :: "('w, 'sk, 'vk) denv \<Rightarrow> ('w, 'sk, 'vk, unit) dio" where
  "run_verification_pass env =
     bind_io (verify_tools env TOOL_REGISTRY) (\<lambda>_. d_set (ds_pass_complete_update (\<lambda>_. True)))"

definition resolve_exclusivity_for :: "(pystr \<times> bool) list \<Rightarrow> pystr \<Rightarrow> tool_registration \<Rightarrow> pystr option" where
  "resolve_exclusivity_for verified tool reg =
     (if tr_claimed_exclusivity reg = None then None
      else if map_of verified tool = Some True then Some (lit ''demonstrated'')
      else Some (lit ''declared''))"

definition resolve_exclusivity :: "(pystr \<times> bool) list \<Rightarrow> pystr \<Rightarrow> pystr option" where
  "resolve_exclusivity verified tool =
     (case map_of TOOL_REGISTRY tool of None \<Rightarrow> None | Some reg \<Rightarrow> resolve_exclusivity_for verified tool reg)"

section \<open>Start\<close>

definition fetch_opa_bundle_revision :: "('w, 'sk, 'vk) denv \<Rightarrow> ('w, 'sk, 'vk, pystr option) dio" where
  "fetch_opa_bundle_revision env =
     except (bind_io (d_out (de_get_revision env)) (\<lambda>response.
       if re_status response \<noteq> 200 then ret None
       else bind_io (lift_io (bind_sum (json_body response) (\<lambda>b. get_field b ''result''))) (\<lambda>revision.
         ret (case revision of JStr s \<Rightarrow> if s = [] then None else Some s | _ \<Rightarrow> None))))
       (\<lambda>_. ret None)"

fun await_bundle :: "nat \<Rightarrow> ('w, 'sk, 'vk) denv \<Rightarrow> rat \<Rightarrow> rat \<Rightarrow> ('w, 'sk, 'vk, bool option) dio" where
  "await_bundle 0 env deadline poll_interval = ret None"
| "await_bundle (Suc fuel) env deadline poll_interval =
     bind_io (d_get (\<lambda>s. de_monotonic env (ds_world s))) (\<lambda>now.
       if now < deadline then
         bind_io (fetch_opa_bundle_revision env) (\<lambda>revision.
           if revision \<noteq> None then ret (Some True)
           else bind_io (d_set (\<lambda>s. s\<lparr>ds_world := de_sleep env poll_interval (ds_world s)\<rparr>)) (\<lambda>_.
                  await_bundle fuel env deadline poll_interval))
       else ret (Some False))"

definition verify_bundle_loaded_at_startup ::
  "nat \<Rightarrow> ('w, 'sk, 'vk) denv \<Rightarrow> rat \<Rightarrow> rat \<Rightarrow> ('w, 'sk, 'vk, bool option) dio" where
  "verify_bundle_loaded_at_startup fuel env timeout_seconds poll_interval =
     bind_io (d_get (\<lambda>s. de_monotonic env (ds_world s))) (\<lambda>now. await_bundle fuel env (now + timeout_seconds) poll_interval)"

definition lifespan :: "nat \<Rightarrow> ('w, 'sk, 'vk) denv \<Rightarrow> ('w, 'sk, 'vk, unit option) dio" where
  "lifespan fuel env =
     bind_io (run_verification_pass env) (\<lambda>_.
       bind_io (verify_bundle_loaded_at_startup fuel env 30 2) (\<lambda>loaded. case loaded of
         None \<Rightarrow> ret None
       | Some True \<Rightarrow> ret (Some ())
       | Some False \<Rightarrow> raise_io (RuntimeError ''OPA bundle not loaded at startup'')))"

section \<open>Policy evaluation\<close>

datatype outcome_type = PolicyAllow | PolicyDeny | SchemaDeny | OutcomeFault

datatype fault_class =
    OpaUnreachable
  | RevisionUnavailable
  | VerifierUnreachable
  | MalformedPolicyResponse
  | ContentStoreUnreachable
  | ToolExecutionFailed
  | IntentWriteFailed

fun outcome_text :: "outcome_type \<Rightarrow> pystr" where
  "outcome_text PolicyAllow = lit ''policy_allow''"
| "outcome_text PolicyDeny = lit ''policy_deny''"
| "outcome_text SchemaDeny = lit ''schema_deny''"
| "outcome_text OutcomeFault = lit ''fault''"

fun fault_text :: "fault_class \<Rightarrow> pystr" where
  "fault_text OpaUnreachable = lit ''opa_unreachable''"
| "fault_text RevisionUnavailable = lit ''revision_unavailable''"
| "fault_text VerifierUnreachable = lit ''verifier_unreachable''"
| "fault_text MalformedPolicyResponse = lit ''malformed_policy_response''"
| "fault_text ContentStoreUnreachable = lit ''content_store_unreachable''"
| "fault_text ToolExecutionFailed = lit ''tool_execution_failed''"
| "fault_text IntentWriteFailed = lit ''intent_write_failed''"

record outcome =
  oc_type :: outcome_type
  oc_fault :: "fault_class option"
  oc_revision :: "pystr option"
  oc_reasons :: "json list"

abbreviation fault_outcome :: "fault_class \<Rightarrow> outcome" where
  "fault_outcome c \<equiv> \<lparr>oc_type = OutcomeFault, oc_fault = Some c, oc_revision = None, oc_reasons = []\<rparr>"

abbreviation schema_deny :: "pystr \<Rightarrow> outcome" where
  "schema_deny msg \<equiv> \<lparr>oc_type = SchemaDeny, oc_fault = None, oc_revision = None, oc_reasons = [JStr msg]\<rparr>"

text \<open>\<open>type(v).__name__\<close>\<close>

fun type_name :: "json \<Rightarrow> pystr" where
  "type_name JNull = lit ''NoneType''"
| "type_name (JBool _) = lit ''bool''"
| "type_name (JInt _) = lit ''int''"
| "type_name (JFloat _) = lit ''float''"
| "type_name (JStr _) = lit ''str''"
| "type_name (JArr _) = lit ''list''"
| "type_name (JObj _) = lit ''dict''"

definition SENSITIVE_KEYS :: "pystr set" where
  "SENSITIVE_KEYS = {lit ''query'', lit ''approval_ticket'', lit ''commit_hash'', lit ''tags''}"

fun redact_args :: "json \<Rightarrow> json"
and redact_items :: "dict \<Rightarrow> dict" where
  "redact_args (JObj kvs) = JObj (redact_items kvs)"
| "redact_args v = JObj [(lit ''_shape'', JStr (type_name v))]"
| "redact_items [] = []"
| "redact_items ((k, v) # kvs) =
     (k, if k \<in> SENSITIVE_KEYS then JStr (lit ''[REDACTED]'')
         else case v of JObj d \<Rightarrow> redact_args (JObj d) | _ \<Rightarrow> v) # redact_items kvs"

definition validate :: "('w, 'sk, 'vk) denv \<Rightarrow> schema \<Rightarrow> dict \<Rightarrow> pystr option" where
  "validate env s args =
     (let errors = de_schema_errors env s args
      in if errors = [] then None
         else Some (join (lit ''; '') (map (\<lambda>(loc, msg). join (lit '' -> '') loc @ lit '': '' @ msg) errors)))"

definition opa_input :: "pystr \<Rightarrow> dict \<Rightarrow> json" where
  "opa_input tool_name args =
     JObj [(lit ''input'', JObj [(lit ''tool_name'', JStr tool_name), (lit ''tool_args'', JObj args)])]"

text \<open>What a 200 answer of the policy engine means.\<close>

definition read_evaluation :: "json \<Rightarrow> exn + outcome" where
  "read_evaluation body =
     bind_sum (get_field body ''result'') (\<lambda>result.
       if result = JNull then Inr (fault_outcome RevisionUnavailable)
       else bind_sum (get_field result ''allow'') (\<lambda>allow.
         bind_sum (get_field result ''reasons'') (\<lambda>reasons.
           bind_sum (get_field result ''revision'') (\<lambda>revision.
             case (allow, reasons, revision) of
               (JBool b, JArr rs, JStr v) \<Rightarrow>
                 if v = [] then Inr (fault_outcome MalformedPolicyResponse)
                 else if b then Inr \<lparr>oc_type = PolicyAllow, oc_fault = None, oc_revision = Some v, oc_reasons = []\<rparr>
                 else Inr \<lparr>oc_type = PolicyDeny, oc_fault = None, oc_revision = Some v, oc_reasons = rs\<rparr>
             | _ \<Rightarrow> Inr (fault_outcome MalformedPolicyResponse)))))"

definition query_opa_policy ::
  "('w, 'sk, 'vk) denv \<Rightarrow> pystr \<Rightarrow> json \<Rightarrow> ('w, 'sk, 'vk, outcome) dio" where
  "query_opa_policy env tool_name tool_args =
     (case tool_args of
        JObj args \<Rightarrow>
          (case map_of TOOL_REGISTRY tool_name of
             None \<Rightarrow> ret (schema_deny (lit ''No registered schema for tool '' @ [39] @ tool_name @ [39] @ lit ''.''))
           | Some reg \<Rightarrow>
               (case validate env (tr_schema reg) args of
                  Some error_message \<Rightarrow> ret (schema_deny error_message)
                | None \<Rightarrow>
                    attempt (d_out (de_post_opa env (opa_input tool_name args))) (\<lambda>r. case r of
                      Inl e \<Rightarrow> if de_request_error env e then ret (fault_outcome OpaUnreachable) else raise_io e
                    | Inr response \<Rightarrow>
                        if re_status response \<noteq> 200 then ret (fault_outcome OpaUnreachable)
                        else lift_io (bind_sum (json_body response) read_evaluation))))
      | _ \<Rightarrow> ret (schema_deny (lit ''tool_args must be a JSON object; got '' @ type_name tool_args @ lit ''.'')))"

section \<open>The message of an answer\<close>

definition DENIED_PREFIX :: pystr where
  "DENIED_PREFIX = lit ''DENIED: ''"

text \<open>A reason that is not text has no \<open>startswith\<close>.\<close>

definition strip_denied_prefix :: "json \<Rightarrow> exn + pystr" where
  "strip_denied_prefix reason =
     (case reason of
        JStr s \<Rightarrow> Inr (if starts_with s DENIED_PREFIX then drop (length DENIED_PREFIX) s else s)
      | _ \<Rightarrow> Inl attribute_error)"

fun all_of :: "('a \<Rightarrow> exn + 'b) \<Rightarrow> 'a list \<Rightarrow> exn + 'b list" where
  "all_of f [] = Inr []"
| "all_of f (x # xs) = bind_sum (f x) (\<lambda>y. map_sum id (Cons y) (all_of f xs))"

definition text_of :: "json \<Rightarrow> exn + pystr" where
  "text_of v = (case v of JStr s \<Rightarrow> Inr s | _ \<Rightarrow> Inl TypeError)"

definition render_message :: "outcome_type \<Rightarrow> fault_class option \<Rightarrow> json list \<Rightarrow> exn + pystr" where
  "render_message outcome_type fault_class reasons =
     (case outcome_type of
        PolicyAllow \<Rightarrow> Inr (lit ''Action approved by policy'')
      | PolicyDeny \<Rightarrow>
          bind_sum (all_of strip_denied_prefix reasons) (\<lambda>normalized.
            Inr (DENIED_PREFIX @ (if normalized \<noteq> [] then join (lit ''; '') normalized
                                  else lit ''Action did not pass policy evaluation.'')))
      | SchemaDeny \<Rightarrow>
          bind_sum (all_of text_of reasons) (\<lambda>texts.
            Inr (DENIED_PREFIX @ lit ''Schema Validation Failed. '' @ join (lit ''; '') texts))
      | OutcomeFault \<Rightarrow>
          Inr (DENIED_PREFIX @ lit ''Compliance engine fault ('' @
               (case fault_class of None \<Rightarrow> lit ''None'' | Some c \<Rightarrow> fault_text c) @
               lit ''). Fail-closed policy enforced.''))"

definition canonical_hash :: "('sk, 'vk) crypto \<Rightarrow> json \<Rightarrow> pystr" where
  "canonical_hash C tool_args = hexdigest (sha256 C (encode_ascii (dumps_canonical tool_args)))"

section \<open>The ledger client\<close>

definition ledger_writer_keys :: "('w, 'sk, 'vk) denv \<Rightarrow> ('w, 'sk, 'vk, 'sk \<times> 'vk) dio" where
  "ledger_writer_keys env =
     bind_io (d_get ds_keys) (\<lambda>held. case held of
       Some ks \<Rightarrow> ret ks
     | None \<Rightarrow>
         if de_key_path env = [] \<or> \<not> de_path_exists env then raise_io WriterKeyUnset
         else bind_io (lift_io (de_load_key env)) (\<lambda>sk.
                let ks = (sk, verifying_key_of (de_crypto env) sk)
                in bind_io (d_set (ds_keys_update (\<lambda>_. Some ks))) (\<lambda>_. ret ks)))"

definition sign_entry :: "('w, 'sk, 'vk) denv \<Rightarrow> dict \<Rightarrow> ('w, 'sk, 'vk, dict) dio" where
  "sign_entry env log_entry =
     bind_io (ledger_writer_keys env) (\<lambda>(signing_key, verifying_key).
       ret (sign_record (de_crypto env) log_entry signing_key verifying_key))"

text \<open>The client, built once; its constructor asks the verifier for its health.\<close>

definition get_ledger :: "('w, 'sk, 'vk) denv \<Rightarrow> ('w, 'sk, 'vk, unit) dio" where
  "get_ledger env =
     bind_io (d_get ds_ledger) (\<lambda>built.
       if built then ret ()
       else bind_io (d_out (de_verifier_health env)) (\<lambda>resp.
              bind_io (lift_io (raise_for_status resp)) (\<lambda>_.
                d_set (ds_ledger_update (\<lambda>_. True)))))"

definition post_ordered ::
  "('w, 'sk, 'vk) denv \<Rightarrow> pystr \<Rightarrow> bytes \<Rightarrow> pystr \<Rightarrow> ('w, 'sk, 'vk, json) dio" where
  "post_ordered env encoded_key value view =
     bind_io (d_out (de_write_ordered env encoded_key (b64encode value) view)) (\<lambda>resp.
       bind_io (lift_io (checked_body resp)) (\<lambda>result.
         bind_io (lift_io (get_field result ''verified'')) (\<lambda>verified.
           if \<not> truthy verified then raise_io (RuntimeError ''Ledger write not verified by SDK'')
           else lift_io (item result ''tx_id''))))"

text \<open>Signing a record, naming it under a fresh key, and writing it into a view.\<close>

definition log_record ::
  "('w, 'sk, 'vk) denv \<Rightarrow> string \<Rightarrow> pystr \<Rightarrow> pystr \<Rightarrow> string \<Rightarrow> dict \<Rightarrow> ('w, 'sk, 'vk, json) dio" where
  "log_record env namespace agent_id tool_name view log_entry =
     bind_io (sign_entry env log_entry) (\<lambda>signed.
       bind_io (new_uuid env) (\<lambda>fresh.
         bind_io (lift_io (text_b64 (lit namespace @ agent_id @ lit '':'' @ fresh @ lit '':'' @ tool_name))) (\<lambda>key.
           post_ordered env key (encode_ascii (dumps_compact (JObj signed))) (lit view))))"

record call_facts =
  cf_agent :: pystr
  cf_tool :: pystr
  cf_call_id :: pystr
  cf_input_sha256 :: pystr
  cf_content_state :: pystr
  cf_profile :: pystr

definition decision_entry ::
  "call_facts \<Rightarrow> pystr \<Rightarrow> outcome \<Rightarrow> pystr option \<Rightarrow> dict" where
  "decision_entry c timestamp oc exclusivity =
     [(lit ''record_type'', JStr (lit ''decision'')), (lit ''agent_id'', JStr (cf_agent c)),
      (lit ''timestamp'', JStr timestamp), (lit ''tool_name'', JStr (cf_tool c)),
      (lit ''call_id'', JStr (cf_call_id c)), (lit ''input_sha256'', JStr (cf_input_sha256 c)),
      (lit ''outcome_type'', JStr (outcome_text (oc_type oc))),
      (lit ''fault_class'', json_opt (JStr \<circ> fault_text) (oc_fault oc)),
      (lit ''policy_revision'', json_opt JStr (oc_revision oc)), (lit ''reasons'', JArr (oc_reasons oc)),
      (lit ''content_state'', JStr (cf_content_state c)), (lit ''profile'', JStr (cf_profile c))] @
     (case exclusivity of None \<Rightarrow> [] | Some e \<Rightarrow> [(lit ''exclusivity'', JStr e)])"

definition log_tool_call ::
  "('w, 'sk, 'vk) denv \<Rightarrow> call_facts \<Rightarrow> outcome \<Rightarrow> pystr option \<Rightarrow> ('w, 'sk, 'vk, json) dio" where
  "log_tool_call env c oc exclusivity =
     bind_io (d_get (\<lambda>s. de_now env (ds_world s))) (\<lambda>timestamp.
       log_record env ''tool_call:'' (cf_agent c) (cf_tool c) ''decision'' (decision_entry c timestamp oc exclusivity))"

definition intent_entry :: "call_facts \<Rightarrow> pystr \<Rightarrow> pystr option \<Rightarrow> dict" where
  "intent_entry c timestamp policy_revision =
     [(lit ''record_type'', JStr (lit ''decision_intent'')), (lit ''agent_id'', JStr (cf_agent c)),
      (lit ''timestamp'', JStr timestamp), (lit ''tool_name'', JStr (cf_tool c)),
      (lit ''call_id'', JStr (cf_call_id c)), (lit ''input_sha256'', JStr (cf_input_sha256 c)),
      (lit ''policy_revision'', json_opt JStr policy_revision),
      (lit ''content_state'', JStr (cf_content_state c)), (lit ''profile'', JStr (cf_profile c))]"

definition log_tool_intent ::
  "('w, 'sk, 'vk) denv \<Rightarrow> call_facts \<Rightarrow> pystr option \<Rightarrow> ('w, 'sk, 'vk, json) dio" where
  "log_tool_intent env c policy_revision =
     bind_io (d_get (\<lambda>s. de_now env (ds_world s))) (\<lambda>timestamp.
       log_record env ''tool_call_intent:'' (cf_agent c) (cf_tool c) ''intent'' (intent_entry c timestamp policy_revision))"

section \<open>Content and the mediated tool\<close>

definition store_content :: "('w, 'sk, 'vk) denv \<Rightarrow> pystr \<Rightarrow> dict \<Rightarrow> ('w, 'sk, 'vk, unit) dio" where
  "store_content env call_id payload =
     bind_io (d_out (de_post_content env call_id payload)) (\<lambda>resp. lift_io (raise_for_status resp))"

definition execute_vault_tool :: "('w, 'sk, 'vk) denv \<Rightarrow> dict \<Rightarrow> ('w, 'sk, 'vk, pystr) dio" where
  "execute_vault_tool env args =
     bind_io (d_out (de_call_vault env args)) (\<lambda>result.
       if vr_is_error result then
         (case vr_content result of
            None # _ \<Rightarrow> raise_io attribute_error
          | _ \<Rightarrow> raise_io (RuntimeError ''vault tool error''))
       else (case vr_content result of
               [] \<Rightarrow> raise_io IndexError
             | None # _ \<Rightarrow> raise_io attribute_error
             | Some text # _ \<Rightarrow> ret text))"

section \<open>\<open>POST /decide\<close>\<close>

record decide_request =
  dr_tool_name :: pystr
  dr_tool_args :: json
  dr_agent_id :: pystr

record answer =
  an_status :: pystr
  an_message :: pystr
  an_outcome_type :: outcome_type
  an_fault_class :: "fault_class option"
  an_policy_revision :: "pystr option"
  an_ledger_tx_id :: "json option"
  an_result :: "pystr option"

text \<open>The content write of a call, and the outcome after it. \<open>None\<close>: the arguments could not be stored.\<close>

definition keep_content ::
  "('w, 'sk, 'vk) denv \<Rightarrow> pystr \<Rightarrow> json \<Rightarrow> outcome \<Rightarrow> ('w, 'sk, 'vk, outcome \<times> pystr option) dio" where
  "keep_content env call_id tool_args oc =
     (case tool_args of
        JObj args \<Rightarrow>
          except (bind_io (store_content env call_id args) (\<lambda>_. ret (oc, Some (lit ''present''))))
            (\<lambda>_. ret (fault_outcome ContentStoreUnreachable, None))
      | _ \<Rightarrow> ret (oc, Some (lit ''unavailable'')))"

text \<open>The mediated tool: its intent is written first, and without it nothing runs.\<close>

definition run_mediated ::
  "('w, 'sk, 'vk) denv \<Rightarrow> call_facts \<Rightarrow> json \<Rightarrow> outcome \<Rightarrow> ('w, 'sk, 'vk, outcome \<times> pystr option) dio" where
  "run_mediated env c tool_args oc =
     attempt (bind_io (get_ledger env) (\<lambda>_. log_tool_intent env c (oc_revision oc))) (\<lambda>r. case r of
       Inl (SystemExit e) \<Rightarrow> raise_io (SystemExit e)
     | Inl _ \<Rightarrow> ret (fault_outcome IntentWriteFailed, None)
     | Inr _ \<Rightarrow>
         except (bind_io (case tool_args of JObj args \<Rightarrow> execute_vault_tool env args | _ \<Rightarrow> raise_io TypeError)
                  (\<lambda>payload. ret (oc, Some payload)))
           (\<lambda>_. ret (fault_outcome ToolExecutionFailed, None)))"

definition maybe_mediated ::
  "('w, 'sk, 'vk) denv \<Rightarrow> call_facts \<Rightarrow> bool \<Rightarrow> json \<Rightarrow> outcome \<Rightarrow> ('w, 'sk, 'vk, outcome \<times> pystr option) dio" where
  "maybe_mediated env c stored tool_args oc =
     (if oc_type oc = PolicyAllow \<and> cf_tool c = VAULT_TOOL \<and> stored
      then run_mediated env c tool_args oc else ret (oc, None))"

text \<open>The decision record; without it the outcome is a fault and a result is dropped.\<close>

definition record_decision ::
  "('w, 'sk, 'vk) denv \<Rightarrow> call_facts \<Rightarrow> bool \<Rightarrow> pystr option \<Rightarrow> outcome \<Rightarrow> pystr option \<Rightarrow>
   ('w, 'sk, 'vk, outcome \<times> json option \<times> pystr option) dio" where
  "record_decision env c stored exclusivity oc payload =
     (if \<not> stored then ret (oc, None, payload)
      else except (bind_io (get_ledger env) (\<lambda>_. bind_io (log_tool_call env c oc exclusivity) (\<lambda>tx.
                     ret (oc, if tx = JNull then None else Some tx, payload))))
             (\<lambda>_. ret (fault_outcome VerifierUnreachable, None, None)))"

definition status_of :: "outcome_type \<Rightarrow> pystr" where
  "status_of t = (if t = PolicyAllow then lit ''APPROVED'' else lit ''DENIED'')"

definition count_decision :: "pystr \<Rightarrow> outcome \<Rightarrow> ('w, 'sk, 'vk) dstate \<Rightarrow> ('w, 'sk, 'vk) dstate" where
  "count_decision tool_name oc s = s\<lparr>ds_metrics := ds_metrics s @
     [(status_of (oc_type oc), outcome_text (oc_type oc),
       (case oc_fault oc of None \<Rightarrow> [] | Some f \<Rightarrow> fault_text f),
       if map_of TOOL_REGISTRY tool_name \<noteq> None then tool_name else lit ''_unregistered'')]\<rparr>"

definition decided :: "pystr \<Rightarrow> outcome \<Rightarrow> json option \<Rightarrow> pystr option \<Rightarrow> ('w, 'sk, 'vk, answer) dio" where
  "decided tool_name oc ledger_tx_id payload =
     bind_io (d_set (count_decision tool_name oc)) (\<lambda>_.
       bind_io (lift_io (render_message (oc_type oc) (oc_fault oc) (oc_reasons oc))) (\<lambda>message.
         ret \<lparr>an_status = status_of (oc_type oc), an_message = message, an_outcome_type = oc_type oc,
              an_fault_class = oc_fault oc, an_policy_revision = oc_revision oc,
              an_ledger_tx_id = ledger_tx_id, an_result = payload\<rparr>))"

definition request_line :: "decide_request \<Rightarrow> pystr" where
  "request_line req =
     lit ''Decide request: '' @ dr_tool_name req @ lit '' | args='' @ dumps (redact_args (dr_tool_args req))"

definition profile_of :: "pystr \<Rightarrow> pystr" where
  "profile_of tool_name =
     (case map_of TOOL_REGISTRY tool_name of None \<Rightarrow> lit ''observed'' | Some reg \<Rightarrow> tr_profile reg)"

definition facts_for :: "('w, 'sk, 'vk) denv \<Rightarrow> decide_request \<Rightarrow> pystr \<Rightarrow> pystr option \<Rightarrow> call_facts" where
  "facts_for env req call_id content_state =
     \<lparr>cf_agent = dr_agent_id req, cf_tool = dr_tool_name req, cf_call_id = call_id,
      cf_input_sha256 = canonical_hash (de_crypto env) (dr_tool_args req),
      cf_content_state = (case content_state of None \<Rightarrow> [] | Some t \<Rightarrow> t),
      cf_profile = profile_of (dr_tool_name req)\<rparr>"

definition decide :: "('w, 'sk, 'vk) denv \<Rightarrow> decide_request \<Rightarrow> ('w, 'sk, 'vk, answer) dio" where
  "decide env req =
     bind_io (d_set (\<lambda>s. s\<lparr>ds_log := ds_log s @ [request_line req]\<rparr>)) (\<lambda>_.
       bind_io (query_opa_policy env (dr_tool_name req) (dr_tool_args req)) (\<lambda>oc.
         bind_io (new_uuid env) (\<lambda>call_id.
           bind_io (keep_content env call_id (dr_tool_args req) oc) (\<lambda>(oc, content_state).
             bind_io (d_get (\<lambda>s. resolve_exclusivity (ds_verified s) (dr_tool_name req))) (\<lambda>exclusivity.
               let c = facts_for env req call_id content_state;
                   stored = (content_state \<noteq> None)
               in bind_io (maybe_mediated env c stored (dr_tool_args req) oc) (\<lambda>(oc, payload).
                    bind_io (record_decision env c stored exclusivity oc payload) (\<lambda>(oc, tx, payload).
                      decided (dr_tool_name req) oc tx payload)))))))"

end
