(* ===== verification/DecisionFacts.thy ===== *)
theory DecisionFacts
  imports DecisionService OrderedRoute ContentErasure
begin

text \<open>
  What an answer of \<open>POST /decide\<close> rests on. What the decision service relies on in the
  verifier's \<open>POST /write-ordered\<close> is the locale \<open>ordered_store\<close>, interpreted by
  the model of that route.
\<close>

section \<open>A verified ordered write\<close>

text \<open>An ordered transaction of this record was committed.\<close>

definition ordered_tx :: "history \<Rightarrow> bytes \<Rightarrow> bytes \<Rightarrow> bytes \<Rightarrow> bool" where
  "ordered_tx h key value view_set \<longleftrightarrow>
     (\<exists>h1 ts R b n. h = (h1 @ [ordered_ops R b key value view_set n]) @ ts)"

lemma ordered_tx_grows:
  assumes "grows E h h'" "ordered_tx h k v vs"
  shows "ordered_tx h' k v vs"
proof -
  obtain ts where "h' = h @ ts" using grows_prefix [OF assms(1)] by blast
  then show ?thesis using assms(2) unfolding ordered_tx_def by (metis append.assoc)
qed

lemma ordered_tx_indexed:
  assumes "ordered_tx h key value vs" "key \<noteq> SEQUENCE_KEY" "key \<noteq> RESERVE_KEY"
  shows "indexed h vs key value"
proof -
  obtain h1 ts R b n where h: "h = (h1 @ [ordered_ops R b key value vs n]) @ ts"
    using assms(1) unfolding ordered_tx_def by blast
  have "(of_int n, next_tx h1, vs, key) \<in> set (positions (h1 @ [ordered_ops R b key value vs n]))"
    "wrote_at (h1 @ [ordered_ops R b key value vs n]) key value (next_tx h1)"
    using assms(2,3) by (simp_all add: positions_snoc tx_positions_ordered wrote_at_snoc ordered_ops_values)
  then show ?thesis
    unfolding indexed_def h using wrote_at_append positions_append by blast
qed

lemma ordered_try_issued:
  assumes "venv_ok E hist env" "ordered_try env key value vs s = (Inr (TryIssued n b (Inr (Some tx))), s')"
  shows "ordered_tx (vhist hist s') key value vs"
proof -
  obtain obs s1 where run: "on_world (im_exec_all (ve_im env)
      (ordered_ops (ve_reserved env) b key value vs n) (ordered_preconditions b key obs)) s1 = (Inr (Some tx), s')"
    using assms(2) unfolding ordered_try_def Let_def
    by (auto simp: ret_def split: sum.splits if_splits prod.splits elim!: attemptE)
  have "exec_ok E hist (ve_im env)" using assms(1) by (simp add: venv_ok_def immudb_ok_def)
  then obtain h1 where "grows E (h1 @ [ordered_ops (ve_reserved env) b key value vs n]) (vhist hist s')"
    using run unfolding exec_ok_def Let_def by (fastforce simp: on_world_def split: prod.splits)
  from grows_prefix [OF this] show ?thesis unfolding ordered_tx_def by blast
qed

lemma poke_run: "bind_io (poke f) g s = g () (f s)"
  by (simp add: bind_io_def poke_def)

lemma ordered_loop_issued:
  assumes "venv_ok E hist env"
    "ordered_loop env key value vs left att iss nxt s = (Inr (Inr (tx, seq, n)), s')"
  shows "ordered_tx (vhist hist s') key value vs"
  using assms(2)
proof (induction left arbitrary: att iss nxt s)
  case (Suc left)
  from Suc.prems obtain t s1 where t: "ordered_try env key value vs s = (Inr t, s1)"
    by (auto elim!: bind_InrE)
  note run = Suc.prems[simplified bind_io_def [of "ordered_try _ _ _ _"] ordered_loop.simps t, simplified]
  show ?case
  proof (cases t)
    case (TryRaised e nx)
    then show ?thesis using run by (simp add: ret_def)
  next
    case (TryIssued nx b r)
    then show ?thesis
      using run Suc.IH ordered_try_issued [OF assms(1)] t
      by (auto simp: ret_def poke_run vhist_def poke_def split: sum.splits option.splits if_splits elim!: bind_InrE)
  qed
qed (simp add: ret_def)

lemma ordered_outcome_verified:
  assumes "venv_ok E hist env" "ordered_outcome env key value view vs s = (Inr (Inr r), s')" "or_verified r"
  shows "ordered_tx (vhist hist s') key value vs"
proof -
  obtain tx seq n s1 s2 where r: "ordered_commit env key value vs s1 = (Inr (Inr (tx, seq, n)), s2)"
    "ordered_prove env key value view tx seq n s2 = (Inr r, s')"
    using assms(2,3) unfolding ordered_outcome_def ordered_uncertain_def
    by (auto simp: ret_def ordered_unverified_def split: sum.splits if_splits presence.splits commit_error.splits
        prod.splits elim!: attemptE bind_InrE)
  have "ordered_tx (vhist hist s2) key value vs"
    using ordered_loop_issued [OF assms(1)] r(1) unfolding ordered_commit_def by blast
  moreover obtain g where "on_world (im_verified_get (ve_im env) key) s2 = (g, s')"
    using r(2) assms(3) unfolding ordered_prove_def
    by (auto simp: ret_def ordered_unverified_def split: sum.splits if_splits prod.splits elim!: attemptE bind_InrE)
  then have "grows E (vhist hist s2) (vhist hist s')"
    using keeps_client_reads(2) [OF assms(1)] by (rule keepsD [rotated])
  ultimately show ?thesis by (rule ordered_tx_grows [rotated])
qed

section \<open>What is relied on\<close>

text \<open>The service that writes ordered records: a write it calls verified is in the ledger and its view.\<close>

locale ordered_store =
  fixes ok :: "'env \<Rightarrow> bool" and hist :: "'w \<Rightarrow> history"
    and post :: "'env \<Rightarrow> pystr \<Rightarrow> pystr \<Rightarrow> pystr \<Rightarrow> ('w, reply) io"
  assumes verified_is_indexed:
    "ok e \<Longrightarrow> map_of VIEW_SETS view = Some vs \<Longrightarrow> k \<noteq> SEQUENCE_KEY \<Longrightarrow> k \<noteq> RESERVE_KEY \<Longrightarrow>
     post e (b64encode k) (b64encode v) view w = (Inr re, w') \<Longrightarrow> re_body re = Some (JObj d) \<Longrightarrow>
     truthy (dget d ''verified'') \<Longrightarrow> indexed (hist w') vs k v"

text \<open>The JSON of an ordered-write response; its two prose fields are left to a parameter.\<close>

definition ordered_response_json ::
  "(ordered_detail \<Rightarrow> pystr) \<Rightarrow> (fault_error \<Rightarrow> pystr) \<Rightarrow> ordered_response \<Rightarrow> json" where
  "ordered_response_json prose fprose r = JObj
     [(lit ''tx_id'', json_opt JInt (or_tx_id r)), (lit ''seq'', json_opt JInt (or_seq r)),
      (lit ''verified'', JBool (or_verified r)), (lit ''committed'', json_opt JBool (or_committed r)),
      (lit ''attempts'', JInt (int (or_attempts r))), (lit ''error_class'', json_opt JStr (or_error_class r)),
      (lit ''fault_record'', json_opt JStr (or_fault_record r)),
      (lit ''fault_record_error'', json_opt (JStr \<circ> fprose) (or_fault_error r)),
      (lit ''detail'', json_opt (JStr \<circ> prose) (or_detail r))]"

record ('w, 'sk, 'vk) ordered_caller =
  od_env :: "('w, 'sk, 'vk) venv"
  od_key :: pystr
  od_prose :: "ordered_detail \<Rightarrow> pystr"
  od_fault_prose :: "fault_error \<Rightarrow> pystr"

definition http_write_ordered ::
  "('w, 'sk, 'vk) ordered_caller \<Rightarrow> pystr \<Rightarrow> pystr \<Rightarrow> pystr \<Rightarrow> (('w, 'sk, 'vk) vstate, reply) io" where
  "http_write_ordered c key v view =
     attempt (write_ordered (od_env c) (od_key c) \<lparr>oq_key = key, oq_value = v, oq_view = view\<rparr>) (\<lambda>r. case r of
       Inl exc \<Rightarrow> ret \<lparr>re_status = 500, re_body = None\<rparr>
     | Inr (Inl (HTTPException n)) \<Rightarrow> ret \<lparr>re_status = n, re_body = Some (JObj [])\<rparr>
     | Inr (Inr resp) \<Rightarrow>
         ret \<lparr>re_status = 200, re_body = Some (ordered_response_json (od_prose c) (od_fault_prose c) resp)\<rparr>)"

lemma ordered_verified_field:
  "ordered_response_json p q r = JObj d \<Longrightarrow> dget d ''verified'' = JBool (or_verified r)"
  by (auto simp: ordered_response_json_def dget_def dict_get_def lit_def)

interpretation verifier_ordered: ordered_store "\<lambda>c. venv_ok E hist (od_env c)" "vhist hist" http_write_ordered for E hist
proof
  fix c :: "('a, 'b, 'c) ordered_caller" and view vs k v w re w' d
  assume a: "venv_ok E hist (od_env c)" "map_of VIEW_SETS view = Some vs" "k \<noteq> SEQUENCE_KEY" "k \<noteq> RESERVE_KEY"
    "http_write_ordered c (b64encode k) (b64encode v) view w = (Inr re, w')"
    "re_body re = Some (JObj d)" "truthy (dget d ''verified'')"
  obtain q s1 where q: "write_ordered (od_env c) (od_key c)
      \<lparr>oq_key = b64encode k, oq_value = b64encode v, oq_view = view\<rparr> w = (q, s1)" by fastforce
  have "dget [] ''verified'' = JNull" by (simp add: dget_def dict_get_def)
  then obtain r where r: "q = Inr (Inr r)" "w' = s1" "or_verified r"
    using a(5-7) ordered_verified_field [of "od_prose c" "od_fault_prose c" _ d]
    by (auto simp: http_write_ordered_def attempt_def q ret_def split: sum.splits http_error.splits)
  then have "ordered_outcome (od_env c) k v view vs w = (Inr (Inr r), w')"
    using q a(2) by (auto simp: write_ordered_def ret_def split: sum.splits option.splits)
  from ordered_tx_indexed [OF ordered_outcome_verified [OF a(1) this r(3)] a(3,4)]
  show "indexed (vhist hist w') vs k v" .
qed

section \<open>The key the records are signed with\<close>

definition holds_key :: "('w, 'sk, 'vk) denv \<Rightarrow> 'sk \<Rightarrow> ('w, 'sk, 'vk) dstate \<Rightarrow> bool" where
  "holds_key env sk s \<longleftrightarrow>
     de_load_key env = Inr sk \<and> ds_keys s \<in> {None, Some (sk, verifying_key_of (de_crypto env) sk)}"

definition keeps_key :: "('w, 'sk, 'vk) denv \<Rightarrow> 'sk \<Rightarrow> ('w, 'sk, 'vk, 'a) dio \<Rightarrow> bool" where
  "keeps_key env sk m \<longleftrightarrow> (\<forall>s r s'. m s = (r, s') \<longrightarrow> holds_key env sk s \<longrightarrow> holds_key env sk s')"

named_theorems key_intros "steps that keep the writer's key"

lemma keeps_keyD: "keeps_key env sk m \<Longrightarrow> m s = (r, s') \<Longrightarrow> holds_key env sk s \<Longrightarrow> holds_key env sk s'"
  by (auto simp: keeps_key_def)

lemma keeps_key_basic [key_intros]:
  "keeps_key env sk (ret x)" "keeps_key env sk (raise_io e)" "keeps_key env sk (lift_io q)"
  "keeps_key env sk (d_get f)" "keeps_key env sk (d_out m)" "keeps_key env sk (d_set (ds_ledger_update g))"
  by (auto simp: keeps_key_def holds_key_def ret_def raise_io_def lift_io_def d_get_def d_out_def d_set_def
      split: prod.splits)

lemma keeps_key_bind [key_intros]:
  "keeps_key env sk m \<Longrightarrow> (\<And>x. keeps_key env sk (f x)) \<Longrightarrow> keeps_key env sk (bind_io m f)"
  unfolding keeps_key_def by (intro allI impI, elim bind_ioE) blast+

lemma keeps_key_attempt [key_intros]:
  "keeps_key env sk m \<Longrightarrow> (\<And>x. keeps_key env sk (f x)) \<Longrightarrow> keeps_key env sk (attempt m f)"
  unfolding keeps_key_def by (intro allI impI, elim attemptE) blast

lemma keeps_key_cases [key_intros]:
  "keeps_key env sk m \<Longrightarrow> keeps_key env sk m' \<Longrightarrow> keeps_key env sk (if b then m else m')"
  "keeps_key env sk m \<Longrightarrow> (\<And>y. keeps_key env sk (f y)) \<Longrightarrow> keeps_key env sk (case x of None \<Rightarrow> m | Some y \<Rightarrow> f y)"
  "(\<And>y. keeps_key env sk (g y)) \<Longrightarrow> (\<And>y. keeps_key env sk (h y)) \<Longrightarrow>
     keeps_key env sk (case z of Inl y \<Rightarrow> g y | Inr y \<Rightarrow> h y)"
  by (auto split: option.split sum.split)

lemma keeps_key_except [key_intros]:
  "keeps_key env sk m \<Longrightarrow> (\<And>e. keeps_key env sk (h e)) \<Longrightarrow> keeps_key env sk (except m h)"
  unfolding except_def by (intro keeps_key_attempt) (auto intro!: keeps_key_basic split: sum.split exn.split)

lemma ledger_writer_keys_held:
  assumes "ledger_writer_keys env s = (r, s')" "holds_key env sk s"
  shows "holds_key env sk s' \<and> ds_world s' = ds_world s \<and>
    (\<forall>ks. r = Inr ks \<longrightarrow> ks = (sk, verifying_key_of (de_crypto env) sk))"
  using assms by (auto simp: ledger_writer_keys_def holds_key_def bind_io_def d_get_def d_set_def ret_def
      raise_io_def lift_io_def Let_def split: option.splits if_splits)

lemma keeps_key_writer [key_intros]: "keeps_key env sk (ledger_writer_keys env)"
  unfolding keeps_key_def by (intro allI impI) (drule (1) ledger_writer_keys_held, elim conjE)

lemma keeps_key_query [key_intros]: "keeps_key env sk (query_opa_policy env tool args)"
proof (cases args)
  case (JObj d)
  then show ?thesis unfolding query_opa_policy_def by (simp, intro key_intros)
qed (simp_all add: query_opa_policy_def keeps_key_basic)

lemma keeps_key_content [key_intros]: "keeps_key env sk (keep_content env call_id args oc)"
  unfolding keep_content_def store_content_def by (cases args) (auto intro!: key_intros)

lemma keeps_key_log [key_intros]: "keeps_key env sk (log_record env ns agent tool view entry)"
  unfolding log_record_def sign_entry_def new_uuid_def post_ordered_def
  by (auto intro!: key_intros split: prod.split)

lemma keeps_key_ledger [key_intros]: "keeps_key env sk (get_ledger env)"
  unfolding get_ledger_def by (intro key_intros)

lemma keeps_key_mediated [key_intros]: "keeps_key env sk (maybe_mediated env c stored args oc)"
proof -
  have "keeps_key env sk (execute_vault_tool env d)" for d
    unfolding execute_vault_tool_def by (intro key_intros) (auto intro!: keeps_key_basic split: list.split option.split)
  then have "keeps_key env sk (case args of JObj d \<Rightarrow> execute_vault_tool env d | _ \<Rightarrow> raise_io TypeError)"
    by (cases args) (simp_all add: keeps_key_basic)
  then have "keeps_key env sk (run_mediated env c args oc)"
    unfolding run_mediated_def log_tool_intent_def
    by (intro keeps_key_attempt)
      (auto intro!: keeps_key_bind keeps_key_basic keeps_key_ledger keeps_key_log keeps_key_except split: sum.split exn.split)
  then show ?thesis unfolding maybe_mediated_def by (intro key_intros)
qed

section \<open>A record in the ledger\<close>

text \<open>A signed record with these fields, at a position of the view.\<close>

definition record_on ::
  "('sk, 'vk) crypto \<Rightarrow> history \<Rightarrow> bytes \<Rightarrow> 'vk \<Rightarrow> (string \<times> json) list \<Rightarrow> bool" where
  "record_on C h view_set vk fs \<longleftrightarrow>
     (\<exists>k v rec. indexed h view_set k v \<and> loads_bytes v = Some (JObj rec) \<and> verify_record C rec vk \<and>
        (\<forall>(f, x) \<in> set fs. dget rec f = x))"

text \<open>What the documented behaviour of the clock, the random identifiers and the policy engine gives.\<close>

definition denv_ok :: "('w, 'sk, 'vk) denv \<Rightarrow> bool" where
  "denv_ok env \<longleftrightarrow> crypto_ok (de_crypto env) \<and> (\<forall>w. list_all is_scalar (de_now env w)) \<and>
     (\<forall>w. list_all is_scalar (fst (de_uuid env w))) \<and>
     (\<forall>j w re w' b. de_post_opa env j w = (Inr re, w') \<longrightarrow> re_body re = Some b \<longrightarrow> wf_json b)"

lemma lit_scalars: "\<forall>c \<in> set s. of_char c < (128 :: nat) \<Longrightarrow> list_all is_scalar (lit s)"
  by (rule ascii_scalar) (simp add: lit_def list_all_iff)

lemma d_out_run: "d_out m s = (r, s') \<Longrightarrow> \<exists>w'. m (ds_world s) = (r, w') \<and> s' = s\<lparr>ds_world := w'\<rparr>"
  by (auto simp: d_out_def split: prod.splits)

lemma text_b64_Inr: "text_b64 x = Inr y \<longleftrightarrow> (\<exists>b. utf8_encode x = Some b \<and> y = b64encode b)"
  by (auto simp: text_b64_def of_option_def split: option.splits)

lemma signed_record_on:
  assumes "indexed h vs k (encode_ascii (dumps_compact (JObj (sign_record C entry sk (verifying_key_of C sk)))))"
    "crypto_ok C" "wf_json (JObj entry)"
    "\<forall>(f, x) \<in> set fs. dget entry f = x \<and> lit f \<notin> {FORMAT_FIELD, FINGERPRINT_FIELD, SIGNATURE_FIELD}"
  shows "record_on C h vs (verifying_key_of C sk) fs"
proof -
  have d: "distinct (map fst entry)" using assms(3) by simp
  note loads = loads_bytes_compact [OF sign_record_wf [OF assms(3), of C sk "verifying_key_of C sk"]]
  have "\<forall>(f, x) \<in> set fs. dget (sign_record C entry sk (verifying_key_of C sk)) f = x"
    using assms(4) by (auto simp: dget_def sign_record_fields)
  then show ?thesis
    using assms(1) loads sign_verifies [OF assms(2) d] unfolding record_on_def by blast
qed

context ordered_store
begin

text \<open>A record the client says is written is in the ledger, in its view.\<close>

lemma logged_record_indexed:
  assumes "ok e" "de_write_ordered env = post e" "holds_key env sk s"
    "map_of VIEW_SETS (lit view) = Some vs" "ns \<in> {''tool_call:'', ''tool_call_intent:''}"
    "log_record env ns agent tool view entry s = (Inr tx, s')"
  obtains k where "list_all is_scalar agent" "list_all is_scalar tool"
    "indexed (hist (ds_world s')) vs k (encode_ascii (dumps_compact (JObj
       (sign_record (de_crypto env) entry sk (verifying_key_of (de_crypto env) sk)))))"
proof -
  let ?written = "encode_ascii (dumps_compact (JObj
       (sign_record (de_crypto env) entry sk (verifying_key_of (de_crypto env) sk))))"
  obtain ks s1 fresh key s2 where k: "ledger_writer_keys env s = (Inr ks, s1)"
    "text_b64 (lit ns @ agent @ lit '':'' @ fresh @ lit '':'' @ tool) = Inr key"
    "post_ordered env key (encode_ascii (dumps_compact (JObj
       (sign_record (de_crypto env) entry (fst ks) (snd ks))))) (lit view) s2 = (Inr tx, s')"
    using assms(6) unfolding log_record_def sign_entry_def
    by (auto simp: ret_def lift_io_def split: prod.splits elim!: bind_InrE)
  have ks: "ks = (sk, verifying_key_of (de_crypto env) sk)"
    using ledger_writer_keys_held [OF k(1) assms(3)] by simp
  obtain kb where kb: "utf8_encode (lit ns @ agent @ lit '':'' @ fresh @ lit '':'' @ tool) = Some kb"
    "key = b64encode kb" using k(2) by (auto simp: text_b64_Inr)
  have sc: "list_all is_scalar agent" "list_all is_scalar tool" using utf8_scalars [OF kb(1)] by simp_all
  have "post_ordered env (b64encode kb) ?written (lit view) s2 = (Inr tx, s')" using k(3) ks kb(2) by simp
  then obtain re d where re: "d_out (post e (b64encode kb) (b64encode ?written) (lit view)) s2 = (Inr re, s')"
    "re_body re = Some (JObj d)" "truthy (dget d ''verified'')"
    unfolding post_ordered_def assms(2)
    by (auto simp: lift_io_def raise_io_def get_field_Inr checked_body_def json_body_def of_option_def bind_sum_Inr_iff
        split: if_splits option.splits elim!: bind_InrE)
  obtain w' where w: "post e (b64encode kb) (b64encode ?written) (lit view) (ds_world s2) = (Inr re, w')"
    "ds_world s' = w'" using d_out_run [OF re(1)] by auto
  have "utf8_encode (lit ns) = Some ns" using assms(5) by (auto simp: utf8_lit)
  then have "starts_with kb ns"
    using kb(1) by (auto simp: utf8_encode_append split: option.splits)
  then have "kb \<noteq> SEQUENCE_KEY" "kb \<noteq> RESERVE_KEY" using assms(5) by (auto simp: SEQUENCE_KEY_def RESERVE_KEY_def)
  from verified_is_indexed [OF assms(1,4) this w(1) re(2,3)] show ?thesis
    using that sc w(2) by blast
qed

end

section \<open>The steps of a decision\<close>

text \<open>The policy engine answered that the call is allowed under this revision.\<close>

definition opa_allowed :: "('w, 'sk, 'vk) denv \<Rightarrow> pystr \<Rightarrow> dict \<Rightarrow> pystr \<Rightarrow> bool" where
  "opa_allowed env tool_name args revision \<longleftrightarrow>
     (\<exists>w w' re body result. de_post_opa env (opa_input tool_name args) w = (Inr re, w') \<and> re_status re = 200 \<and>
        re_body re = Some (JObj body) \<and> dget body ''result'' = JObj result \<and>
        dget result ''allow'' = JBool True \<and> dget result ''revision'' = JStr revision \<and> revision \<noteq> [])"

definition registered_and_valid :: "('w, 'sk, 'vk) denv \<Rightarrow> pystr \<Rightarrow> dict \<Rightarrow> bool" where
  "registered_and_valid env tool_name args \<longleftrightarrow>
     (\<exists>reg. map_of TOOL_REGISTRY tool_name = Some reg \<and> de_schema_errors env (tr_schema reg) args = [])"

definition content_kept :: "('w, 'sk, 'vk) denv \<Rightarrow> pystr \<Rightarrow> dict \<Rightarrow> bool" where
  "content_kept env call_id args \<longleftrightarrow>
     (\<exists>w w' re. de_post_content env call_id args w = (Inr re, w') \<and> 200 \<le> re_status re \<and> re_status re < 300)"

definition allow_outcome :: "pystr \<Rightarrow> outcome" where
  "allow_outcome revision = \<lparr>oc_type = PolicyAllow, oc_fault = None, oc_revision = Some revision, oc_reasons = []\<rparr>"

lemma dget_wf: "wf_json (JObj d) \<Longrightarrow> dget d key = v \<Longrightarrow> wf_json v"
  by (auto simp: dget_def dict_get_def list_all_iff split: option.splits dest!: map_of_SomeD)

lemma read_evaluation_allow:
  assumes "read_evaluation body = Inr oc" "oc_type oc = PolicyAllow"
  obtains d result revision where "body = JObj d" "dget d ''result'' = JObj result"
    "dget result ''allow'' = JBool True" "dget result ''revision'' = JStr revision" "revision \<noteq> []"
    "oc = allow_outcome revision"
proof -
  obtain d result where d: "body = JObj d" "dget d ''result'' = JObj result"
    "(case (dget result ''allow'', dget result ''reasons'', dget result ''revision'') of
        (JBool b, JArr rs, JStr v) \<Rightarrow>
          if v = [] then Inr (fault_outcome MalformedPolicyResponse)
          else if b then Inr \<lparr>oc_type = PolicyAllow, oc_fault = None, oc_revision = Some v, oc_reasons = []\<rparr>
          else Inr \<lparr>oc_type = PolicyDeny, oc_fault = None, oc_revision = Some v, oc_reasons = rs\<rparr>
      | _ \<Rightarrow> Inr (fault_outcome MalformedPolicyResponse)) = (Inr oc :: exn + outcome)"
    using assms unfolding read_evaluation_def by (auto simp: get_field_Inr bind_sum_Inr_iff split: if_splits)
  obtain b rs v where v: "dget result ''allow'' = JBool b" "dget result ''reasons'' = JArr rs"
    "dget result ''revision'' = JStr v"
    using d(3) assms(2)
    by (cases "dget result ''allow''"; cases "dget result ''reasons''"; cases "dget result ''revision''")
      (simp_all, auto)
  then show ?thesis using that d assms(2) by (auto simp: allow_outcome_def split: if_splits)
qed

lemma query_allow:
  assumes "query_opa_policy env tool args s = (Inr oc, s')" "oc_type oc = PolicyAllow" "denv_ok env"
  obtains d revision where "args = JObj d" "registered_and_valid env tool d" "opa_allowed env tool d revision"
    "oc = allow_outcome revision" "list_all is_scalar revision"
proof -
  obtain d reg re where d: "args = JObj d" "map_of TOOL_REGISTRY tool = Some reg"
    "validate env (tr_schema reg) d = None" "d_out (de_post_opa env (opa_input tool d)) s = (Inr re, s')"
    "re_status re = 200" "bind_sum (json_body re) read_evaluation = Inr oc"
    using assms(1,2) unfolding query_opa_policy_def
    by (auto simp: ret_def raise_io_def lift_io_def split: json.splits option.splits sum.splits if_splits elim!: attemptE)
  obtain body where body: "re_body re = Some body" "read_evaluation body = Inr oc"
    using d(6) by (auto simp: bind_sum_Inr_iff json_body_def of_option_def split: option.splits)
  obtain b result revision where r: "body = JObj b" "dget b ''result'' = JObj result"
    "dget result ''allow'' = JBool True" "dget result ''revision'' = JStr revision" "revision \<noteq> []"
    "oc = allow_outcome revision"
    using read_evaluation_allow [OF body(2) assms(2)] .
  obtain w' where w: "de_post_opa env (opa_input tool d) (ds_world s) = (Inr re, w')"
    using d_out_run [OF d(4)] by blast
  then have "wf_json (JObj b)" using assms(3) body(1) r(1) unfolding denv_ok_def by blast
  then have "wf_json (JObj result)" using r(2) by (rule dget_wf)
  then have "wf_json (JStr revision)" using r(4) by (rule dget_wf)
  then have sc: "list_all is_scalar revision" by simp
  have "opa_allowed env tool d revision"
    using w d(5) body(1) r(1-5) unfolding opa_allowed_def by blast
  moreover have "registered_and_valid env tool d"
    using d(2,3) by (auto simp: registered_and_valid_def validate_def Let_def split: if_splits)
  ultimately show ?thesis using that d(1) r(6) sc by blast
qed

lemma exceptE:
  assumes "except m h s = (Inr x, s')"
  obtains "m s = (Inr x, s')" | e s1 where "m s = (Inl e, s1)" "h e s1 = (Inr x, s')"
  using assms unfolding except_def
  by (auto simp: ret_def raise_io_def split: sum.splits exn.splits elim!: attemptE)

lemma keep_content_allow:
  assumes "keep_content env call_id (JObj d) oc s = (Inr (oc', content_state), s')" "oc_type oc' = PolicyAllow"
  shows "oc' = oc \<and> content_state = Some (lit ''present'') \<and> content_kept env call_id d"
proof -
  obtain re where "d_out (de_post_content env call_id d) s = (Inr re, s')" "raise_for_status re = Inr ()" "oc' = oc"
    "content_state = Some (lit ''present'')"
    using assms unfolding keep_content_def store_content_def
    by (auto simp: ret_def lift_io_def elim!: exceptE bind_InrE)
  then show ?thesis using d_out_run [of "de_post_content env call_id d" s "Inr re" s']
    unfolding content_kept_def by (fastforce simp: raise_for_status_def split: if_splits)
qed

lemma run_mediated_cases:
  assumes "run_mediated env c args oc s = (Inr (oc', payload), s')" "oc_type oc' = PolicyAllow"
  obtains t s1 d got where "bind_io (get_ledger env) (\<lambda>_. log_tool_intent env c (oc_revision oc)) s = (Inr t, s1)"
    "args = JObj d" "execute_vault_tool env d s1 = (Inr got, s')" "oc' = oc" "payload = Some got"
proof -
  obtain q s1 where q: "bind_io (get_ledger env) (\<lambda>_. log_tool_intent env c (oc_revision oc)) s = (q, s1)" by fastforce
  note run = assms(1)[unfolded run_mediated_def attempt_def q, simplified]
  show ?thesis
  proof (cases q)
    case (Inl e)
    then show ?thesis using run assms(2) by (cases e) (auto simp: ret_def raise_io_def)
  next
    case (Inr t)
    have "bind_io (case args of JObj args \<Rightarrow> execute_vault_tool env args | _ \<Rightarrow> raise_io TypeError)
        (\<lambda>payload. ret (oc, Some payload)) s1 = (Inr (oc', payload), s')"
      using run Inr assms(2) by simp (erule exceptE, simp_all add: ret_def, auto)
    then show ?thesis using that q Inr by (cases args) (auto simp: ret_def raise_io_def elim!: bind_InrE)
  qed
qed

lemma maybe_mediated_allow:
  assumes "maybe_mediated env c stored args oc s = (Inr (oc', payload), s')" "oc_type oc' = PolicyAllow"
  shows "oc' = oc \<and> (payload \<noteq> None \<longrightarrow> cf_tool c = VAULT_TOOL)"
proof (cases "oc_type oc = PolicyAllow \<and> cf_tool c = VAULT_TOOL \<and> stored")
  case True
  then have "run_mediated env c args oc s = (Inr (oc', payload), s')" using assms(1) by (simp add: maybe_mediated_def)
  from run_mediated_cases [OF this assms(2)] show ?thesis using True by blast
next
  case False
  then show ?thesis using assms(1) by (auto simp: maybe_mediated_def ret_def)
qed

lemma record_decision_allow:
  assumes "record_decision env c True excl oc payload s = (Inr (oc', tx, payload'), s')" "oc_type oc' = PolicyAllow"
  obtains s1 t where "get_ledger env s = (Inr (), s1)" "log_tool_call env c oc excl s1 = (Inr t, s')" "oc' = oc"
    "payload' = payload"
proof -
  let ?m = "bind_io (get_ledger env) (\<lambda>_. bind_io (log_tool_call env c oc excl) (\<lambda>tx.
      ret (oc, if tx = JNull then None else Some tx, payload)))"
  have "except ?m (\<lambda>_. ret (fault_outcome VerifierUnreachable, None, None)) s = (Inr (oc', tx, payload'), s')"
    using assms(1) by (simp add: record_decision_def)
  then have "?m s = (Inr (oc', tx, payload'), s')"
    by (rule exceptE) (use assms(2) in \<open>auto simp: ret_def\<close>)
  then obtain u s1 where u: "get_ledger env s = (Inr u, s1)"
    "bind_io (log_tool_call env c oc excl) (\<lambda>tx. ret (oc, if tx = JNull then None else Some tx, payload)) s1 =
       (Inr (oc', tx, payload'), s')" by (rule bind_InrE)
  obtain t s2 where t: "log_tool_call env c oc excl s1 = (Inr t, s2)"
    "ret (oc, if t = JNull then None else Some t, payload) s2 = (Inr (oc', tx, payload'), s')"
    using u(2) by (rule bind_InrE)
  have "oc' = oc" "payload' = payload" "s2 = s'" using t(2) by (simp_all add: ret_def)
  then show ?thesis using that u(1) t(1) by simp
qed

section \<open>What an approval rests on\<close>

lemma decide_runs:
  assumes "decide env req s = (Inr a, s')"
  obtains oc s1 call_id s2 oc2 cs s3 oc3 payload s4 oc4 tx payload4 s5 where
    "query_opa_policy env (dr_tool_name req) (dr_tool_args req) (s\<lparr>ds_log := ds_log s @ [request_line req]\<rparr>) = (Inr oc, s1)"
    "new_uuid env s1 = (Inr call_id, s2)"
    "keep_content env call_id (dr_tool_args req) oc s2 = (Inr (oc2, cs), s3)"
    "maybe_mediated env (facts_for env req call_id cs) (cs \<noteq> None) (dr_tool_args req) oc2 s3 = (Inr (oc3, payload), s4)"
    "record_decision env (facts_for env req call_id cs) (cs \<noteq> None)
       (resolve_exclusivity (ds_verified s3) (dr_tool_name req)) oc3 payload s4 = (Inr (oc4, tx, payload4), s5)"
    "decided (dr_tool_name req) oc4 tx payload4 s5 = (Inr a, s')"
proof -
  note run = assms [unfolded decide_def Let_def]
  have d: "bind_io (d_set f) g t = g () (f t)" "bind_io (d_get h) k t = k (h t) t" for f g h k t
    by (simp_all add: bind_io_def d_set_def d_get_def)
  obtain oc s1 call_id s2 q s3 where q:
    "query_opa_policy env (dr_tool_name req) (dr_tool_args req) (s\<lparr>ds_log := ds_log s @ [request_line req]\<rparr>) = (Inr oc, s1)"
    "new_uuid env s1 = (Inr call_id, s2)" "keep_content env call_id (dr_tool_args req) oc s2 = (Inr q, s3)"
    using run unfolding d(1) by (elim bind_InrE) rule
  obtain oc2 cs where cs: "q = (oc2, cs)" by fastforce
  note run2 = run [unfolded d(1) bind_io_def [of "query_opa_policy _ _ _"] bind_io_def [of "new_uuid _"]
      bind_io_def [of "keep_content _ _ _ _"] q(1), simplified, unfolded q(2), simplified, unfolded q(3) cs, simplified, unfolded d(2)]
  obtain m s4 p s5 where m:
    "maybe_mediated env (facts_for env req call_id cs) (cs \<noteq> None) (dr_tool_args req) oc2 s3 = (Inr m, s4)"
    "record_decision env (facts_for env req call_id cs) (cs \<noteq> None)
       (resolve_exclusivity (ds_verified s3) (dr_tool_name req)) (fst m) (snd m) s4 = (Inr p, s5)"
    "decided (dr_tool_name req) (fst p) (fst (snd p)) (snd (snd p)) s5 = (Inr a, s')"
    using run2 by (auto split: prod.splits elim!: bind_InrE)
  then show ?thesis using that q cs by (metis prod.collapse)
qed

lemma decided_answer:
  assumes "decided tool oc tx payload s = (Inr a, s')"
  shows "an_status a = status_of (oc_type oc) \<and> an_outcome_type a = oc_type oc \<and> an_fault_class a = oc_fault oc \<and>
    an_policy_revision a = oc_revision oc \<and> an_ledger_tx_id a = tx \<and> an_result a = payload \<and>
    s' = count_decision tool oc s"
  using assms by (auto simp: decided_def bind_io_def d_set_def lift_io_def ret_def split: sum.splits)

lemma approved_status: "status_of t = lit ''APPROVED'' \<longleftrightarrow> t = PolicyAllow"
  by (simp add: status_of_def lit_def)

lemma keeps_key_uuid [key_intros]: "keeps_key env sk (new_uuid env)"
  unfolding new_uuid_def by (rule keeps_key_basic)

lemma new_uuid_scalars: "new_uuid env s = (Inr u, s') \<Longrightarrow> denv_ok env \<Longrightarrow> list_all is_scalar u"
  unfolding new_uuid_def d_out_def denv_ok_def by (auto split: prod.splits) (metis fst_conv)

text \<open>The fields of a record of this call, written under a revision that allowed it.\<close>

definition allowed_fields ::
  "('w, 'sk, 'vk) denv \<Rightarrow> string \<Rightarrow> decide_request \<Rightarrow> pystr \<Rightarrow> pystr \<Rightarrow> (string \<times> json) list" where
  "allowed_fields env record_type req call_id revision =
     [(''record_type'', JStr (lit record_type)), (''agent_id'', JStr (dr_agent_id req)),
      (''tool_name'', JStr (dr_tool_name req)), (''call_id'', JStr call_id),
      (''input_sha256'', JStr (canonical_hash (de_crypto env) (dr_tool_args req))),
      (''policy_revision'', JStr revision)]"

lemma entries_wf:
  assumes "denv_ok env" "list_all is_scalar (dr_agent_id req)" "list_all is_scalar (dr_tool_name req)"
    "list_all is_scalar call_id" "list_all is_scalar revision" "list_all is_scalar now"
  shows "wf_json (JObj (decision_entry (facts_for env req call_id (Some (lit ''present''))) now (allow_outcome revision)
      (resolve_exclusivity verified tool)))"
    "wf_json (JObj (intent_entry (facts_for env req call_id (Some (lit ''present''))) now (Some revision)))"
proof -
  have hash: "list_all is_scalar (canonical_hash C args)" for C :: "('b, 'c) crypto" and args
    using hexdigest_ascii [of _ "sha256 C (encode_ascii (dumps_canonical args))"]
    by (intro ascii_scalar) (fastforce simp: canonical_hash_def list_all_iff)
  have profile: "list_all is_scalar (profile_of t)" for t
    by (auto simp: profile_of_def TOOL_REGISTRY_def observed_tool_def lit_scalars split: option.splits if_splits)
  have excl: "resolve_exclusivity verified tool = Some x \<Longrightarrow> list_all is_scalar x" for x
    by (auto simp: resolve_exclusivity_def resolve_exclusivity_for_def lit_scalars split: option.splits if_splits)
  show "wf_json (JObj (decision_entry (facts_for env req call_id (Some (lit ''present''))) now (allow_outcome revision)
      (resolve_exclusivity verified tool)))"
    "wf_json (JObj (intent_entry (facts_for env req call_id (Some (lit ''present''))) now (Some revision)))"
    using assms(2-6) hash profile excl
    by (simp_all add: decision_entry_def intent_entry_def facts_for_def allow_outcome_def lit_scalars json_opt_def
        split: option.split) (simp_all add: lit_def)
qed

lemma keep_content_query:
  assumes "query_opa_policy env tool args s0 = (Inr oc, s1)" "denv_ok env"
    "keep_content env call_id args oc s = (Inr (oc2, cs), s')" "oc_type oc2 = PolicyAllow"
  obtains d revision where "args = JObj d" "registered_and_valid env tool d" "opa_allowed env tool d revision"
    "content_kept env call_id d" "cs = Some (lit ''present'')" "oc2 = allow_outcome revision" "list_all is_scalar revision"
proof -
  have allow: "oc_type oc = PolicyAllow"
    using assms(3,4) keep_content_allow [of env call_id _ oc s oc2 cs s']
    by (cases args) (auto simp: keep_content_def ret_def)
  obtain d revision where d: "args = JObj d" "registered_and_valid env tool d" "opa_allowed env tool d revision"
    "oc = allow_outcome revision" "list_all is_scalar revision"
    using query_allow [OF assms(1) allow assms(2)] .
  have "oc2 = oc \<and> cs = Some (lit ''present'') \<and> content_kept env call_id d"
    using keep_content_allow [OF _ assms(4)] assms(3) d(1) by blast
  then show ?thesis using that d by blast
qed

lemma record_decision_same:
  assumes "record_decision env c stored excl oc payload s = (Inr (oc', tx, payload'), s')" "oc_type oc' = PolicyAllow"
  shows "oc' = oc \<and> payload' = payload"
proof (cases stored)
  case True
  then show ?thesis using assms(1) by (auto intro: record_decision_allow [OF _ assms(2)])
next
  case False
  then show ?thesis using assms(1) by (simp add: record_decision_def ret_def)
qed

lemma entry_fields:
  "\<forall>(f, x) \<in> set ((''outcome_type'', JStr (lit ''policy_allow'')) # allowed_fields env ''decision'' req call_id revision).
     dget (decision_entry (facts_for env req call_id cs) now (allow_outcome revision) excl) f = x \<and>
     lit f \<notin> {FORMAT_FIELD, FINGERPRINT_FIELD, SIGNATURE_FIELD}"
  "\<forall>(f, x) \<in> set (allowed_fields env ''decision_intent'' req call_id revision).
     dget (intent_entry (facts_for env req call_id cs) now (Some revision)) f = x \<and>
     lit f \<notin> {FORMAT_FIELD, FINGERPRINT_FIELD, SIGNATURE_FIELD}"
  by (simp_all add: allowed_fields_def decision_entry_def intent_entry_def facts_for_def allow_outcome_def json_opt_def
      dget_def dict_get_def FORMAT_FIELD_def FINGERPRINT_FIELD_def SIGNATURE_FIELD_def lit_def)

context ordered_store
begin

lemma approval_recorded:
  assumes "ok e" "de_write_ordered env = post e" "denv_ok env" "holds_key env sk s"
    "decide env req s = (Inr a, s')" "an_status a = lit ''APPROVED''"
  obtains d revision call_id where "dr_tool_args req = JObj d" "an_policy_revision a = Some revision"
    "registered_and_valid env (dr_tool_name req) d" "opa_allowed env (dr_tool_name req) d revision"
    "content_kept env call_id d"
    "record_on (de_crypto env) (hist (ds_world s')) ''ail_view:decision:v1'' (verifying_key_of (de_crypto env) sk)
       ((''outcome_type'', JStr (lit ''policy_allow'')) # allowed_fields env ''decision'' req call_id revision)"
  using assms(5)
proof (cases rule: decide_runs)
  case (1 oc s1 call_id s2 oc2 cs s3 oc3 payload s4 oc4 tx payload4 s5)
  have allow: "oc_type oc4 = PolicyAllow" "an_policy_revision a = oc_revision oc4" "ds_world s' = ds_world s5"
    using decided_answer [OF 1(6)] assms(6) approved_status [of "oc_type oc4"] by (auto simp: count_decision_def)
  have same: "oc4 = oc3" "oc3 = oc2" "oc_type oc2 = PolicyAllow"
    using record_decision_same [OF 1(5) allow(1)] maybe_mediated_allow [OF 1(4)] allow(1) by auto
  obtain d revision where d: "dr_tool_args req = JObj d" "registered_and_valid env (dr_tool_name req) d"
    "opa_allowed env (dr_tool_name req) d revision" "content_kept env call_id d" "cs = Some (lit ''present'')"
    "oc2 = allow_outcome revision" "list_all is_scalar revision"
    using keep_content_query [OF 1(1) assms(3) 1(3) same(3)] .
  let ?c = "facts_for env req call_id (Some (lit ''present''))"
  let ?x = "resolve_exclusivity (ds_verified s3) (dr_tool_name req)"
  obtain s6 t where log: "get_ledger env s4 = (Inr (), s6)" "log_tool_call env ?c oc2 ?x s6 = (Inr t, s5)"
    by (rule record_decision_allow [OF _ allow(1), of env ?c ?x oc3 payload s4 tx payload4 s5])
      (use 1(5) d(5) same in simp_all)
  let ?e = "decision_entry ?c (de_now env (ds_world s6)) oc2 ?x"
  have run: "log_record env ''tool_call:'' (dr_agent_id req) (dr_tool_name req) ''decision'' ?e s6 = (Inr t, s5)"
    using log(2) by (simp add: log_tool_call_def bind_io_def d_get_def facts_for_def)
  have "holds_key env sk (s\<lparr>ds_log := ds_log s @ [request_line req]\<rparr>)" using assms(4) by (simp add: holds_key_def)
  from keeps_keyD [OF keeps_key_query 1(1) this] have k1: "holds_key env sk s1" .
  have k: "holds_key env sk s6"
    using keeps_keyD [OF keeps_key_ledger log(1)] keeps_keyD [OF keeps_key_mediated 1(4)]
      keeps_keyD [OF keeps_key_content 1(3)] keeps_keyD [OF keeps_key_uuid 1(2) k1] by blast
  have view: "map_of VIEW_SETS (lit ''decision'') = Some ''ail_view:decision:v1''" by (simp add: VIEW_SETS_def)
  obtain kb where kb: "list_all is_scalar (dr_agent_id req)" "list_all is_scalar (dr_tool_name req)"
    "indexed (hist (ds_world s5)) ''ail_view:decision:v1'' kb (encode_ascii (dumps_compact (JObj
       (sign_record (de_crypto env) ?e sk (verifying_key_of (de_crypto env) sk)))))"
    using logged_record_indexed [OF assms(1,2) k view _ run] by blast
  have wf: "wf_json (JObj ?e)"
    unfolding d(6) using entries_wf(1) [OF assms(3) kb(1,2) new_uuid_scalars [OF 1(2) assms(3)] d(7)] assms(3)
    by (simp add: denv_ok_def)
  have crypto: "crypto_ok (de_crypto env)" using assms(3) by (simp add: denv_ok_def)
  have "record_on (de_crypto env) (hist (ds_world s5)) ''ail_view:decision:v1'' (verifying_key_of (de_crypto env) sk)
      ((''outcome_type'', JStr (lit ''policy_allow'')) # allowed_fields env ''decision'' req call_id revision)"
    by (rule signed_record_on [OF kb(3) crypto wf, unfolded d(6), OF entry_fields(1)])
  moreover have "an_policy_revision a = Some revision" using allow(2) same d(6) by (simp add: allow_outcome_def)
  ultimately show ?thesis using that d allow(3) by metis
qed

text \<open>A world in which the intent of a call is written.\<close>

lemma intent_recorded:
  assumes "ok e" "de_write_ordered env = post e" "denv_ok env" "holds_key env sk s"
    "bind_io (get_ledger env) (\<lambda>_. log_tool_intent env (facts_for env req call_id (Some (lit ''present''))) (Some revision)) s =
       (Inr t, s')" "list_all is_scalar call_id" "list_all is_scalar revision"
  shows "record_on (de_crypto env) (hist (ds_world s')) ''ail_view:intent:v1'' (verifying_key_of (de_crypto env) sk)
    (allowed_fields env ''decision_intent'' req call_id revision)"
proof -
  let ?c = "facts_for env req call_id (Some (lit ''present''))"
  obtain u s6 where log: "get_ledger env s = (Inr u, s6)" "log_tool_intent env ?c (Some revision) s6 = (Inr t, s')"
    using assms(5) by (rule bind_InrE)
  let ?e = "intent_entry ?c (de_now env (ds_world s6)) (Some revision)"
  have run: "log_record env ''tool_call_intent:'' (dr_agent_id req) (dr_tool_name req) ''intent'' ?e s6 = (Inr t, s')"
    using log(2) by (simp add: log_tool_intent_def bind_io_def d_get_def facts_for_def)
  have k: "holds_key env sk s6" by (rule keeps_keyD [OF keeps_key_ledger log(1) assms(4)])
  have view: "map_of VIEW_SETS (lit ''intent'') = Some ''ail_view:intent:v1''" by (simp add: VIEW_SETS_def lit_def)
  obtain kb where kb: "list_all is_scalar (dr_agent_id req)" "list_all is_scalar (dr_tool_name req)"
    "indexed (hist (ds_world s')) ''ail_view:intent:v1'' kb (encode_ascii (dumps_compact (JObj
       (sign_record (de_crypto env) ?e sk (verifying_key_of (de_crypto env) sk)))))"
    using logged_record_indexed [OF assms(1,2) k view _ run] by blast
  have wf: "wf_json (JObj ?e)"
    using entries_wf(2) [OF assms(3) kb(1,2) assms(6,7)] assms(3) by (simp add: denv_ok_def)
  have crypto: "crypto_ok (de_crypto env)" using assms(3) by (simp add: denv_ok_def)
  show ?thesis by (rule signed_record_on [OF kb(3) crypto wf entry_fields(2)])
qed

end

section \<open>What runs the mediated tool\<close>

text \<open>A run with another tool process differs only where the tool was reached.\<close>

lemma other_tool [simp]:
  "query_opa_policy (env\<lparr>de_call_vault := f\<rparr>) = query_opa_policy env"
  "new_uuid (env\<lparr>de_call_vault := f\<rparr>) = new_uuid env"
  "keep_content (env\<lparr>de_call_vault := f\<rparr>) = keep_content env"
  "get_ledger (env\<lparr>de_call_vault := f\<rparr>) = get_ledger env"
  "log_tool_intent (env\<lparr>de_call_vault := f\<rparr>) = log_tool_intent env"
  "log_tool_call (env\<lparr>de_call_vault := f\<rparr>) = log_tool_call env"
  "record_decision (env\<lparr>de_call_vault := f\<rparr>) = record_decision env"
  "facts_for (env\<lparr>de_call_vault := f\<rparr>) = facts_for env"
  by (intro ext; simp add: query_opa_policy_def validate_def new_uuid_def keep_content_def store_content_def
      get_ledger_def log_tool_intent_def log_tool_call_def log_record_def sign_entry_def ledger_writer_keys_def
      post_ordered_def record_decision_def facts_for_def cong: option.case_cong json.case_cong sum.case_cong if_cong)+

lemma mediated_reached:
  assumes "maybe_mediated env c stored args oc s \<noteq> maybe_mediated (env\<lparr>de_call_vault := f\<rparr>) c stored args oc s"
  obtains t s1 d where "oc_type oc = PolicyAllow" "cf_tool c = VAULT_TOOL" "stored" "args = JObj d"
    "bind_io (get_ledger env) (\<lambda>_. log_tool_intent env c (oc_revision oc)) s = (Inr t, s1)"
    "de_call_vault env d (ds_world s1) \<noteq> f d (ds_world s1)"
proof -
  have on: "oc_type oc = PolicyAllow" "cf_tool c = VAULT_TOOL" "stored"
    using assms by (auto simp: maybe_mediated_def split: if_splits)
  obtain q s1 where q: "bind_io (get_ledger env) (\<lambda>_. log_tool_intent env c (oc_revision oc)) s = (q, s1)" by fastforce
  have run: "run_mediated env c args oc s \<noteq> run_mediated (env\<lparr>de_call_vault := f\<rparr>) c args oc s"
    using assms on by (simp add: maybe_mediated_def)
  then obtain t where t: "q = Inr t"
    by (cases q) (auto simp: run_mediated_def attempt_def q)
  let ?run = "\<lambda>env. except (bind_io (case args of JObj args \<Rightarrow> execute_vault_tool env args | _ \<Rightarrow> raise_io TypeError)
      (\<lambda>payload. ret (oc, Some payload))) (\<lambda>_. ret (fault_outcome ToolExecutionFailed, None)) s1"
  have ne: "?run env \<noteq> ?run (env\<lparr>de_call_vault := f\<rparr>)"
    using run t by (simp add: run_mediated_def attempt_def q)
  then obtain d where d: "args = JObj d" by (cases args) auto
  have "execute_vault_tool env d s1 \<noteq> execute_vault_tool (env\<lparr>de_call_vault := f\<rparr>) d s1"
    using ne d by (auto simp: except_def attempt_def bind_io_def [of _ "\<lambda>payload. ret (oc, Some payload)"])
  then have "de_call_vault env d (ds_world s1) \<noteq> f d (ds_world s1)"
    by (auto simp: execute_vault_tool_def bind_io_def d_out_def)
  then show ?thesis using that on d q t by blast
qed

lemma decide_reached:
  assumes "decide env req s \<noteq> decide (env\<lparr>de_call_vault := f\<rparr>) req s"
  obtains oc s1 call_id s2 oc2 cs s3 where
    "query_opa_policy env (dr_tool_name req) (dr_tool_args req) (s\<lparr>ds_log := ds_log s @ [request_line req]\<rparr>) = (Inr oc, s1)"
    "new_uuid env s1 = (Inr call_id, s2)"
    "keep_content env call_id (dr_tool_args req) oc s2 = (Inr (oc2, cs), s3)"
    "maybe_mediated env (facts_for env req call_id cs) (cs \<noteq> None) (dr_tool_args req) oc2 s3 \<noteq>
     maybe_mediated (env\<lparr>de_call_vault := f\<rparr>) (facts_for env req call_id cs) (cs \<noteq> None) (dr_tool_args req) oc2 s3"
proof -
  let ?s = "s\<lparr>ds_log := ds_log s @ [request_line req]\<rparr>"
  obtain r1 s1 where 1: "query_opa_policy env (dr_tool_name req) (dr_tool_args req) ?s = (r1, s1)" by fastforce
  note run = assms [unfolded decide_def Let_def bind_io_def [of "d_set _"] d_set_def, simplified]
  note run1 = run [unfolded bind_io_def [of "query_opa_policy _ _ _"] 1, simplified]
  obtain oc where oc: "r1 = Inr oc" using run1 by (cases r1) auto
  obtain r2 s2 where 2: "new_uuid env s1 = (r2, s2)" by fastforce
  note run2 = run1 [unfolded oc bind_io_def [of "new_uuid _"], simplified, unfolded 2, simplified]
  obtain call_id where u: "r2 = Inr call_id" using run2 by (cases r2) auto
  obtain r3 s3 where 3: "keep_content env call_id (dr_tool_args req) oc s2 = (r3, s3)" by fastforce
  note run3 = run2 [unfolded u bind_io_def [of "keep_content _ _ _ _"], simplified, unfolded 3, simplified]
  obtain oc2 cs where p: "r3 = Inr (oc2, cs)" using run3 by (cases r3) auto
  show ?thesis
  proof (rule that)
    show "maybe_mediated env (facts_for env req call_id cs) (cs \<noteq> None) (dr_tool_args req) oc2 s3 \<noteq>
     maybe_mediated (env\<lparr>de_call_vault := f\<rparr>) (facts_for env req call_id cs) (cs \<noteq> None) (dr_tool_args req) oc2 s3"
      using run3 by (auto simp: p bind_io_def d_get_def)
  qed (use 1 2 3 oc u p in simp_all)
qed

context ordered_store
begin

lemma tool_reached_after_intent:
  assumes "ok e" "de_write_ordered env = post e" "denv_ok env" "holds_key env sk s"
    "decide env req s \<noteq> decide (env\<lparr>de_call_vault := f\<rparr>) req s"
  obtains d revision call_id w where "dr_tool_args req = JObj d" "dr_tool_name req = VAULT_TOOL"
    "registered_and_valid env (dr_tool_name req) d" "opa_allowed env (dr_tool_name req) d revision"
    "content_kept env call_id d" "de_call_vault env d w \<noteq> f d w"
    "record_on (de_crypto env) (hist w) ''ail_view:intent:v1'' (verifying_key_of (de_crypto env) sk)
       (allowed_fields env ''decision_intent'' req call_id revision)"
  using assms(5)
proof (cases rule: decide_reached)
  case (1 oc s1 call_id s2 oc2 cs s3)
  obtain t s4 d where r: "oc_type oc2 = PolicyAllow" "cf_tool (facts_for env req call_id cs) = VAULT_TOOL"
    "dr_tool_args req = JObj d"
    "bind_io (get_ledger env) (\<lambda>_. log_tool_intent env (facts_for env req call_id cs) (oc_revision oc2)) s3 = (Inr t, s4)"
    "de_call_vault env d (ds_world s4) \<noteq> f d (ds_world s4)"
    using mediated_reached [OF 1(4)] .
  obtain d' revision where d: "dr_tool_args req = JObj d'" "registered_and_valid env (dr_tool_name req) d'"
    "opa_allowed env (dr_tool_name req) d' revision" "content_kept env call_id d'" "cs = Some (lit ''present'')"
    "oc2 = allow_outcome revision" "list_all is_scalar revision"
    using keep_content_query [OF 1(1) assms(3) 1(3) r(1)] .
  have "holds_key env sk (s\<lparr>ds_log := ds_log s @ [request_line req]\<rparr>)" using assms(4) by (simp add: holds_key_def)
  from keeps_keyD [OF keeps_key_query 1(1) this] have k1: "holds_key env sk s1" .
  have k: "holds_key env sk s3" by (rule keeps_keyD [OF keeps_key_content 1(3) keeps_keyD [OF keeps_key_uuid 1(2) k1]])
  have "record_on (de_crypto env) (hist (ds_world s4)) ''ail_view:intent:v1'' (verifying_key_of (de_crypto env) sk)
       (allowed_fields env ''decision_intent'' req call_id revision)"
    using intent_recorded [OF assms(1-3) k _ new_uuid_scalars [OF 1(2) assms(3)] d(7)] r(4) d(5,6)
    by (simp add: allow_outcome_def)
  moreover have "dr_tool_name req = VAULT_TOOL" using r(2) by (simp add: facts_for_def)
  ultimately show ?thesis using that d(1-4) r(3,5) by auto
qed

end

end
