(* ===== verification/DecisionEndToEnd.thy ===== *)
theory DecisionEndToEnd
  imports DecisionFacts
begin

text \<open>
  The decision service over the model of the verifier it writes through: what an approval and a
  run of the mediated tool rest on, the shape of an answer, and when exclusivity is recorded as
  demonstrated. The witnesses run it against the verifier in memory.
\<close>

lemma lit_ascii: "\<forall>c \<in> set s. of_char c < (128 :: nat) \<Longrightarrow> list_all (\<lambda>c. c < 128) (lit s)"
  by (simp add: lit_def list_all_iff)

section \<open>A decision service over the verifier in memory\<close>

definition test_ordered_caller :: "(history \<times> fault_script, bytes, bytes) ordered_caller" where
  "test_ordered_caller = \<lparr>od_env = test_env, od_key = lit ''w'', od_prose = (\<lambda>_. []), od_fault_prose = (\<lambda>_. [])\<rparr>"

definition test_denv :: "((history \<times> fault_script, bytes, bytes) vstate, bytes, bytes) denv" where
  "test_denv = \<lparr>de_crypto = test_crypto, de_repr = dumps, de_schema_errors = (\<lambda>_ _. []), de_request_error = (\<lambda>_. False),
     de_key_path = lit ''/k'', de_path_exists = True, de_load_key = Inr ''sk'', de_token_path = lit ''/run/secrets/t'',
     de_read_token = ret (lit ''t''), de_append_token = raise_io (Foreign ''OSError'' ''EROFS''),
     de_get_revision = ret \<lparr>re_status = 200, re_body = Some (JObj [(lit ''result'', JStr (lit ''r1''))])\<rparr>,
     de_post_opa = (\<lambda>_. ret \<lparr>re_status = 200, re_body = Some (JObj [(lit ''result'', JObj
       [(lit ''allow'', JBool True), (lit ''reasons'', JArr []), (lit ''revision'', JStr (lit ''r1''))])])\<rparr>),
     de_post_content = (\<lambda>_ _. ret \<lparr>re_status = 200, re_body = Some (JObj [])\<rparr>),
     de_verifier_health = ret \<lparr>re_status = 200, re_body = Some (JObj [])\<rparr>,
     de_write_ordered = http_write_ordered test_ordered_caller,
     de_call_vault = (\<lambda>_. ret \<lparr>vr_is_error = False, vr_content = [Some (lit ''secret'')]\<rparr>),
     de_uuid = (\<lambda>w. (lit ''u'', w)), de_now = (\<lambda>_. lit ''now''), de_monotonic = (\<lambda>_. 0), de_sleep = (\<lambda>_ w. w)\<rparr>"

definition test_dstate :: "((history \<times> fault_script, bytes, bytes) vstate, bytes, bytes) dstate" where
  "test_dstate = \<lparr>ds_world = test_state [] [], ds_verified = [], ds_pass_complete = False, ds_keys = None, ds_ledger = False,
     ds_metrics = [], ds_log = []\<rparr>"

lemma test_ordered_write:
  assumes "k \<noteq> SEQUENCE_KEY" "k \<noteq> RESERVE_KEY" "refuse_reason_for_ordered_write k v = None"
    "map_of VIEW_SETS view = Some vs"
  obtains w' where "http_write_ordered test_ordered_caller (b64encode k) (b64encode v) view (test_state [] []) =
    (Inr \<lparr>re_status = 200, re_body = Some (ordered_response_json (\<lambda>_. []) (\<lambda>_. [])
       \<lparr>or_tx_id = Some 1, or_seq = Some 1001, or_verified = True, or_committed = Some True, or_attempts = 1,
        or_error_class = None, or_fault_record = None, or_fault_error = None, or_detail = None\<rparr>)\<rparr>, w')"
  using assms
  by (simp add: http_write_ordered_def attempt_def write_ordered_def test_ordered_caller_def require_write_key_def
      test_env_def lit_def bind_io_def ordered_outcome_def get_client_def peek_def poke_def test_state_def ret_def
      ordered_commit_def ordered_try_def observe_def read_bound_reserve_def read_counter_def next_position_def
      ordered_preconditions_def pre_holds_def MAX_POSITION_def ordered_prove_def
      on_world_def mem_def mem_exec_def next_tx_def Let_def numeral_3_eq_3)

lemma key_starts:
  assumes "utf8_encode (lit ns @ rest) = Some k" "ns \<in> {''tool_call:'', ''tool_call_intent:''}"
  shows "k \<noteq> SEQUENCE_KEY" "k \<noteq> RESERVE_KEY" "\<not> starts_with k FAULT_KEY_PREFIX_BYTES"
proof -
  have "utf8_encode (lit ns) = Some ns" using assms(2) by (auto simp: utf8_lit)
  then obtain z where "k = ns @ z" using assms(1) by (auto simp: utf8_encode_append split: option.splits)
  then show "k \<noteq> SEQUENCE_KEY" "k \<noteq> RESERVE_KEY" "\<not> starts_with k FAULT_KEY_PREFIX_BYTES"
    using assms(2) by (auto simp: SEQUENCE_KEY_def RESERVE_KEY_def FAULT_KEY_PREFIX_BYTES_def FAULT_KEY_PREFIX_def lit_def
        encode_ascii_def)
qed

text \<open>A record logged into an empty ledger in memory.\<close>

lemma test_log_record:
  assumes "wf_json (JObj entry)" "dict_get entry (lit ''record_type'') \<noteq> Some (JStr FAULT_RECORD_TYPE)"
    "ns \<in> {''tool_call:'', ''tool_call_intent:''}" "map_of VIEW_SETS (lit view) = Some vs"
    "list_all (\<lambda>c. c < 128) agent" "list_all (\<lambda>c. c < 128) tool"
    "de_crypto env = test_crypto" "de_key_path env = lit ''/k''" "de_path_exists env" "de_load_key env = Inr ''sk''"
    "de_uuid env = (\<lambda>w. (lit ''u'', w))" "de_write_ordered env = http_write_ordered test_ordered_caller"
    "ds_keys s = None" "ds_world s = test_state [] []"
  obtains s' where "log_record env ns agent tool view entry s = (Inr (JInt 1), s')"
proof -
  let ?key = "lit ns @ agent @ lit '':'' @ lit ''u'' @ lit '':'' @ tool"
  let ?signed = "sign_record test_crypto entry ''sk'' (verifying_key_of test_crypto ''sk'')"
  let ?v = "encode_ascii (dumps_compact (JObj ?signed))"
  have "\<forall>c \<in> set ?key. c < 128"
    using assms(3,5,6) by (auto simp: lit_def list_all_iff)
  then obtain k where k: "utf8_encode ?key = Some k" using utf8_ascii by blast
  have "refuse_reason_for_ordered_write k ?v = None"
    using key_starts(3) [OF k assms(3)] loads_bytes_compact [OF sign_record_wf [OF assms(1), of test_crypto "''sk''"]]
      sign_record_fields(3) [of "lit ''record_type''" test_crypto entry] assms(2)
    by (simp add: refuse_reason_for_ordered_write_def FORMAT_FIELD_def FINGERPRINT_FIELD_def SIGNATURE_FIELD_def lit_def)
  from test_ordered_write [OF key_starts(1,2) [OF k assms(3)] this assms(4)]
  obtain w' where w: "http_write_ordered test_ordered_caller (b64encode k) (b64encode ?v) (lit view) (test_state [] []) =
    (Inr \<lparr>re_status = 200, re_body = Some (ordered_response_json (\<lambda>_. []) (\<lambda>_. [])
       \<lparr>or_tx_id = Some 1, or_seq = Some 1001, or_verified = True, or_committed = Some True, or_attempts = 1,
        or_error_class = None, or_fault_record = None, or_fault_error = None, or_detail = None\<rparr>)\<rparr>, w')" .
  have key: "text_b64 ?key = Inr (b64encode k)" using k by (simp add: text_b64_Inr)
  have "lit ''/k'' \<noteq> []" by (simp add: lit_def)
  then have "\<exists>s'. log_record env ns agent tool view entry s = (Inr (JInt 1), s')"
    using key w assms(7-)
    by (simp add: log_record_def sign_entry_def ledger_writer_keys_def bind_io_def d_get_def d_set_def ret_def lift_io_def
        Let_def new_uuid_def d_out_def post_ordered_def checked_body_def raise_for_status_def json_body_def
        ordered_response_json_def dget_def dict_get_def json_opt_def item_def)
  then show ?thesis using that by blast
qed

section \<open>Properties\<close>

definition test_denv_for :: "(dict \<Rightarrow> ((history \<times> fault_script, bytes, bytes) vstate, vault_result) io) \<Rightarrow>
   ((history \<times> fault_script, bytes, bytes) vstate, bytes, bytes) denv" where
  "test_denv_for tool = test_denv\<lparr>de_call_vault := tool\<rparr>"

definition test_request :: "string \<Rightarrow> decide_request" where
  "test_request tool = \<lparr>dr_tool_name = lit tool, dr_tool_args = JObj [], dr_agent_id = lit ''a''\<rparr>"

lemma test_denv_ok: "denv_ok test_denv" "holds_key test_denv ''sk'' test_dstate"
  by (auto simp: denv_ok_def test_denv_def test_crypto_ok ret_def lit_scalars holds_key_def test_dstate_def lit_inj)

lemma test_denv_fields [simp]:
  "de_crypto test_denv = test_crypto" "de_key_path test_denv = lit ''/k''" "de_path_exists test_denv"
  "de_load_key test_denv = Inr ''sk''" "de_uuid test_denv = (\<lambda>w. (lit ''u'', w))" "de_now test_denv = (\<lambda>_. lit ''now'')"
  "de_write_ordered test_denv = http_write_ordered test_ordered_caller"
  "od_env test_ordered_caller = test_env" "verifying_key_of test_crypto sk = sk"
  by (simp_all add: test_denv_def test_ordered_caller_def test_crypto_def)

lemma test_prefix:
  assumes "map_of TOOL_REGISTRY (lit tool) = Some reg"
  shows "query_opa_policy test_denv (lit tool) (JObj []) s = (Inr (allow_outcome (lit ''r1'')), s)"
    "new_uuid test_denv s = (Inr (lit ''u''), s)"
    "keep_content test_denv call_id (JObj []) oc s = (Inr (oc, Some (lit ''present'')), s)"
    "get_ledger test_denv s = (Inr (), s\<lparr>ds_ledger := True\<rparr>)"
  using assms
  by (simp_all add: query_opa_policy_def validate_def test_denv_def attempt_def d_out_def ret_def read_evaluation_def
      json_body_def dget_def dict_get_def lift_io_def allow_outcome_def new_uuid_def keep_content_def except_def
      store_content_def bind_io_def raise_for_status_def get_ledger_def d_get_def d_set_def lit_inj lit_Nil_iff)

text \<open>
  C36: an approval is never bare. When \<open>/decide\<close> answers APPROVED, the tool is registered and
  its arguments passed its schema, the policy engine allowed exactly this call under the revision
  the answer names, the arguments are in the content store under a call id, and the ledger holds,
  at a position of the decision view, a record that verifies under the service's key and carries
  that call id, that revision and the hash of these arguments.
\<close>

theorem approved_call_is_recorded:
  assumes "venv_ok E hist (od_env c)" "de_write_ordered env = http_write_ordered c"
    and "denv_ok env" "holds_key env sk s"
    and "decide env req s = (Inr a, s')" "an_status a = lit ''APPROVED''"
  shows "\<exists>d revision call_id. dr_tool_args req = JObj d \<and> an_policy_revision a = Some revision \<and>
    registered_and_valid env (dr_tool_name req) d \<and> opa_allowed env (dr_tool_name req) d revision \<and>
    content_kept env call_id d \<and>
    record_on (de_crypto env) (vhist hist (ds_world s')) ''ail_view:decision:v1'' (verifying_key_of (de_crypto env) sk)
      ((''outcome_type'', JStr (lit ''policy_allow'')) # allowed_fields env ''decision'' req call_id revision)"
  using verifier_ordered.approval_recorded [OF assms] by blast

theorem approved_call_is_recorded_witness:
  "\<exists>s' a d revision call_id. decide test_denv (test_request ''query_database'') test_dstate = (Inr a, s') \<and>
    an_policy_revision a = Some revision \<and>
    record_on test_crypto (vhist fst (ds_world s')) ''ail_view:decision:v1'' ''sk''
      ((''outcome_type'', JStr (lit ''policy_allow'')) #
       allowed_fields test_denv ''decision'' (test_request ''query_database'') call_id revision)"
proof -
  let ?req = "test_request ''query_database''"
  have reg: "map_of TOOL_REGISTRY (lit ''query_database'') = Some (observed_tool QueryDatabaseSchema)"
    by (simp add: TOOL_REGISTRY_def lit_inj)
  let ?s = "test_dstate\<lparr>ds_log := ds_log test_dstate @ [request_line ?req]\<rparr>"
  let ?c = "facts_for test_denv ?req (lit ''u'') (Some (lit ''present''))"
  have wf: "wf_json (JObj (decision_entry ?c (lit ''now'') (allow_outcome (lit ''r1''))
      (resolve_exclusivity [] (lit ''query_database''))))"
    by (rule entries_wf(1) [OF test_denv_ok(1)]) (simp_all add: test_request_def lit_scalars)
  have rt: "dict_get (decision_entry ?c (lit ''now'') (allow_outcome (lit ''r1''))
      (resolve_exclusivity [] (lit ''query_database''))) (lit ''record_type'') = Some (JStr (lit ''decision''))"
    by (simp add: decision_entry_def dict_get_def)
  obtain s1 where log: "log_record test_denv ''tool_call:'' (lit ''a'') (lit ''query_database'') ''decision''
      (decision_entry ?c (lit ''now'') (allow_outcome (lit ''r1'')) (resolve_exclusivity [] (lit ''query_database'')))
      (?s\<lparr>ds_ledger := True\<rparr>) = (Inr (JInt 1), s1)"
    by (rule test_log_record [OF wf, where ns = "''tool_call:''" and view = "''decision''" and
          agent = "lit ''a''" and tool = "lit ''query_database''" and env = test_denv and s = "?s\<lparr>ds_ledger := True\<rparr>"])
      (use rt in \<open>simp_all add: VIEW_SETS_def lit_inj FAULT_RECORD_TYPE_def test_dstate_def lit_ascii\<close>)
  obtain a s' where a: "decide test_denv ?req test_dstate = (Inr a, s')" "an_status a = lit ''APPROVED''"
    using log by (simp add: decide_def bind_io_def d_set_def d_get_def test_prefix [OF reg] test_request_def
        maybe_mediated_def facts_for_def VAULT_TOOL_def lit_inj record_decision_def except_def attempt_def
        log_tool_call_def test_dstate_def ret_def decided_def lift_io_def render_message_def allow_outcome_def status_of_def)
  show ?thesis
    using approved_call_is_recorded [OF _ _ test_denv_ok a, where E = "\<lambda>_ _. False" and hist = fst and c = test_ordered_caller] a(1)
    by (simp add: test_env_ok) blast
qed

text \<open>
  C37: the mediated tool runs only from a world in which its intent is written. If another tool
  process would have made any difference to a decision, the call was the vault tool's, policy
  allowed it, its arguments were stored, and in the world the process was reached from the ledger
  already held, in the intent view, a verifying record with this call id and revision.
\<close>

theorem tool_runs_only_after_its_intent:
  assumes "venv_ok E hist (od_env c)" "de_write_ordered env = http_write_ordered c"
    and "denv_ok env" "holds_key env sk s"
    and "decide env req s \<noteq> decide (env\<lparr>de_call_vault := f\<rparr>) req s"
  shows "\<exists>d revision call_id w. dr_tool_args req = JObj d \<and> dr_tool_name req = VAULT_TOOL \<and>
    registered_and_valid env (dr_tool_name req) d \<and> opa_allowed env (dr_tool_name req) d revision \<and>
    content_kept env call_id d \<and> de_call_vault env d w \<noteq> f d w \<and>
    record_on (de_crypto env) (vhist hist w) ''ail_view:intent:v1'' (verifying_key_of (de_crypto env) sk)
      (allowed_fields env ''decision_intent'' req call_id revision)"
  using verifier_ordered.tool_reached_after_intent [OF assms] by metis

definition test_exiting :: "exn \<Rightarrow> ((history \<times> fault_script, bytes, bytes) vstate, bytes, bytes) denv" where
  "test_exiting e = test_denv\<lparr>de_call_vault := (\<lambda>_. raise_io (SystemExit e))\<rparr>"

lemma test_exit: "fst (decide (test_exiting e) (test_request ''read_vault_secret'') test_dstate) = Inl (SystemExit e)"
proof -
  let ?req = "test_request ''read_vault_secret''"
  obtain reg where reg: "map_of TOOL_REGISTRY (lit ''read_vault_secret'') = Some reg"
    by (simp add: TOOL_REGISTRY_def VAULT_TOOL_def lit_inj)
  let ?s = "test_dstate\<lparr>ds_log := ds_log test_dstate @ [request_line ?req]\<rparr>"
  let ?c = "facts_for test_denv ?req (lit ''u'') (Some (lit ''present''))"
  have wf: "wf_json (JObj (intent_entry ?c (lit ''now'') (Some (lit ''r1''))))"
    by (rule entries_wf(2) [OF test_denv_ok(1)]) (simp_all add: test_request_def lit_scalars)
  have rt: "dict_get (intent_entry ?c (lit ''now'') (Some (lit ''r1''))) (lit ''record_type'') =
      Some (JStr (lit ''decision_intent''))"
    by (simp add: intent_entry_def dict_get_def)
  obtain s1 where log: "log_record test_denv ''tool_call_intent:'' (lit ''a'') (lit ''read_vault_secret'') ''intent''
      (intent_entry ?c (lit ''now'') (Some (lit ''r1''))) (?s\<lparr>ds_ledger := True\<rparr>) = (Inr (JInt 1), s1)"
    by (rule test_log_record [OF wf, where ns = "''tool_call_intent:''" and view = "''intent''" and
          agent = "lit ''a''" and tool = "lit ''read_vault_secret''" and env = test_denv and s = "?s\<lparr>ds_ledger := True\<rparr>"])
      (use rt in \<open>simp_all add: VIEW_SETS_def lit_inj FAULT_RECORD_TYPE_def test_dstate_def lit_ascii\<close>)
  show ?thesis
    using log by (simp add: test_exiting_def Let_def decide_def bind_io_def d_set_def d_get_def test_prefix [OF reg] test_request_def
        maybe_mediated_def facts_for_def VAULT_TOOL_def run_mediated_def except_def attempt_def
        log_tool_intent_def test_dstate_def allow_outcome_def execute_vault_tool_def d_out_def raise_io_def)
qed

theorem tool_runs_only_after_its_intent_witness:
  "\<exists>revision call_id (w :: (history \<times> fault_script, bytes, bytes) vstate).
     record_on test_crypto (vhist fst w) ''ail_view:intent:v1'' ''sk''
     (allowed_fields (test_exiting ValueError) ''decision_intent'' (test_request ''read_vault_secret'') call_id revision)"
proof -
  let ?f = "\<lambda>_. raise_io (SystemExit TypeError)"
  have other: "test_exiting ValueError\<lparr>de_call_vault := ?f\<rparr> = test_exiting TypeError"
    by (simp add: test_exiting_def)
  have "decide (test_exiting ValueError) (test_request ''read_vault_secret'') test_dstate \<noteq>
      decide (test_exiting ValueError\<lparr>de_call_vault := ?f\<rparr>) (test_request ''read_vault_secret'') test_dstate"
    using test_exit [of ValueError] test_exit [of TypeError] unfolding other by force
  note differs = this
  have env: "denv_ok (test_exiting ValueError)" "holds_key (test_exiting ValueError) ''sk'' test_dstate"
    "de_write_ordered (test_exiting ValueError) = http_write_ordered test_ordered_caller"
    "de_crypto (test_exiting ValueError) = test_crypto" "verifying_key_of test_crypto ''sk'' = ''sk''"
    using test_denv_ok by (auto simp: test_exiting_def denv_ok_def holds_key_def)
  have venv: "venv_ok (\<lambda>_ _. False) fst (od_env test_ordered_caller)" by (simp add: test_env_ok)
  show ?thesis
    using tool_runs_only_after_its_intent [OF venv env(3,1,2) differs] unfolding env(4,5) by blast
qed

section \<open>The shape of an answer\<close>

definition oc_ok :: "outcome \<Rightarrow> bool" where
  "oc_ok oc \<longleftrightarrow> (oc_fault oc \<noteq> None \<longleftrightarrow> oc_type oc = OutcomeFault) \<and>
     (oc_revision oc \<noteq> None \<longleftrightarrow> oc_type oc \<in> {PolicyAllow, PolicyDeny})"

lemma oc_ok_basic [simp]: "oc_ok (fault_outcome f)" "oc_ok (schema_deny m)"
  by (simp_all add: oc_ok_def)

lemma read_evaluation_shape:
  assumes "read_evaluation body = Inr oc"
  shows "oc_ok oc"
proof -
  have "oc_ok oc" if c: "(case (allow, reasons, revision) of
        (JBool b, JArr rs, JStr v) \<Rightarrow>
          if v = [] then Inr (fault_outcome MalformedPolicyResponse)
          else if b then Inr \<lparr>oc_type = PolicyAllow, oc_fault = None, oc_revision = Some v, oc_reasons = []\<rparr>
          else Inr \<lparr>oc_type = PolicyDeny, oc_fault = None, oc_revision = Some v, oc_reasons = rs\<rparr>
      | _ \<Rightarrow> Inr (fault_outcome MalformedPolicyResponse)) = (Inr oc :: exn + outcome)" for allow reasons revision
  proof (cases "\<exists>b rs v. allow = JBool b \<and> reasons = JArr rs \<and> revision = JStr v")
    case True
    then show ?thesis using c by (auto simp: oc_ok_def split: if_splits)
  next
    case False
    have "oc = fault_outcome MalformedPolicyResponse"
    proof (cases allow)
      case (JBool b)
      show ?thesis
      proof (cases reasons)
        case (JArr rs)
        then show ?thesis using c False JBool by (cases revision) simp_all
      qed (use c JBool in simp_all)
    qed (use c in simp_all)
    then show ?thesis by simp
  qed
  then show ?thesis
    using assms unfolding read_evaluation_def by (auto simp: get_field_Inr bind_sum_Inr_iff split: if_splits)
qed

lemma query_shape: "query_opa_policy env tool args s = (Inr oc, s') \<Longrightarrow> oc_ok oc"
  unfolding query_opa_policy_def
  by (auto simp: ret_def raise_io_def lift_io_def bind_sum_Inr_iff dest: read_evaluation_shape
      split: json.splits option.splits sum.splits if_splits elim!: attemptE)

lemma keep_content_shape:
  assumes "keep_content env call_id args oc s = (Inr (oc', cs), s')" "oc_ok oc"
  shows "oc_ok oc'"
proof (cases args)
  case (JObj d)
  then show ?thesis using assms unfolding keep_content_def
    by (auto simp: ret_def elim!: exceptE bind_InrE)
qed (use assms in \<open>auto simp: keep_content_def ret_def\<close>)

lemma mediated_shape:
  assumes "maybe_mediated env c stored args oc s = (Inr (oc', payload), s')" "oc_ok oc"
  shows "oc_ok oc' \<and> (payload \<noteq> None \<longrightarrow> oc_type oc' = PolicyAllow \<and> cf_tool c = VAULT_TOOL)"
proof (cases "oc_type oc' = PolicyAllow")
  case True
  then show ?thesis using maybe_mediated_allow [OF assms(1)] assms(2) by blast
next
  case False
  obtain q s1 where q: "bind_io (get_ledger env) (\<lambda>_. log_tool_intent env c (oc_revision oc)) s = (q, s1)" by fastforce
  show ?thesis
  proof (cases "oc_type oc = PolicyAllow \<and> cf_tool c = VAULT_TOOL \<and> stored")
    case on: True
    then have run: "run_mediated env c args oc s = (Inr (oc', payload), s')"
      using assms(1) by (simp add: maybe_mediated_def)
    note r = run [unfolded run_mediated_def attempt_def q, simplified]
    show ?thesis
    proof (cases q)
      case (Inl e)
      then show ?thesis using r by (cases e) (auto simp: ret_def raise_io_def)
    next
      case (Inr t)
      have "oc' = fault_outcome ToolExecutionFailed \<and> payload = None"
        using r Inr False on by simp (erule exceptE, auto simp: ret_def elim!: bind_InrE)
      then show ?thesis by simp
    qed
  next
    case False
    then show ?thesis using assms by (auto simp: maybe_mediated_def ret_def)
  qed
qed

lemma record_shape:
  assumes "record_decision env c stored excl oc payload s = (Inr (oc', tx, payload'), s')"
  shows "oc' = oc \<and> payload' = payload \<or> oc' = fault_outcome VerifierUnreachable \<and> payload' = None"
proof (cases stored)
  case True
  then show ?thesis using assms
    by (simp add: record_decision_def) (erule exceptE, auto simp: ret_def elim!: bind_InrE)
qed (use assms in \<open>simp add: record_decision_def ret_def\<close>)

text \<open>
  C38: every answer has the closed shape its clients rely on: APPROVED exactly for
  \<open>policy_allow\<close> and DENIED otherwise, a fault class exactly for a fault, a policy revision
  exactly where policy was evaluated, and a result only in an approved call of the mediated tool.
\<close>

theorem answers_are_well_formed:
  assumes "decide env req s = (Inr a, s')"
  shows "an_status a = (if an_outcome_type a = PolicyAllow then lit ''APPROVED'' else lit ''DENIED'') \<and>
    (an_fault_class a \<noteq> None \<longleftrightarrow> an_outcome_type a = OutcomeFault) \<and>
    (an_policy_revision a \<noteq> None \<longleftrightarrow> an_outcome_type a \<in> {PolicyAllow, PolicyDeny}) \<and>
    (an_result a \<noteq> None \<longrightarrow> an_outcome_type a = PolicyAllow \<and> dr_tool_name req = VAULT_TOOL)"
  using assms
proof (cases rule: decide_runs)
  case (1 oc s1 call_id s2 oc2 cs s3 oc3 payload s4 oc4 tx payload4 s5)
  have "oc_ok oc2" by (rule keep_content_shape [OF 1(3) query_shape [OF 1(1)]])
  from mediated_shape [OF 1(4) this]
  have "oc_ok oc4" "payload4 \<noteq> None \<longrightarrow> oc_type oc4 = PolicyAllow \<and> dr_tool_name req = VAULT_TOOL"
    using record_shape [OF 1(5)] by (auto simp: facts_for_def)
  then show ?thesis using decided_answer [OF 1(6)] by (auto simp: oc_ok_def status_of_def)
qed

theorem answers_are_well_formed_witness:
  "\<exists>a s'. decide (test_denv\<lparr>de_post_content := \<lambda>_ _. raise_io TypeError\<rparr>) (test_request ''unknown'') test_dstate = (Inr a, s') \<and>
     an_status a = lit ''DENIED'' \<and> an_fault_class a = Some ContentStoreUnreachable"
proof -
  let ?env = "test_denv\<lparr>de_post_content := \<lambda>_ _. raise_io TypeError\<rparr>"
  have "map_of TOOL_REGISTRY (lit ''unknown'') = None"
    by (simp add: TOOL_REGISTRY_def VAULT_TOOL_def lit_inj)
  then obtain a s' where a: "decide ?env (test_request ''unknown'') test_dstate = (Inr a, s')"
    "an_outcome_type a = OutcomeFault" "an_fault_class a = Some ContentStoreUnreachable"
    by (simp add: decide_def bind_io_def d_set_def d_get_def query_opa_policy_def ret_def new_uuid_def d_out_def
        keep_content_def except_def attempt_def store_content_def raise_io_def test_request_def maybe_mediated_def
        record_decision_def decided_def lift_io_def render_message_def)
  from answers_are_well_formed [OF a(1)] show ?thesis using a by auto
qed

section \<open>Exclusivity\<close>

text \<open>
  C39: exclusivity is never taken from the registry's own claim. After the start-up pass a tool is
  recorded \<open>demonstrated\<close> only if the token's path is under the secrets mount, it was read and
  is not blank, and opening it for writing failed because its file system is read-only.
\<close>

theorem demonstrated_was_checked:
  assumes "run_verification_pass env s = (Inr u, s')"
    and "resolve_exclusivity (ds_verified s') tool = Some (lit ''demonstrated'')"
  shows "tool = VAULT_TOOL \<and> starts_with (de_token_path env) (lit ''/run/secrets/'') \<and>
    (\<exists>w w' content. de_read_token env w = (Inr content, w') \<and> strip content \<noteq> []) \<and>
    (\<exists>w w'. de_append_token env w = (Inl (Foreign ''OSError'' ''EROFS''), w'))"
proof -
  have tool: "tool = VAULT_TOOL"
    using assms(2) by (auto simp: resolve_exclusivity_def resolve_exclusivity_for_def TOOL_REGISTRY_def observed_tool_def
        split: option.splits if_splits)
  have names: "VAULT_TOOL \<noteq> lit ''provision_cloud_server''" "VAULT_TOOL \<noteq> lit ''query_database''"
    "VAULT_TOOL \<noteq> lit ''deploy_to_production''" by (simp_all add: VAULT_TOOL_def lit_inj)
  obtain b s1 where b: "verify_mcp_stdio_secret_mount env s = (Inr b, s1)"
    "s' = (set_verified VAULT_TOOL b s1)\<lparr>ds_pass_complete := True\<rparr>"
    using assms(1) by (auto simp: run_verification_pass_def TOOL_REGISTRY_def observed_tool_def VERIFIABLE_MECHANISMS_def
        MEDIATED_MECHANISM_def lit_inj mechanism_verifier_def d_set_def ret_def bind_io_def split: sum.splits prod.splits)
  have "b" using assms(2) b(2) tool
    by (auto simp: resolve_exclusivity_def resolve_exclusivity_for_def set_verified_def lit_inj split: option.splits if_splits)
  then show ?thesis
    using b(1) tool unfolding verify_mcp_stdio_secret_mount_def
    by (auto simp: ret_def raise_io_def read_only_error_def split: if_splits sum.splits elim!: attemptE dest!: d_out_run) blast+
qed

theorem demonstrated_was_checked_witness:
  "\<exists>w w' content. de_read_token test_denv w = (Inr content, w') \<and> strip content \<noteq> []"
proof -
  have path: "starts_with (de_token_path test_denv) (lit ''/run/secrets/'')" by (simp add: test_denv_def lit_def)
  have token: "strip (lit ''t'') \<noteq> []" by code_simp
  have "verify_mcp_stdio_secret_mount test_denv test_dstate = (Inr True, test_dstate)"
    using path token by (simp add: verify_mcp_stdio_secret_mount_def attempt_def d_out_def test_denv_def ret_def raise_io_def
        os_error_def read_only_error_def)
  then have run: "run_verification_pass test_denv test_dstate =
      (Inr (), (set_verified VAULT_TOOL True test_dstate)\<lparr>ds_pass_complete := True\<rparr>)"
    by (simp add: run_verification_pass_def TOOL_REGISTRY_def observed_tool_def VERIFIABLE_MECHANISMS_def
        MEDIATED_MECHANISM_def lit_inj mechanism_verifier_def d_set_def ret_def bind_io_def)
  have "resolve_exclusivity (ds_verified ((set_verified VAULT_TOOL True test_dstate)\<lparr>ds_pass_complete := True\<rparr>)) VAULT_TOOL =
      Some (lit ''demonstrated'')"
    by (simp add: resolve_exclusivity_def resolve_exclusivity_for_def set_verified_def TOOL_REGISTRY_def VAULT_TOOL_def lit_inj)
  from demonstrated_was_checked [OF run this] show ?thesis by blast
qed

end
