(* ===== verification/Spec2Isabelle.thy ===== *)
theory Spec2Isabelle
  imports OrderedRoute VerifyPath ContentErasure FaultsEndToEnd AuditOrder EvidenceBundle BundleEndToEnd OrderedSpec ReconcileLedger AnchorLive DecisionEndToEnd
begin

text \<open>
  A verification library for the AIL compliance ledger.
\<close>

end
